(* ===== verification/Prelude.thy ===== *)
theory Prelude
  imports Main "HOL-Library.Sublist" "HOL-Library.Word" "HOL-Library.Multiset"
begin

text \<open>
  The language layer shared by all components: Go error values, the outcome of a Go call
  (a value, an error, a panic, a process exit), the functions of package \<open>strings\<close>,
  \<open>strconv\<close> and \<open>path/filepath\<close> that the sources call, Go maps as association lists, and the
  generic lemmas on them. Go strings are byte sequences and \<open>char\<close> is the type of bytes, so a Go
  string is an Isabelle \<open>string\<close>.
\<close>

named_theorems res_simps \<open>evaluation of the outcome type and its sequencing\<close>
named_theorems str_simps \<open>splitting, joining and cleaning of strings and paths\<close>

section \<open>Errors and outcomes\<close>

text \<open>
  An error is kept as the code builds it, unrendered: \<open>errors.New\<close> and \<open>fmt.Errorf\<close> keep the
  format and its arguments (\<open>AErr\<close> for an error printed with \<open>%s\<close>, \<open>AWrap\<close> for one wrapped
  with \<open>%w\<close>); package-level sentinels, which the code compares by identity, are constructors;
  \<open>OsErr\<close> is an error that the operating system or a library outside the sources returns.
\<close>

datatype errno = ENOENT | ELOOP | EBUSY | EOTHER nat

datatype go_error =
    OsErr errno string
  | Errorf string "fmt_arg list"
  | TimeoutError
  | IsNotExistError
  | ExitError int go_error
and fmt_arg = AStr string | AInt int | AErr go_error | AWrap go_error

text \<open>How a call can end without returning to its caller: a panic, \<open>os.Exit\<close>, the end of
  its goroutine (\<open>runtime.Goexit\<close>, which a failing test calls), or a loop that is still running when the model's
  fuel is used up.\<close>

datatype abort = Panic string | Exit int | Goexit | NoFuel

datatype 'a res = Ok 'a | Err go_error | Abort abort

definition bind_res :: "'a res \<Rightarrow> ('a \<Rightarrow> 'b res) \<Rightarrow> 'b res" where
  "bind_res r f = (case r of Ok a \<Rightarrow> f a | Err e \<Rightarrow> Err e | Abort x \<Rightarrow> Abort x)"

fun is_ok :: "'a res \<Rightarrow> bool" where
  "is_ok (Ok _) = True"
| "is_ok _ = False"

fun is_err :: "'a res \<Rightarrow> bool" where
  "is_err (Err _) = True"
| "is_err _ = False"

lemma bind_res_simps [simp, res_simps]:
  "bind_res (Ok a) f = f a"
  "bind_res (Err e) f = Err e"
  "bind_res (Abort x) f = Abort x"
  by (simp_all add: bind_res_def)

lemma bind_res_eq_Ok [res_simps]:
  "bind_res r f = Ok b \<longleftrightarrow> (\<exists>a. r = Ok a \<and> f a = Ok b)"
  by (cases r) auto

lemma is_ok_iff: "is_ok r \<longleftrightarrow> (\<exists>a. r = Ok a)"
  by (cases r) auto

text \<open>\<open>os.IsNotExist\<close> looks at the error itself and does not unwrap; \<open>errors.Is\<close> unwraps
  \<open>%w\<close> arguments.\<close>

fun os_IsNotExist :: "go_error \<Rightarrow> bool" where
  "os_IsNotExist (OsErr n _) = (n = ENOENT)"
| "os_IsNotExist _ = False"

fun errors_Is_errno :: "errno \<Rightarrow> go_error \<Rightarrow> bool"
  and arg_Is_errno :: "errno \<Rightarrow> fmt_arg \<Rightarrow> bool" where
  "errors_Is_errno n (OsErr m _) = (n = m)"
| "errors_Is_errno n (Errorf _ args) = list_ex (arg_Is_errno n) args"
| "errors_Is_errno n TimeoutError = False"
| "errors_Is_errno n IsNotExistError = False"
| "errors_Is_errno n (ExitError _ _) = False"
| "arg_Is_errno n (AWrap e) = errors_Is_errno n e"
| "arg_Is_errno n (AErr _) = False"
| "arg_Is_errno n (AStr _) = False"
| "arg_Is_errno n (AInt _) = False"

text \<open>The result of a call that returns only an error, \<open>nil\<close> being \<open>None\<close>.\<close>

definition res_of :: "go_error option \<Rightarrow> unit res" where
  "res_of e = (case e of None \<Rightarrow> Ok () | Some x \<Rightarrow> Err x)"

definition res_sum :: "go_error + 'a \<Rightarrow> 'a res" where
  "res_sum r = (case r of Inl e \<Rightarrow> Err e | Inr a \<Rightarrow> Ok a)"

lemma res_of_simps [simp, res_simps]: "res_of None = Ok ()" "res_of (Some e) = Err e"
  by (simp_all add: res_of_def)

lemma res_sum_simps [simp, res_simps]: "res_sum (Inl e) = Err e" "res_sum (Inr a) = Ok a"
  by (simp_all add: res_sum_def)

section \<open>Package strings\<close>

text \<open>\<open>strings.Split(s, sep)\<close> for a separator of one byte.\<close>

fun strings_Split :: "string \<Rightarrow> char \<Rightarrow> string list" where
  "strings_Split [] c = [[]]"
| "strings_Split (x # xs) c =
     (if x = c then [] # strings_Split xs c
      else (case strings_Split xs c of [] \<Rightarrow> [[x]] | p # ps \<Rightarrow> (x # p) # ps))"

fun strings_Join :: "string list \<Rightarrow> string \<Rightarrow> string" where
  "strings_Join [] sep = []"
| "strings_Join [s] sep = s"
| "strings_Join (s # t # ss) sep = s @ sep @ strings_Join (t # ss) sep"

text \<open>\<open>strings.SplitN(s, sep, 2)\<close>: at most two parts, the second with every later separator.\<close>

fun strings_SplitN2 :: "string \<Rightarrow> char \<Rightarrow> string list" where
  "strings_SplitN2 [] c = [[]]"
| "strings_SplitN2 (x # xs) c =
     (if x = c then [[], xs]
      else (case strings_SplitN2 xs c of [] \<Rightarrow> [[x]] | p # ps \<Rightarrow> (x # p) # ps))"

definition strings_HasPrefix :: "string \<Rightarrow> string \<Rightarrow> bool" where
  "strings_HasPrefix s p = (take (length p) s = p)"

definition strings_HasSuffix :: "string \<Rightarrow> string \<Rightarrow> bool" where
  "strings_HasSuffix s p = strings_HasPrefix (rev s) (rev p)"

fun strings_Contains :: "string \<Rightarrow> string \<Rightarrow> bool" where
  "strings_Contains [] t = (t = [])"
| "strings_Contains (x # xs) t = (strings_HasPrefix (x # xs) t \<or> strings_Contains xs t)"

definition strings_TrimPrefix :: "string \<Rightarrow> string \<Rightarrow> string" where
  "strings_TrimPrefix s p = (if strings_HasPrefix s p then drop (length p) s else s)"

definition strings_TrimLeft :: "string \<Rightarrow> string \<Rightarrow> string" where
  "strings_TrimLeft s cs = dropWhile (\<lambda>c. c \<in> set cs) s"

definition strings_TrimRight :: "string \<Rightarrow> string \<Rightarrow> string" where
  "strings_TrimRight s cs = rev (dropWhile (\<lambda>c. c \<in> set cs) (rev s))"

lemma strings_Split_not_Nil [simp, str_simps]: "strings_Split s c \<noteq> []"
  by (induction s) (auto split: list.splits)

lemma strings_Join_Cons:
  "ss \<noteq> [] \<Longrightarrow> strings_Join (s # ss) sep = s @ sep @ strings_Join ss sep"
  by (cases ss) auto

lemma strings_Join_hd_Cons: "strings_Join ((x # p) # ps) sep = x # strings_Join (p # ps) sep"
  by (cases ps) auto

lemma strings_Join_Split [simp, str_simps]: "strings_Join (strings_Split s c) [c] = s"
proof (induction s)
  case (Cons x xs)
  then show ?case
    by (cases "strings_Split xs c") (simp_all add: strings_Join_Cons strings_Join_hd_Cons)
qed simp

lemma strings_Split_no_sep: "p \<in> set (strings_Split s c) \<Longrightarrow> c \<notin> set p"
proof (induction s arbitrary: p)
  case (Cons x xs)
  then show ?case
    by (cases "strings_Split xs c") (auto split: if_splits)
qed simp

lemma strings_Split_append_sep:
  "c \<notin> set p \<Longrightarrow> strings_Split (p @ c # s) c = p # strings_Split s c"
  by (induction p) auto

lemma strings_Split_single [simp, str_simps]: "c \<notin> set p \<Longrightarrow> strings_Split p c = [p]"
  by (induction p) auto

lemma strings_Split_Join [str_simps]:
  "ps \<noteq> [] \<Longrightarrow> \<forall>p\<in>set ps. c \<notin> set p \<Longrightarrow> strings_Split (strings_Join ps [c]) c = ps"
proof (induction ps)
  case (Cons p ps)
  then show ?case
    by (cases ps) (auto simp: strings_Split_append_sep)
qed simp

lemma strings_Split_inject: "strings_Split s c = strings_Split t c \<Longrightarrow> s = t"
  by (metis strings_Join_Split)

lemma length_strings_Split: "length (strings_Split s c) = Suc (count_list s c)"
  by (induction s) (auto split: list.splits)

lemma strings_Split_append:
  "strings_Split (s @ c # t) c = strings_Split s c @ strings_Split t c"
proof (induction s)
  case (Cons x xs)
  then show ?case by (cases "strings_Split xs c") auto
qed simp

lemma strings_HasPrefix_iff: "strings_HasPrefix s p \<longleftrightarrow> (\<exists>t. s = p @ t)"
  by (metis append_eq_conv_conj append_take_drop_id strings_HasPrefix_def)

lemma strings_HasPrefix_append [simp, str_simps]: "strings_HasPrefix (p @ s) p"
  by (simp add: strings_HasPrefix_def)

lemma strings_Contains_iff: "strings_Contains s t \<longleftrightarrow> (\<exists>a b. s = a @ t @ b)"
proof (induction s)
  case (Cons x xs)
  show ?case
  proof
    assume "strings_Contains (x # xs) t"
    then consider "strings_HasPrefix (x # xs) t" | "strings_Contains xs t" by auto
    then show "\<exists>a b. x # xs = a @ t @ b"
    proof cases
      case 1
      then show ?thesis by (metis append_Nil strings_HasPrefix_iff)
    next
      case 2
      then show ?thesis using Cons.IH by (metis append_Cons)
    qed
  next
    assume "\<exists>a b. x # xs = a @ t @ b"
    then obtain a b where "x # xs = a @ t @ b" by blast
    then show "strings_Contains (x # xs) t"
    proof (cases a)
      case Nil
      with \<open>x # xs = a @ t @ b\<close> have "strings_HasPrefix (x # xs) t"
        by (simp add: strings_HasPrefix_iff)
      then show ?thesis by simp
    next
      case (Cons y ys)
      with \<open>x # xs = a @ t @ b\<close> have "xs = ys @ t @ b" by simp
      with Cons.IH show ?thesis by auto
    qed
  qed
qed auto

lemma strings_SplitN2_cases:
  "strings_SplitN2 s c = (if c \<in> set s then [takeWhile (\<lambda>x. x \<noteq> c) s, tl (dropWhile (\<lambda>x. x \<noteq> c) s)] else [s])"
  by (induction s) auto

section \<open>Package strconv\<close>

definition digit_char :: "nat \<Rightarrow> char" where
  "digit_char d = char_of (48 + d)"

fun nat_digits :: "nat \<Rightarrow> string" where
  "nat_digits n = (if n < 10 then [digit_char n] else nat_digits (n div 10) @ [digit_char (n mod 10)])"

declare nat_digits.simps [simp del]

definition strconv_Itoa :: "int \<Rightarrow> string" where
  "strconv_Itoa i = (if i < 0 then ''-'' @ nat_digits (nat (- i)) else nat_digits (nat i))"

definition is_digit :: "char \<Rightarrow> bool" where
  "is_digit c = (48 \<le> (of_char c :: nat) \<and> (of_char c :: nat) \<le> 57)"

definition digit_val :: "char \<Rightarrow> nat" where
  "digit_val c = of_char c - 48"

definition digits_val :: "string \<Rightarrow> nat" where
  "digits_val s = foldl (\<lambda>v c. 10 * v + digit_val c) 0 s"

text \<open>\<open>strconv.Atoi\<close> on a 64-bit platform: an optional sign, at least one digit, and a value in the
  range of \<open>int\<close>; anything else is an error.\<close>

definition strconv_Atoi :: "string \<Rightarrow> go_error + int" where
  "strconv_Atoi s =
     (let neg = (take 1 s = ''-'');
          ds = (if take 1 s = ''-'' \<or> take 1 s = ''+'' then drop 1 s else s);
          v = (if neg then - int (digits_val ds) else int (digits_val ds))
      in if ds = [] \<or> \<not> list_all is_digit ds
         then Inl (Errorf ''strconv.Atoi: parsing %s: invalid syntax'' [AStr s])
         else if v < - (2 ^ 63) \<or> 2 ^ 63 - 1 < v
         then Inl (Errorf ''strconv.Atoi: parsing %s: value out of range'' [AStr s])
         else Inr v)"

lemma digit_char_props:
  assumes "d < 10"
  shows "is_digit (digit_char d)" "digit_val (digit_char d) = d"
  using assms by (simp_all add: is_digit_def digit_char_def digit_val_def)

lemma nat_digits_not_Nil [simp]: "nat_digits n \<noteq> []"
  by (subst nat_digits.simps) simp

lemma nat_digits_all_digits: "list_all is_digit (nat_digits n)"
proof (induction n rule: nat_digits.induct)
  case (1 n)
  then show ?case
    by (subst nat_digits.simps) (simp add: digit_char_props)
qed

lemma digits_val_nat_digits: "digits_val (nat_digits n) = n"
proof (induction n rule: nat_digits.induct)
  case (1 n)
  show ?case
  proof (cases "n < 10")
    case True
    then show ?thesis
      by (simp add: nat_digits.simps [of n] digits_val_def digit_char_props)
  next
    case False
    with 1 have "digits_val (nat_digits (n div 10)) = n div 10" by simp
    with False show ?thesis
      by (simp add: nat_digits.simps [of n] digits_val_def digit_char_props)
  qed
qed

lemma is_digit_not_sign: "is_digit c \<Longrightarrow> c \<noteq> CHR ''-'' \<and> c \<noteq> CHR ''+''"
  by (auto simp: is_digit_def)

lemma nat_digits_no_sign: "take 1 (nat_digits n) \<noteq> ''-''" "take 1 (nat_digits n) \<noteq> ''+''"
  using nat_digits_all_digits [of n] by (cases "nat_digits n"; auto dest: is_digit_not_sign)+

text \<open>Printing and parsing of integers in range are inverse to each other.\<close>

lemma strconv_Atoi_Itoa:
  assumes "- (2 ^ 63) \<le> i" and "i < 2 ^ 63"
  shows "strconv_Atoi (strconv_Itoa i) = Inr i"
proof (cases "i < 0")
  case True
  then show ?thesis
    using assms by (simp add: strconv_Atoi_def strconv_Itoa_def Let_def nat_digits_all_digits digits_val_nat_digits)
next
  case False
  then show ?thesis
    using assms nat_digits_no_sign [of "nat i"]
    by (simp add: strconv_Atoi_def strconv_Itoa_def Let_def nat_digits_all_digits digits_val_nat_digits)
qed

section \<open>Go maps\<close>

text \<open>
  A Go map is an association list with distinct keys. Its order is the order in which a
  \<open>range\<close> loop visits the keys, which Go leaves open: a statement about all association lists is
  a statement about every iteration order. A \<open>nil\<close> map reads as the empty map.
\<close>

type_synonym ('k, 'v) gomap = "('k \<times> 'v) list"

definition gomap_ok :: "('k, 'v) gomap \<Rightarrow> bool" where
  "gomap_ok m = distinct (map fst m)"

fun gomap_set :: "'k \<Rightarrow> 'v \<Rightarrow> ('k, 'v) gomap \<Rightarrow> ('k, 'v) gomap" where
  "gomap_set k v [] = [(k, v)]"
| "gomap_set k v ((k', v') # m) = (if k = k' then (k, v) # m else (k', v') # gomap_set k v m)"

lemma map_of_gomap_set [simp]: "map_of (gomap_set k v m) = (map_of m)(k \<mapsto> v)"
  by (induction k v m rule: gomap_set.induct) (auto simp: fun_eq_iff)

lemma fst_set_gomap_set: "fst ` set (gomap_set k v m) = insert k (fst ` set m)"
  by (induction k v m rule: gomap_set.induct) (auto simp: image_iff)

lemma gomap_ok_set [simp, intro]: "gomap_ok m \<Longrightarrow> gomap_ok (gomap_set k v m)"
proof (induction k v m rule: gomap_set.induct)
  case (2 k v k' v' m)
  have "set (map fst (gomap_set k v m)) = insert k (set (map fst m))"
    using fst_set_gomap_set [of k v m] by simp
  with 2 show ?case by (auto simp: gomap_ok_def)
qed (simp add: gomap_ok_def)

lemma gomap_ok_Nil [simp]: "gomap_ok []"
  by (simp add: gomap_ok_def)

section \<open>Runes\<close>

text \<open>Ranging over a Go string decodes UTF-8.\<close>

definition byte_in :: "nat \<Rightarrow> nat \<Rightarrow> char \<Rightarrow> bool" where
  "byte_in lo hi c \<longleftrightarrow> lo \<le> (of_char c :: nat) \<and> (of_char c :: nat) \<le> hi"

definition continuation :: "char \<Rightarrow> bool" where
  "continuation = byte_in 0x80 0xBF"

text \<open>The bytes the next rune takes: a well-formed sequence, or a single invalid byte.\<close>

fun rune_width :: "string \<Rightarrow> nat" where
  "rune_width (a # b # c # d # _) =
     (if byte_in 0xC2 0xDF a \<and> continuation b then 2
      else if (byte_in 0xE0 0xE0 a \<and> byte_in 0xA0 0xBF b \<or> byte_in 0xED 0xED a \<and> byte_in 0x80 0x9F b \<or>
               (byte_in 0xE1 0xEC a \<or> byte_in 0xEE 0xEF a) \<and> continuation b) \<and> continuation c then 3
      else if (byte_in 0xF0 0xF0 a \<and> byte_in 0x90 0xBF b \<or> byte_in 0xF4 0xF4 a \<and> byte_in 0x80 0x8F b \<or>
               byte_in 0xF1 0xF3 a \<and> continuation b) \<and> continuation c \<and> continuation d then 4
      else 1)"
| "rune_width [a, b, c] =
     (if byte_in 0xC2 0xDF a \<and> continuation b then 2
      else if (byte_in 0xE0 0xE0 a \<and> byte_in 0xA0 0xBF b \<or> byte_in 0xED 0xED a \<and> byte_in 0x80 0x9F b \<or>
               (byte_in 0xE1 0xEC a \<or> byte_in 0xEE 0xEF a) \<and> continuation b) \<and> continuation c then 3
      else 1)"
| "rune_width [a, b] = (if byte_in 0xC2 0xDF a \<and> continuation b then 2 else 1)"
| "rune_width _ = 1"

lemma rune_width_pos [simp]: "0 < rune_width s"
  by (induction s rule: rune_width.induct) auto

lemma length_drop_rune: "length (drop (rune_width (c # cs)) (c # cs)) < length (c # cs)"
  using rune_width_pos [of "c # cs"] by (cases "rune_width (c # cs)") simp_all

function rune_count :: "string \<Rightarrow> nat" where
  "rune_count [] = 0"
| "rune_count (c # cs) = Suc (rune_count (drop (rune_width (c # cs)) (c # cs)))"
  by pat_completeness auto
termination
  by (relation "measure length") (use length_drop_rune in \<open>simp_all\<close>)

end
