(* ===== verification/GoPath.thy ===== *)
theory GoPath
  imports Prelude
begin

text \<open>
  The functions of package \<open>path/filepath\<close> that the sources use, on Unix: \<open>Clean\<close>, \<open>Join\<close>,
  \<open>Dir\<close>. \<open>filepath.Clean\<close> is stated on the path's elements with a stack of kept elements, which is
  the rule its documentation gives; the lemmas show that it is idempotent and that its result is
  canonical, and compute it on the paths the configuration code builds.
\<close>

section \<open>Clean, Join and Dir\<close>

text \<open>The kept elements are a stack, last element first. An element \<open>..\<close> removes the element before
  it; with none to remove it is dropped in a rooted path and kept in a relative one.\<close>

fun clean_elems :: "bool \<Rightarrow> string list \<Rightarrow> string list \<Rightarrow> string list" where
  "clean_elems rooted out [] = rev out"
| "clean_elems rooted out (p # ps) =
     (if p = [] \<or> p = ''.'' then clean_elems rooted out ps
      else if p = ''..'' then
        (case out of
           [] \<Rightarrow> clean_elems rooted (if rooted then [] else [''..'']) ps
         | q # qs \<Rightarrow> clean_elems rooted (if q = ''..'' then ''..'' # out else qs) ps)
      else clean_elems rooted (p # out) ps)"

definition is_rooted :: "string \<Rightarrow> bool" where
  "is_rooted p = (take 1 p = ''/'')"

definition path_elems :: "string \<Rightarrow> string list" where
  "path_elems p = clean_elems (is_rooted p) [] (strings_Split p CHR ''/'')"

definition render_path :: "bool \<Rightarrow> string list \<Rightarrow> string" where
  "render_path rooted es =
     (if rooted then ''/'' @ strings_Join es ''/''
      else if es = [] then ''.'' else strings_Join es ''/'')"

definition filepath_Clean :: "string \<Rightarrow> string" where
  "filepath_Clean p = (if p = [] then ''.'' else render_path (is_rooted p) (path_elems p))"

definition filepath_Join :: "string list \<Rightarrow> string" where
  "filepath_Join es =
     (case dropWhile (\<lambda>e. e = []) es of
        [] \<Rightarrow> []
      | e # rest \<Rightarrow> filepath_Clean (strings_Join (e # rest) ''/''))"

definition filepath_Dir :: "string \<Rightarrow> string" where
  "filepath_Dir p = filepath_Clean (rev (dropWhile (\<lambda>c. c \<noteq> CHR ''/'') (rev p)))"

section \<open>Canonical elements\<close>

text \<open>What a stack of kept elements looks like: proper names, on top of \<open>..\<close> elements that only a
  relative path can have.\<close>

fun canon_stack :: "bool \<Rightarrow> string list \<Rightarrow> bool" where
  "canon_stack rooted [] = True"
| "canon_stack rooted (q # qs) =
     (q \<noteq> [] \<and> q \<noteq> ''.'' \<and> CHR ''/'' \<notin> set q \<and>
      (if q = ''..'' then \<not> rooted \<and> list_all (\<lambda>x. x = ''..'') qs else canon_stack rooted qs))"

definition proper_elem :: "string \<Rightarrow> bool" where
  "proper_elem e = (e \<noteq> [] \<and> e \<noteq> ''.'' \<and> e \<noteq> ''..'' \<and> CHR ''/'' \<notin> set e)"

lemma canon_stack_dotdots: "list_all (\<lambda>x. x = ''..'') qs \<Longrightarrow> canon_stack False qs"
  by (induction qs) auto

lemma canon_stack_tl: "canon_stack r (q # qs) \<Longrightarrow> canon_stack r qs"
  by (auto split: if_splits intro: canon_stack_dotdots)

lemma canon_stack_suffix: "canon_stack r (xs @ ys) \<Longrightarrow> canon_stack r ys"
proof (induction xs)
  case (Cons x xs)
  then have "canon_stack r (x # (xs @ ys))" by (simp del: canon_stack.simps)
  then have "canon_stack r (xs @ ys)" by (rule canon_stack_tl)
  then show ?case by (rule Cons.IH)
qed simp

lemma canon_stack_rooted: "canon_stack True qs \<longleftrightarrow> list_all proper_elem qs"
  by (induction qs) (auto simp: proper_elem_def)

lemma canon_stack_mem: "canon_stack r qs \<Longrightarrow> q \<in> set qs \<Longrightarrow> q \<noteq> [] \<and> CHR ''/'' \<notin> set q"
proof (induction qs)
  case (Cons x xs)
  show ?case
  proof (cases "q = x")
    case True
    with Cons.prems show ?thesis by simp
  next
    case False
    moreover have "canon_stack r xs" using Cons.prems(1) by (rule canon_stack_tl)
    ultimately show ?thesis using Cons.prems(2) Cons.IH by simp
  qed
qed simp

lemmas canon_stack_not_Nil = canon_stack_mem [THEN conjunct1]
lemmas canon_stack_no_slash = canon_stack_mem [THEN conjunct2]

lemma clean_elems_canon:
  "canon_stack r out \<Longrightarrow> \<forall>p\<in>set ps. CHR ''/'' \<notin> set p \<Longrightarrow>
    canon_stack r (rev (clean_elems r out ps))"
proof (induction r out ps rule: clean_elems.induct)
  case (2 r out p ps)
  show ?case
  proof (cases "p = ''..''")
    case True
    then show ?thesis
    proof (cases out)
      case Nil
      with 2 True show ?thesis by auto
    next
      case (Cons q qs)
      with 2 True show ?thesis
        by (cases "q = ''..''") (auto split: if_splits)
    qed
  next
    case False
    with 2 show ?thesis by auto
  qed
qed simp

lemma clean_elems_fix:
  "canon_stack r (rev ps @ out) \<Longrightarrow> clean_elems r out ps = rev out @ ps"
proof (induction ps arbitrary: out)
  case (Cons p ps)
  have "canon_stack r (p # out)"
    using Cons.prems canon_stack_suffix [of r "rev ps" "p # out"] by simp
  moreover have "clean_elems r (p # out) ps = rev (p # out) @ ps"
    using Cons.prems by (intro Cons.IH) simp
  ultimately show ?case
    by (cases out) (auto split: if_splits)
qed simp

lemma clean_elems_append:
  "clean_elems r out (ps @ qs) = clean_elems r (rev (clean_elems r out ps)) qs"
  by (induction r out ps rule: clean_elems.induct) (auto split: list.split)

lemma clean_elems_proper:
  "list_all proper_elem ps \<Longrightarrow> clean_elems r out ps = rev out @ ps"
  by (induction ps arbitrary: out) (auto simp: proper_elem_def)

lemma path_elems_canon: "canon_stack (is_rooted p) (rev (path_elems p))"
  unfolding path_elems_def
  by (rule clean_elems_canon) (auto dest: strings_Split_no_sep)

lemma path_elems_no_slash: "e \<in> set (path_elems p) \<Longrightarrow> CHR ''/'' \<notin> set e"
  using path_elems_canon [of p] canon_stack_no_slash by fastforce

lemma path_elems_not_Nil: "e \<in> set (path_elems p) \<Longrightarrow> e \<noteq> []"
  using path_elems_canon [of p] canon_stack_not_Nil by fastforce

lemma path_elems_rooted_proper: "is_rooted p \<Longrightarrow> list_all proper_elem (path_elems p)"
  using path_elems_canon [of p] by (simp add: canon_stack_rooted list_all_iff)

section \<open>Clean is idempotent\<close>

lemma is_rooted_render: "(\<forall>e\<in>set es. e \<noteq> [] \<and> CHR ''/'' \<notin> set e) \<Longrightarrow> is_rooted (render_path r es) = r"
proof (cases r)
  case False
  assume es: "\<forall>e\<in>set es. e \<noteq> [] \<and> CHR ''/'' \<notin> set e"
  show ?thesis
  proof (cases es)
    case (Cons e es')
    with es obtain c e' where "e = c # e'" "c \<noteq> CHR ''/''" by (cases e) auto
    with Cons False show ?thesis
      by (cases es') (auto simp: is_rooted_def render_path_def)
  qed (simp add: False is_rooted_def render_path_def)
qed (simp add: is_rooted_def render_path_def)

lemma Split_render:
  assumes "\<forall>e\<in>set es. e \<noteq> [] \<and> CHR ''/'' \<notin> set e"
  shows "strings_Split (render_path r es) CHR ''/'' =
           (if r then [] # (if es = [] then [[]] else es) else if es = [] then [''.''] else es)"
  using assms by (cases "es = []") (auto simp: render_path_def strings_Split_Join)

lemma path_elems_render:
  assumes "canon_stack r (rev es)"
  shows "path_elems (render_path r es) = es"
proof -
  have es: "\<forall>e\<in>set es. e \<noteq> [] \<and> CHR ''/'' \<notin> set e"
    using assms canon_stack_not_Nil canon_stack_no_slash by fastforce
  have "clean_elems r [] es = es"
    using clean_elems_fix [of r es "[]"] assms by simp
  with es show ?thesis
    by (auto simp: path_elems_def is_rooted_render Split_render)
qed

lemma render_not_Nil [simp]: "(\<forall>e\<in>set es. e \<noteq> []) \<Longrightarrow> render_path r es \<noteq> []"
  by (cases es rule: remdups_adj.cases) (auto simp: render_path_def)

lemma Clean_rooted: "p \<noteq> [] \<Longrightarrow> is_rooted (filepath_Clean p) = is_rooted p"
  by (auto simp: filepath_Clean_def intro!: is_rooted_render dest: path_elems_not_Nil path_elems_no_slash)

lemma path_elems_Clean [simp]: "path_elems (filepath_Clean p) = path_elems p"
proof (cases "p = []")
  case True
  then show ?thesis by (simp add: filepath_Clean_def path_elems_def is_rooted_def)
next
  case False
  then show ?thesis
    by (simp add: filepath_Clean_def path_elems_render path_elems_canon)
qed

theorem filepath_Clean_idem: "filepath_Clean (filepath_Clean p) = filepath_Clean p"
proof (cases "p = []")
  case True
  then show ?thesis by (simp add: filepath_Clean_def is_rooted_def path_elems_def render_path_def)
next
  case False
  then have "filepath_Clean p \<noteq> []"
    by (simp add: filepath_Clean_def path_elems_not_Nil)
  with False show ?thesis
    by (simp add: filepath_Clean_def [of "filepath_Clean p"] Clean_rooted)
       (simp add: filepath_Clean_def)
qed

text \<open>A path that equals its cleaned form and is rooted has proper elements only: no empty element,
  no \<open>.\<close> and no \<open>..\<close> after the leading separator.\<close>

lemma canonical_rooted_elems:
  assumes "filepath_Clean p = p" and "is_rooted p"
  shows "p = ''/'' @ strings_Join (path_elems p) ''/''" and "list_all proper_elem (path_elems p)"
proof -
  have "p \<noteq> []" using assms(2) by (auto simp: is_rooted_def)
  with assms show "p = ''/'' @ strings_Join (path_elems p) ''/''"
    by (metis filepath_Clean_def render_path_def)
  show "list_all proper_elem (path_elems p)"
    using assms(2) by (rule path_elems_rooted_proper)
qed

section \<open>Joining proper elements below a rooted directory\<close>

definition rooted_path :: "string list \<Rightarrow> string" where
  "rooted_path es = ''/'' @ strings_Join es ''/''"

lemma rooted_path_render: "rooted_path es = render_path True es"
  by (simp add: rooted_path_def render_path_def)

lemma Clean_rooted_path:
  assumes "is_rooted p" and "path_elems p = es"
  shows "filepath_Clean p = rooted_path es"
proof -
  have "p \<noteq> []" using assms(1) by (auto simp: is_rooted_def)
  with assms show ?thesis by (simp add: filepath_Clean_def rooted_path_render)
qed

lemma path_elems_rooted_path [simp]:
  "list_all proper_elem es \<Longrightarrow> path_elems (rooted_path es) = es"
  by (simp add: rooted_path_render path_elems_render canon_stack_rooted list_all_iff)

lemma is_rooted_rooted_path [simp]: "is_rooted (rooted_path es)"
  by (simp add: rooted_path_def is_rooted_def)

lemma rooted_path_inject:
  assumes "rooted_path es = rooted_path fs" "list_all proper_elem es" "list_all proper_elem fs"
  shows "es = fs"
  using assms by (metis path_elems_rooted_path)

lemma Clean_rooted_path_id [simp]:
  "list_all proper_elem es \<Longrightarrow> filepath_Clean (rooted_path es) = rooted_path es"
  by (simp add: Clean_rooted_path)

lemma is_rooted_append: "is_rooted p \<Longrightarrow> is_rooted (p @ q)"
  by (cases p) (auto simp: is_rooted_def)

lemma path_elems_append_slash:
  assumes "is_rooted p"
  shows "path_elems (p @ ''/'' @ q) =
    clean_elems True (rev (path_elems p)) (strings_Split q CHR ''/'')"
  using assms is_rooted_append [OF assms, of "''/'' @ q"]
  by (simp add: path_elems_def strings_Split_append clean_elems_append)

lemma proper_elem_Split: "proper_elem e \<Longrightarrow> strings_Split e CHR ''/'' = [e]"
  by (simp add: proper_elem_def)

lemma Split_Join_proper:
  "es \<noteq> [] \<Longrightarrow> list_all proper_elem es \<Longrightarrow>
    strings_Split (strings_Join es ''/'') CHR ''/'' = es"
  by (rule strings_Split_Join) (auto simp: list_all_iff proper_elem_def)

text \<open>Joining a rooted directory with a relative path of proper elements appends the elements.\<close>

lemma Join_rooted:
  assumes "is_rooted p" and "es \<noteq> []" and "list_all proper_elem es"
  shows "filepath_Join [p, strings_Join es ''/''] = rooted_path (path_elems p @ es)"
proof -
  have p: "p \<noteq> []" using assms(1) by (auto simp: is_rooted_def)
  have "path_elems (p @ ''/'' @ strings_Join es ''/'') = path_elems p @ es"
    using assms by (simp only: path_elems_append_slash Split_Join_proper clean_elems_proper rev_rev_ident not_False_eq_True)
  then have "filepath_Clean (p @ ''/'' @ strings_Join es ''/'') = rooted_path (path_elems p @ es)"
    by (intro Clean_rooted_path is_rooted_append assms(1))
  with p show ?thesis by (simp add: filepath_Join_def)
qed

text \<open>Joining relative elements keeps them.\<close>

lemma Join_relative:
  assumes "es \<noteq> []" and "list_all proper_elem es"
  shows "filepath_Join es = strings_Join es ''/''"
proof -
  obtain e es' where es: "es = e # es'" using assms(1) by (cases es) auto
  with assms(2) obtain c e' where e: "e = c # e'" "c \<noteq> CHR ''/''"
    by (cases e) (auto simp: proper_elem_def)
  have nr: "\<not> is_rooted (strings_Join es ''/'')"
    using e es by (cases es') (auto simp: is_rooted_def)
  have "path_elems (strings_Join es ''/'') = es"
    using nr assms by (simp add: path_elems_def Split_Join_proper clean_elems_proper)
  moreover have "strings_Join es ''/'' \<noteq> []"
    using e es by (cases es') auto
  ultimately show ?thesis
    using nr es e assms(1) by (simp add: filepath_Join_def filepath_Clean_def render_path_def)
qed

lemma Join_rooted_empty:
  "is_rooted p \<Longrightarrow> filepath_Join [p, []] = rooted_path (path_elems p)"
proof -
  assume r: "is_rooted p"
  then have p: "p \<noteq> []" by (auto simp: is_rooted_def)
  have "path_elems (p @ ''/'' @ []) = path_elems p"
    using r by (simp only: path_elems_append_slash) simp
  with r have "filepath_Clean (p @ ''/'') = rooted_path (path_elems p)"
    by (intro Clean_rooted_path is_rooted_append) simp_all
  with p show ?thesis by (simp add: filepath_Join_def)
qed

end
