(* ===== verification/World.thy ===== *)
theory World
  imports GoPath
begin

text \<open>
  The program's surroundings: every call that leaves the program (system calls, file access, child
  processes, the clock, the mount and cgroup libraries) is a value of \<open>call\<close>. The world keeps the
  calls made so far, in order, and an environment that answers each call as any function of the
  calls before it. Since the environment is arbitrary, a theorem about all worlds covers every file
  system content, every error return at every point, and every interference of other processes
  between two calls. An \<open>io\<close> action is a function on worlds; \<open>bindM\<close> is Go's
  \<open>if err != nil { return err }\<close>. The logic \<open>emits\<close> bounds which calls an action can make.
\<close>

named_theorems io_simps \<open>evaluation of io actions\<close>
named_theorems emits_intros \<open>which calls an action can make\<close>

section \<open>Calls\<close>

datatype stream = Fd nat | StdIn | StdOut | StdErr

datatype open_flag = O_RDWR | O_CREATE | O_APPEND | O_NOFOLLOW | O_TRUNC

datatype mount_flag = MS_BIND | MS_SHARED | MS_NOSUID | MS_NOEXEC | MS_NODEV

datatype lock_op = LOCK_EX | LOCK_UN

text \<open>A child process, as \<open>exec.Cmd\<close> describes it: an unset \<open>Env\<close> is \<open>None\<close>; several
  output streams are an \<open>io.MultiWriter\<close>.\<close>

record command =
  cmd_path :: string
  cmd_args :: "string list"
  cmd_env :: "string list option"
  cmd_stdin :: "stream list"
  cmd_stdout :: "stream list"
  cmd_stderr :: "stream list"

datatype call =
    MkdirAll string nat
  | Stat string
  | Lstat string
  | Chmod string nat
  | Chown string int int
  | OpenFile string "open_flag list" nat
  | FChown nat int int
  | CloseFd nat
  | WriteFd nat string
  | ReadFile string
  | ReadDir string
  | ScanLines nat
  | RemoveAll string
  | Mount string string string "mount_flag list" string
  | Unmount string
  | Flock nat lock_op
  | Mounted string
  | GetMounts string
  | IsCgroup2UnifiedMode
  | IsCgroup2HybridMode
  | GetAllSubsystems
  | FindCgroupMountpoint string string
  | PathExists string
  | CurrentUser
  | LookupUser string
  | Glob string
  | Getenv string
  | RunCmd command
  | OutputCmd command
  | CombinedOutputCmd command
  | StartCmd command
  | SignalCmd nat
  | NewTimer nat
  | NewTicker nat
  | StopTicker
  | Select
  | Sleep nat
  | Print stream string
  | Fprintf stream string "fmt_arg list"
  | MkdirTemp string string
  | Symlink string string
  | CopyFd nat nat
  | Environ
  | TestLogf string "fmt_arg list"

section \<open>The environment and the world\<close>

text \<open>\<open>os.FileMode\<close> is a 32-bit word whose top bit marks a directory.\<close>

record file_info =
  fi_Mode :: "32 word"

definition fi_IsDir :: "file_info \<Rightarrow> bool" where
  "fi_IsDir fi = bit (fi_Mode fi) 31"

record os_user =
  u_Uid :: string
  u_Gid :: string
  u_Username :: string

text \<open>How a child process ended: normally; not started at all (its \<open>ProcessState\<close> is then
  \<open>nil\<close>); or with an error and a process state, whose wait status may be missing.\<close>

datatype cmd_result = CmdOk | CmdNotStarted go_error | CmdFailed "int option" go_error

text \<open>What a \<open>select\<close> statement receives: a tick, the timeout, a signal, the end of a child.\<close>

datatype event = Tick | TimedOut | GotSignal nat | ChildDone cmd_result

record environment =
  r_err :: "call list \<Rightarrow> call \<Rightarrow> go_error option"
  r_stat :: "call list \<Rightarrow> call \<Rightarrow> go_error + file_info"
  r_fd :: "call list \<Rightarrow> call \<Rightarrow> go_error + nat"
  r_text :: "call list \<Rightarrow> call \<Rightarrow> go_error + string"
  r_texts :: "call list \<Rightarrow> call \<Rightarrow> go_error + string list"
  r_bool :: "call list \<Rightarrow> call \<Rightarrow> go_error + bool"
  r_user :: "call list \<Rightarrow> call \<Rightarrow> go_error + os_user"
  r_cmd :: "call list \<Rightarrow> call \<Rightarrow> cmd_result"
  r_out :: "call list \<Rightarrow> call \<Rightarrow> string"
  r_event :: "call list \<Rightarrow> call \<Rightarrow> event"
  r_scan :: "call list \<Rightarrow> call \<Rightarrow> string list \<times> go_error option"

record world =
  calls :: "call list"
  env :: environment

type_synonym 'a io = "world \<Rightarrow> 'a res \<times> world"

definition record_call :: "call \<Rightarrow> world \<Rightarrow> world" where
  "record_call c w = w\<lparr>calls := calls w @ [c]\<rparr>"

section \<open>Sequencing\<close>

definition returnM :: "'a \<Rightarrow> 'a io" where
  "returnM a w = (Ok a, w)"

definition throwM :: "go_error \<Rightarrow> 'a io" where
  "throwM e w = (Err e, w)"

definition abortM :: "abort \<Rightarrow> 'a io" where
  "abortM x w = (Abort x, w)"

definition liftM :: "'a res \<Rightarrow> 'a io" where
  "liftM r w = (r, w)"

definition bindM :: "'a io \<Rightarrow> ('a \<Rightarrow> 'b io) \<Rightarrow> 'b io" where
  "bindM m f w =
     (case m w of
        (Ok a, w') \<Rightarrow> f a w'
      | (Err e, w') \<Rightarrow> (Err e, w')
      | (Abort x, w') \<Rightarrow> (Abort x, w'))"

definition thenM :: "'a io \<Rightarrow> 'b io \<Rightarrow> 'b io" where
  "thenM m k = bindM m (\<lambda>_. k)"

text \<open>\<open>attemptM\<close> is a call whose error the caller looks at itself.\<close>

definition attemptM :: "'a io \<Rightarrow> (go_error + 'a) io" where
  "attemptM m w =
     (case m w of
        (Ok a, w') \<Rightarrow> (Ok (Inr a), w')
      | (Err e, w') \<Rightarrow> (Ok (Inl e), w')
      | (Abort x, w') \<Rightarrow> (Abort x, w'))"

definition mapErrM :: "(go_error \<Rightarrow> go_error) \<Rightarrow> 'a io \<Rightarrow> 'a io" where
  "mapErrM f m w =
     (case m w of
        (Ok a, w') \<Rightarrow> (Ok a, w')
      | (Err e, w') \<Rightarrow> (Err (f e), w')
      | (Abort x, w') \<Rightarrow> (Abort x, w'))"

text \<open>A deferred call runs whatever the outcome, and its own error is dropped.\<close>

definition deferM :: "'a io \<Rightarrow> 'b io \<Rightarrow> 'a io" where
  "deferM m d w = (let (r, w') = m w; (r', w'') = d w' in (r, w''))"

definition ignoreM :: "'a io \<Rightarrow> unit io" where
  "ignoreM m w = (let (r, w') = m w in (case r of Abort x \<Rightarrow> Abort x | _ \<Rightarrow> Ok (), w'))"

fun forM :: "'a list \<Rightarrow> ('a \<Rightarrow> unit io) \<Rightarrow> unit io" where
  "forM [] f = returnM ()"
| "forM (x # xs) f = thenM (f x) (forM xs f)"

section \<open>The primitive calls\<close>

definition sys_err :: "call \<Rightarrow> unit io" where
  "sys_err c w = (res_of (r_err (env w) (calls w) c), record_call c w)"

definition sys_stat :: "call \<Rightarrow> file_info io" where
  "sys_stat c w = (res_sum (r_stat (env w) (calls w) c), record_call c w)"

definition sys_fd :: "call \<Rightarrow> nat io" where
  "sys_fd c w = (res_sum (r_fd (env w) (calls w) c), record_call c w)"

definition sys_text :: "call \<Rightarrow> string io" where
  "sys_text c w = (res_sum (r_text (env w) (calls w) c), record_call c w)"

definition sys_texts :: "call \<Rightarrow> string list io" where
  "sys_texts c w = (res_sum (r_texts (env w) (calls w) c), record_call c w)"

definition sys_bool :: "call \<Rightarrow> bool io" where
  "sys_bool c w = (res_sum (r_bool (env w) (calls w) c), record_call c w)"

definition sys_user :: "call \<Rightarrow> os_user io" where
  "sys_user c w = (res_sum (r_user (env w) (calls w) c), record_call c w)"

definition sys_cmd :: "call \<Rightarrow> cmd_result io" where
  "sys_cmd c w = (Ok (r_cmd (env w) (calls w) c), record_call c w)"

definition sys_out :: "call \<Rightarrow> (string \<times> cmd_result) io" where
  "sys_out c w = (Ok (r_out (env w) (calls w) c, r_cmd (env w) (calls w) c), record_call c w)"

definition sys_event :: "call \<Rightarrow> event io" where
  "sys_event c w = (Ok (r_event (env w) (calls w) c), record_call c w)"

text \<open>A \<open>bufio.Scanner\<close> over an open file: the lines it delivers, and the error it stopped with.\<close>

definition sys_scan :: "call \<Rightarrow> (string list \<times> go_error option) io" where
  "sys_scan c w = (Ok (r_scan (env w) (calls w) c), record_call c w)"

text \<open>A call without a result that cannot fail (the clock, printing).\<close>

definition sys_do :: "call \<Rightarrow> unit io" where
  "sys_do c w = (Ok (), record_call c w)"

text \<open>A yes-or-no question that cannot fail.\<close>

definition sys_flag :: "call \<Rightarrow> bool io" where
  "sys_flag c w = (Ok (case r_bool (env w) (calls w) c of Inr b \<Rightarrow> b | Inl _ \<Rightarrow> False), record_call c w)"

text \<open>A call that cannot fail and answers with a string (\<open>os.Getenv\<close>).\<close>

definition sys_str :: "call \<Rightarrow> string io" where
  "sys_str c w = (Ok (r_out (env w) (calls w) c), record_call c w)"

text \<open>The error of \<open>Cmd.Run\<close>.\<close>

fun cmd_err :: "cmd_result \<Rightarrow> go_error option" where
  "cmd_err CmdOk = None"
| "cmd_err (CmdNotStarted e) = Some e"
| "cmd_err (CmdFailed _ e) = Some e"

definition run_cmd :: "command \<Rightarrow> unit io" where
  "run_cmd c = bindM (sys_cmd (RunCmd c)) (\<lambda>r. liftM (res_of (cmd_err r)))"

definition exec_Command :: "string \<Rightarrow> string list \<Rightarrow> command" where
  "exec_Command p as =
     \<lparr>cmd_path = p, cmd_args = as, cmd_env = None, cmd_stdin = [], cmd_stdout = [], cmd_stderr = []\<rparr>"

lemmas sys_defs = sys_err_def sys_stat_def sys_fd_def sys_text_def sys_texts_def sys_bool_def
  sys_user_def sys_cmd_def sys_out_def sys_event_def sys_scan_def sys_str_def sys_flag_def sys_do_def

lemmas seq_defs = returnM_def throwM_def abortM_def liftM_def thenM_def bindM_def attemptM_def
  mapErrM_def deferM_def ignoreM_def

declare sys_defs [io_simps] seq_defs [io_simps] record_call_def [io_simps] run_cmd_def [io_simps]

lemma record_call_simps [simp]:
  "calls (record_call c w) = calls w @ [c]" "env (record_call c w) = env w"
  by (simp_all add: record_call_def)

section \<open>Laws of sequencing\<close>

lemma bindM_returnM [simp]: "bindM (returnM a) f = f a"
  by (simp add: bindM_def returnM_def fun_eq_iff)

lemma bindM_returnM_right [simp]: "bindM m returnM = m"
  by (auto simp: bindM_def returnM_def fun_eq_iff split: prod.splits res.splits)

lemma bindM_assoc: "bindM (bindM m f) g = bindM m (\<lambda>a. bindM (f a) g)"
  by (auto simp: bindM_def fun_eq_iff split: prod.splits res.splits)

lemma bindM_throwM [simp]: "bindM (throwM e) f = throwM e"
  by (simp add: bindM_def throwM_def fun_eq_iff)

lemma bindM_abortM [simp]: "bindM (abortM x) f = abortM x"
  by (simp add: bindM_def abortM_def fun_eq_iff)

lemma bindM_Ok: "m w = (Ok a, w') \<Longrightarrow> bindM m f w = f a w'"
  by (simp add: bindM_def)

lemma bindM_Err: "m w = (Err e, w') \<Longrightarrow> bindM m f w = (Err e, w')"
  by (simp add: bindM_def)

lemma bindM_Abort: "m w = (Abort x, w') \<Longrightarrow> bindM m f w = (Abort x, w')"
  by (simp add: bindM_def)

lemma bindM_eq_Ok:
  "bindM m f w = (Ok b, w'') \<longleftrightarrow> (\<exists>a w'. m w = (Ok a, w') \<and> f a w' = (Ok b, w''))"
  by (auto simp: bindM_def split: prod.splits res.splits)

lemma thenM_eq_Ok:
  "thenM m k w = (Ok b, w'') \<longleftrightarrow> (\<exists>a w'. m w = (Ok a, w') \<and> k w' = (Ok b, w''))"
  by (simp add: thenM_def bindM_eq_Ok)

lemma mapErrM_eq_Ok [simp]: "mapErrM f m w = (Ok a, w') \<longleftrightarrow> m w = (Ok a, w')"
  by (auto simp: mapErrM_def split: prod.splits res.splits)

lemma attemptM_Inl: "attemptM m w = (Ok (Inl e), w') \<longleftrightarrow> m w = (Err e, w')"
  by (auto simp: attemptM_def split: prod.splits res.splits)

lemma attemptM_Inr: "attemptM m w = (Ok (Inr a), w') \<longleftrightarrow> m w = (Ok a, w')"
  by (auto simp: attemptM_def split: prod.splits res.splits)

lemma fst_bindM_Ok:
  "fst (bindM m f w) = Ok b \<longleftrightarrow> (\<exists>a w'. m w = (Ok a, w') \<and> fst (f a w') = Ok b)"
  by (auto simp: bindM_def split: prod.splits res.splits)

section \<open>Which calls an action makes\<close>

text \<open>The calls an action adds to the record, executable on a concrete world.\<close>

definition new_calls :: "'a io \<Rightarrow> world \<Rightarrow> call list" where
  "new_calls m w = drop (length (calls w)) (calls (snd (m w)))"

text \<open>Every action of the program only appends calls and leaves the environment as it is;
  \<open>emits P m\<close> says so and that each appended call satisfies \<open>P\<close>.\<close>

definition emits :: "(call \<Rightarrow> bool) \<Rightarrow> 'a io \<Rightarrow> bool" where
  "emits P m \<longleftrightarrow>
     (\<forall>w. env (snd (m w)) = env w \<and> (\<exists>tr. calls (snd (m w)) = calls w @ tr \<and> list_all P tr))"

lemma emitsI:
  assumes "\<And>w. env (snd (m w)) = env w"
    and "\<And>w. \<exists>tr. calls (snd (m w)) = calls w @ tr \<and> list_all P tr"
  shows "emits P m"
  using assms by (simp add: emits_def)

lemma emitsD: "emits P m \<Longrightarrow> list_all P (new_calls m w)"
  by (auto simp: emits_def new_calls_def dest: spec [of _ w])

lemma emits_calls: "emits P m \<Longrightarrow> calls (snd (m w)) = calls w @ new_calls m w"
  by (auto simp: emits_def new_calls_def dest: spec [of _ w])

lemma emits_env: "emits P m \<Longrightarrow> env (snd (m w)) = env w"
  by (simp add: emits_def)

lemma emits_mono: "emits P m \<Longrightarrow> (\<And>c. P c \<Longrightarrow> Q c) \<Longrightarrow> emits Q m"
  by (fastforce simp: emits_def list_all_iff)

lemma emits_step:
  assumes "env w' = env w" and "calls w' = calls w @ tr" and "list_all P tr"
    and "env w'' = env w' \<and> (\<exists>tr. calls w'' = calls w' @ tr \<and> list_all P tr)"
  shows "env w'' = env w \<and> (\<exists>tr. calls w'' = calls w @ tr \<and> list_all P tr)"
  using assms by auto

lemma emits_returnM [emits_intros]: "emits P (returnM a)"
  by (simp add: emits_def returnM_def)

lemma emits_throwM [emits_intros]: "emits P (throwM e)"
  by (simp add: emits_def throwM_def)

lemma emits_abortM [emits_intros]: "emits P (abortM x)"
  by (simp add: emits_def abortM_def)

lemma emits_liftM [emits_intros]: "emits P (liftM r)"
  by (simp add: emits_def liftM_def)

lemma emits_bindM_result:
  assumes "emits P m" and "\<And>w a w'. m w = (Ok a, w') \<Longrightarrow> emits P (f a)"
  shows "emits P (bindM m f)"
  unfolding emits_def
proof
  fix w
  obtain r w' where m: "m w = (r, w')" by (cases "m w")
  from assms(1) m obtain tr where w': "env w' = env w" "calls w' = calls w @ tr" "list_all P tr"
    by (auto simp: emits_def dest: spec [of _ w])
  show "env (snd (bindM m f w)) = env w \<and>
    (\<exists>tr. calls (snd (bindM m f w)) = calls w @ tr \<and> list_all P tr)"
  proof (cases r)
    case (Ok a)
    have "env (snd (f a w')) = env w' \<and> (\<exists>tr. calls (snd (f a w')) = calls w' @ tr \<and> list_all P tr)"
      using assms(2) [OF m [unfolded Ok]] by (simp add: emits_def)
    with w' m Ok show ?thesis by (auto simp: bindM_def)
  qed (use m w' in \<open>auto simp: bindM_def\<close>)
qed

lemma emits_bindM [emits_intros]: "emits P m \<Longrightarrow> (\<And>a. emits P (f a)) \<Longrightarrow> emits P (bindM m f)"
  by (rule emits_bindM_result)

lemma emits_thenM [emits_intros]: "emits P m \<Longrightarrow> emits P k \<Longrightarrow> emits P (thenM m k)"
  by (simp add: thenM_def emits_bindM)

lemma snd_attemptM [simp]: "snd (attemptM m w) = snd (m w)"
  by (auto simp: attemptM_def split: prod.splits res.splits)

lemma snd_mapErrM [simp]: "snd (mapErrM f m w) = snd (m w)"
  by (auto simp: mapErrM_def split: prod.splits res.splits)

lemma snd_ignoreM [simp]: "snd (ignoreM m w) = snd (m w)"
  by (auto simp: ignoreM_def split: prod.splits res.splits)

lemma emits_attemptM [emits_intros]: "emits P m \<Longrightarrow> emits P (attemptM m)"
  by (simp add: emits_def)

lemma emits_mapErrM [emits_intros]: "emits P m \<Longrightarrow> emits P (mapErrM f m)"
  by (simp add: emits_def)

lemma emits_ignoreM [emits_intros]: "emits P m \<Longrightarrow> emits P (ignoreM m)"
  by (simp add: emits_def)

lemma emits_deferM [emits_intros]:
  assumes "emits P m" and "emits P d"
  shows "emits P (deferM m d)"
  unfolding emits_def
proof
  fix w
  obtain r w' where m: "m w = (r, w')" by (cases "m w")
  obtain r' w'' where d: "d w' = (r', w'')" by (cases "d w'")
  from assms(1) m obtain tr where w': "env w' = env w" "calls w' = calls w @ tr" "list_all P tr"
    by (auto simp: emits_def dest: spec [of _ w])
  from assms(2) d have "env w'' = env w' \<and> (\<exists>tr. calls w'' = calls w' @ tr \<and> list_all P tr)"
    by (auto simp: emits_def dest: spec [of _ w'])
  with w' m d show "env (snd (deferM m d w)) = env w \<and>
    (\<exists>tr. calls (snd (deferM m d w)) = calls w @ tr \<and> list_all P tr)"
    by (auto simp: deferM_def)
qed

lemma emits_forM [emits_intros]: "(\<And>x. x \<in> set xs \<Longrightarrow> emits P (f x)) \<Longrightarrow> emits P (forM xs f)"
  by (induction xs) (auto intro: emits_intros)

lemma emits_sys [emits_intros]:
  "P c \<Longrightarrow> emits P (sys_err c)" "P c \<Longrightarrow> emits P (sys_stat c)" "P c \<Longrightarrow> emits P (sys_fd c)"
  "P c \<Longrightarrow> emits P (sys_text c)" "P c \<Longrightarrow> emits P (sys_texts c)" "P c \<Longrightarrow> emits P (sys_bool c)"
  "P c \<Longrightarrow> emits P (sys_user c)" "P c \<Longrightarrow> emits P (sys_cmd c)" "P c \<Longrightarrow> emits P (sys_out c)"
  "P c \<Longrightarrow> emits P (sys_event c)" "P c \<Longrightarrow> emits P (sys_scan c)" "P c \<Longrightarrow> emits P (sys_str c)"
  "P c \<Longrightarrow> emits P (sys_flag c)" "P c \<Longrightarrow> emits P (sys_do c)"
  by (simp_all add: emits_def sys_defs)

lemma emits_run_cmd [emits_intros]: "P (RunCmd c) \<Longrightarrow> emits P (run_cmd c)"
  by (simp add: run_cmd_def emits_intros)

lemma emits_if [emits_intros]: "(b \<Longrightarrow> emits P m) \<Longrightarrow> (\<not> b \<Longrightarrow> emits P k) \<Longrightarrow> emits P (if b then m else k)"
  by simp

lemma emits_option [emits_intros]:
  "(x = None \<Longrightarrow> emits P m) \<Longrightarrow> (\<And>a. x = Some a \<Longrightarrow> emits P (f a)) \<Longrightarrow>
    emits P (case x of None \<Rightarrow> m | Some a \<Rightarrow> f a)"
  by (cases x) auto

lemma emits_sum [emits_intros]:
  "(\<And>a. x = Inl a \<Longrightarrow> emits P (f a)) \<Longrightarrow> (\<And>a. x = Inr a \<Longrightarrow> emits P (g a)) \<Longrightarrow>
    emits P (case x of Inl a \<Rightarrow> f a | Inr a \<Rightarrow> g a)"
  by (cases x) auto

lemma emits_prod [emits_intros]:
  "(\<And>a b. x = (a, b) \<Longrightarrow> emits P (f a b)) \<Longrightarrow> emits P (case x of (a, b) \<Rightarrow> f a b)"
  by (cases x) auto

lemma new_calls_append:
  assumes "emits P m" and "m w = (Ok a, w')" and "\<And>a. emits Q (f a)"
  shows "new_calls (bindM m f) w = new_calls m w @ new_calls (f a) w'"
proof -
  have 1: "calls w' = calls w @ new_calls m w"
    using emits_calls [OF assms(1), of w] assms(2) by simp
  have 2: "calls (snd (f a w')) = calls w' @ new_calls (f a) w'"
    by (rule emits_calls [OF assms(3)])
  from 1 2 have "calls (snd (f a w')) = calls w @ (new_calls m w @ new_calls (f a) w')"
    by simp
  then have "drop (length (calls w)) (calls (snd (f a w'))) = new_calls m w @ new_calls (f a) w'"
    by simp
  then show ?thesis
    using assms(2) by (simp add: new_calls_def [of "bindM m f"] bindM_def)
qed

section \<open>The calls of a successful run\<close>

text \<open>Every successful run of the action makes exactly these calls.\<close>

definition succeeds_with :: "'a io \<Rightarrow> call list \<Rightarrow> bool" where
  "succeeds_with m tr \<longleftrightarrow> (\<forall>w a w'. m w = (Ok a, w') \<longrightarrow> calls w' = calls w @ tr)"

lemma succeeds_withD: "succeeds_with m tr \<Longrightarrow> m w = (Ok a, w') \<Longrightarrow> calls w' = calls w @ tr"
  by (simp add: succeeds_with_def)

lemma succeeds_with_returnM: "succeeds_with (returnM a) []"
  by (simp add: succeeds_with_def returnM_def)

lemma succeeds_with_sys_err: "succeeds_with (sys_err c) [c]"
  by (auto simp: succeeds_with_def sys_err_def)

lemma succeeds_with_thenM:
  "succeeds_with m tr \<Longrightarrow> succeeds_with k tr' \<Longrightarrow> succeeds_with (thenM m k) (tr @ tr')"
  unfolding succeeds_with_def thenM_def bindM_eq_Ok by fastforce

lemma succeeds_with_forM:
  "(\<And>x. x \<in> set xs \<Longrightarrow> succeeds_with (f x) (tr x)) \<Longrightarrow> succeeds_with (forM xs f) (concat (map tr xs))"
  by (induction xs) (simp_all add: succeeds_with_returnM succeeds_with_thenM)

text \<open>An environment in which every call succeeds, for evaluating the program on concrete inputs:
  files exist as directories with mode 0700, descriptors are numbered by the calls made.\<close>

definition calm_env :: environment where
  "calm_env =
     \<lparr>r_err = (\<lambda>h c. None),
      r_stat = (\<lambda>h c. Inr \<lparr>fi_Mode = 2147484096\<rparr>),
      r_fd = (\<lambda>h c. Inr (length h)),
      r_text = (\<lambda>h c. Inr []),
      r_texts = (\<lambda>h c. Inr []),
      r_bool = (\<lambda>h c. Inr False),
      r_user = (\<lambda>h c. Inr \<lparr>u_Uid = ''1000'', u_Gid = ''1000'', u_Username = ''vcap''\<rparr>),
      r_cmd = (\<lambda>h c. CmdOk),
      r_out = (\<lambda>h c. []),
      r_event = (\<lambda>h c. TimedOut),
      r_scan = (\<lambda>h c. ([], None))\<rparr>"

definition calm_world :: world where
  "calm_world = \<lparr>calls = [], env = calm_env\<rparr>"

end
