(* ===== verification/JobId.thy ===== *)
theory JobId
  imports World
begin

text \<open>
  Package \<open>jobid\<close> (\<open>src/bpm/jobid/encoding.go\<close>): container identifiers. \<open>Encode\<close> escapes every
  byte outside letters, digits, \<open>_\<close> and \<open>-\<close> as a dot and two hexadecimal digits; \<open>Decode\<close>
  reverses it. The round trip is stated through the interface \<open>name_codec\<close>, whose laws give
  injectivity to the clients (container identifiers, lock names).
\<close>

section \<open>The code\<close>

definition alphanumeric :: string where
  "alphanumeric = ''abcdefghijklmnopqrstuvwxyzABCDEFGHIJKLMNOPQRSTUVWXYZ0123456789''"

definition symbols :: string where
  "symbols = ''_-''"

definition combined :: string where
  "combined = alphanumeric @ symbols"

definition isAlphaNumSym :: "char \<Rightarrow> bool" where
  "isAlphaNumSym b = list_ex (\<lambda>c. c = b) combined"

definition needsEscaping :: "char \<Rightarrow> bool" where
  "needsEscaping b = (\<not> isAlphaNumSym b)"

text \<open>The verb \<open>%.2x\<close> on a byte: two lower-case hexadecimal digits.\<close>

definition hex_digit :: "nat \<Rightarrow> char" where
  "hex_digit n = (if n < 10 then char_of (48 + n) else char_of (87 + n))"

definition hex2 :: "char \<Rightarrow> string" where
  "hex2 c = [hex_digit (of_char c div 16), hex_digit (of_char c mod 16)]"

definition encode_chr :: "char \<Rightarrow> string" where
  "encode_chr chr = (if needsEscaping chr then ''.'' @ hex2 chr else [chr])"

definition Encode :: "string \<Rightarrow> string" where
  "Encode name = ''bpm-'' @ concat (map encode_chr name)"

text \<open>\<open>hex.DecodeString\<close> on two bytes.\<close>

definition hex_val :: "char \<Rightarrow> nat option" where
  "hex_val c =
     (let v = of_char c in
      if 48 \<le> v \<and> v \<le> 57 then Some (v - 48)
      else if 97 \<le> v \<and> v \<le> 102 then Some (v - 87)
      else if 65 \<le> v \<and> v \<le> 70 then Some (v - 55)
      else None)"

definition hex_DecodeString2 :: "char \<Rightarrow> char \<Rightarrow> char option" where
  "hex_DecodeString2 a b =
     (case (hex_val a, hex_val b) of
        (Some x, Some y) \<Rightarrow> Some (char_of (16 * x + y))
      | _ \<Rightarrow> None)"

text \<open>
  The loop of \<open>Decode\<close> at index \<open>i\<close>, on the rest \<open>id[i:]\<close>. The guard \<open>i+2 > len(id)\<close> lets an
  escape with a single byte after the dot pass; the slice \<open>id[i+1:i+3]\<close> then runs past the end of
  the string and panics. An escape that is not hexadecimal is dropped.
\<close>

fun decode_loop :: "string \<Rightarrow> string \<Rightarrow> string res" where
  "decode_loop full [] = Ok []"
| "decode_loop full (chr # rest) =
     (if chr = CHR ''.'' then
        (if length (chr # rest) < 2
         then Err (Errorf ''invalid job ID (incomplete escape sequence): %q'' [AStr full])
         else (case rest of
                 a # b # rest' \<Rightarrow>
                   bind_res (decode_loop full rest')
                     (\<lambda>name. Ok (case hex_DecodeString2 a b of None \<Rightarrow> name | Some c \<Rightarrow> c # name))
               | _ \<Rightarrow> Abort (Panic ''slice bounds out of range'')))
      else bind_res (decode_loop full rest) (\<lambda>name. Ok (chr # name)))"

definition Decode :: "string \<Rightarrow> string res" where
  "Decode ident =
     (if strings_HasPrefix ident ''bpm-''
      then decode_loop (drop 4 ident) (drop 4 ident)
      else Err (Errorf ''invalid job ID (missing prefix): %q'' [AStr ident]))"

section \<open>The interface of a name codec\<close>

locale name_codec =
  fixes enc :: "'a \<Rightarrow> 'b" and dec :: "'b \<Rightarrow> 'a res"
  assumes dec_enc: "dec (enc x) = Ok x"
begin

lemma enc_inject: "enc x = enc y \<Longrightarrow> x = y"
  by (metis dec_enc res.inject(1))

lemma enc_eq_iff: "enc x = enc y \<longleftrightarrow> x = y"
  using enc_inject by blast

lemma dec_enc_no_abort: "dec (enc x) \<noteq> Abort a"
  by (simp add: dec_enc)

end

section \<open>Round trip\<close>

lemma isAlphaNumSym_iff: "isAlphaNumSym b \<longleftrightarrow> b \<in> set combined"
  by (auto simp: isAlphaNumSym_def list_ex_iff)

lemma dot_needsEscaping: "needsEscaping CHR ''.''"
  by (simp add: needsEscaping_def isAlphaNumSym_def combined_def alphanumeric_def symbols_def)

lemma of_char_bound: "(of_char c :: nat) < 256"
  by (metis nat_of_char_less_256)

lemma hex_val_digit: "n < 16 \<Longrightarrow> hex_val (hex_digit n) = Some n"
  by (auto simp: hex_val_def hex_digit_def Let_def)

lemma hex_DecodeString2_hex2: "hex2 c = [a, b] \<Longrightarrow> hex_DecodeString2 a b = Some c"
proof -
  assume ab: "hex2 c = [a, b]"
  have "(of_char c :: nat) div 16 < 16"
    using of_char_bound [of c] by (simp add: div_less_iff_less_mult)
  moreover have "(of_char c :: nat) mod 16 < 16" by simp
  ultimately have "hex_DecodeString2 a b = Some (char_of (16 * (of_char c div 16) + of_char c mod 16 :: nat))"
    using ab by (auto simp: hex2_def hex_DecodeString2_def hex_val_digit)
  then show ?thesis by simp
qed

lemma decode_loop_encode_chr:
  "decode_loop full (encode_chr c @ rest) = bind_res (decode_loop full rest) (\<lambda>name. Ok (c # name))"
proof (cases "needsEscaping c")
  case True
  obtain a b where ab: "hex2 c = [a, b]" by (simp add: hex2_def)
  then show ?thesis
    using True by (simp add: encode_chr_def hex_DecodeString2_hex2)
next
  case False
  then have "c \<noteq> CHR ''.''" using dot_needsEscaping by auto
  with False show ?thesis by (simp add: encode_chr_def)
qed

lemma decode_loop_encode: "decode_loop full (concat (map encode_chr name)) = Ok name"
  by (induction name) (simp_all add: decode_loop_encode_chr)

lemma Decode_Encode: "Decode (Encode name) = Ok name"
  by (simp add: Decode_def Encode_def strings_HasPrefix_def decode_loop_encode)

interpretation jobid: name_codec Encode Decode
  by unfold_locales (rule Decode_Encode)

text \<open>C18: \<open>Decode\<close> undoes \<open>Encode\<close> on every byte string, so no two names share an identifier, and
  \<open>Decode\<close> neither fails nor panics on an identifier that \<open>Encode\<close> made.\<close>

theorem encode_roundtrip: "Decode (Encode name) = Ok name \<and> (Encode name = Encode name' \<longleftrightarrow> name = name')"
  by (simp add: jobid.dec_enc jobid.enc_eq_iff)

section \<open>The characters of an identifier\<close>

text \<open>The characters that runc accepts in the name of a container, by its own documented expression
  \<open>^[\w+-.]+$\<close> (which \<open>src/bpm/jobid/encoding_test.go\<close> repeats): letters, digits, the underscore, and
  the four characters from \<open>+\<close> to \<open>.\<close> in the ASCII table.\<close>

definition runc_id_char :: "char \<Rightarrow> bool" where
  "runc_id_char c \<longleftrightarrow>
     (let n = of_char c :: nat in
      48 \<le> n \<and> n \<le> 57 \<or> 65 \<le> n \<and> n \<le> 90 \<or> 97 \<le> n \<and> n \<le> 122 \<or> n = 95 \<or> 43 \<le> n \<and> n \<le> 46)"

lemma combined_runc: "list_all runc_id_char combined"
  by (simp add: combined_def alphanumeric_def symbols_def runc_id_char_def)

lemma isAlphaNumSym_runc: "isAlphaNumSym c \<Longrightarrow> runc_id_char c"
  using combined_runc by (auto simp: isAlphaNumSym_iff list_all_iff)

lemma hex_digits_runc: "list_all (\<lambda>n. runc_id_char (hex_digit n)) [0..<16]"
  by (simp add: upt_rec hex_digit_def runc_id_char_def)

lemma hex_digit_runc: "n < 16 \<Longrightarrow> runc_id_char (hex_digit n)"
  using hex_digits_runc by (simp add: list_all_iff)

lemma encode_chr_runc: "list_all runc_id_char (encode_chr c)"
proof (cases "needsEscaping c")
  case True
  have "(of_char c :: nat) div 16 < 16"
    using of_char_bound [of c] by (simp add: div_less_iff_less_mult)
  then have "list_all runc_id_char (hex2 c)" by (simp add: hex2_def hex_digit_runc)
  with True show ?thesis by (simp add: encode_chr_def runc_id_char_def)
next
  case False
  then show ?thesis by (simp add: encode_chr_def needsEscaping_def isAlphaNumSym_runc)
qed

lemma slash_not_runc: "\<not> runc_id_char CHR ''/''"
  by (simp add: runc_id_char_def)

lemma Encode_chars: "list_all runc_id_char (Encode name)"
proof -
  have "list_all runc_id_char (concat (map encode_chr name))"
    using encode_chr_runc by (induction name) auto
  moreover have "list_all runc_id_char ''bpm-''"
    by (simp add: runc_id_char_def)
  ultimately show ?thesis by (simp add: Encode_def)
qed

lemma Encode_proper_elem [simp]: "proper_elem (Encode name)"
  using Encode_chars [of name] slash_not_runc
  by (auto simp: proper_elem_def list_all_iff) (auto simp: Encode_def)

text \<open>C38: whatever bytes a name has, its identifier is one that runc accepts as the name of a
  container (it is not empty and matches the expression above), and it is a single proper path
  element: it has no separator and is neither \<open>.\<close> nor \<open>..\<close>, so a path built from it stays in its
  directory.\<close>

theorem encode_safe: "Encode name \<noteq> [] \<and> list_all runc_id_char (Encode name) \<and> proper_elem (Encode name)"
  by (simp add: Encode_chars) (simp add: Encode_def)

section \<open>Malformed identifiers\<close>

lemma decode_loop_plain:
  "CHR ''.'' \<notin> set s \<Longrightarrow> decode_loop full (s @ t) = bind_res (decode_loop full t) (\<lambda>n. Ok (s @ n))"
proof (induction s)
  case Nil
  then show ?case by (cases "decode_loop full t") auto
next
  case (Cons c s)
  then show ?case by (cases "decode_loop full t") auto
qed

text \<open>On an identifier that ends in a dot and one more byte, the bounds check of \<open>Decode\<close> is
  passed and the slice panics, while with nothing after the dot the intended error is returned.\<close>

lemma decode_truncated_escape:
  assumes "CHR ''.'' \<notin> set s"
  shows "Decode (''bpm-'' @ s @ ''.'' @ [c]) = Abort (Panic ''slice bounds out of range'') \<and>
    is_err (Decode (''bpm-'' @ s @ ''.''))"
  using assms by (simp add: Decode_def strings_HasPrefix_def decode_loop_plain)

end
