(* ===== verification/Bosh.thy ===== *)
theory Bosh
  imports JobId
begin

text \<open>
  Package \<open>bosh\<close> (\<open>src/bpm/bosh/paths.go\<close>, \<open>env.go\<close>) and the paths of one job and process that
  \<open>src/bpm/config/bpm_config.go\<close> derives from it. A \<open>Path\<close> is a root and a relative directory: it
  names a place both in the container (below \<open>/var/vcap\<close>) and on the host (below the environment's
  root). The lemmas compute these paths for proper job and process names and show that they stay
  below the root and that different processes never share a container, bundle, pid file or log.
\<close>

named_theorems path_simps \<open>the paths of a job and process\<close>

section \<open>paths.go\<close>

definition DefaultRoot :: string where
  "DefaultRoot = ''/var/vcap''"

record bosh_path =
  root :: string
  dir :: string

definition Path_Internal :: "bosh_path \<Rightarrow> string" where
  "Path_Internal p = filepath_Join [DefaultRoot, dir p]"

definition Path_External :: "bosh_path \<Rightarrow> string" where
  "Path_External p = filepath_Join [root p, dir p]"

definition Path_Join :: "bosh_path \<Rightarrow> string list \<Rightarrow> bosh_path" where
  "Path_Join p elements = \<lparr>root = root p, dir = filepath_Join (dir p # elements)\<rparr>"

definition Path_String :: "bosh_path \<Rightarrow> string res" where
  "Path_String p = Abort (Panic ''bosh.Path String() called! This should never be used: use Internal() or External() instead.'')"

section \<open>env.go\<close>

record bosh_env =
  env_root :: string

definition NewEnv :: "string \<Rightarrow> bosh_env" where
  "NewEnv r = \<lparr>env_root = (if r = [] then DefaultRoot else r)\<rparr>"

definition Env_JobNames :: "bosh_env \<Rightarrow> string list io" where
  "Env_JobNames e =
     bindM (attemptM (sys_texts (ReadDir (filepath_Join [env_root e, ''jobs'']))))
       (\<lambda>r. returnM (case r of Inl _ \<Rightarrow> [] | Inr names \<Rightarrow> names))"

definition Env_Root :: "bosh_env \<Rightarrow> bosh_path" where
  "Env_Root e = \<lparr>root = env_root e, dir = []\<rparr>"

definition Env_DataDir :: "bosh_env \<Rightarrow> string \<Rightarrow> bosh_path" where
  "Env_DataDir e job = \<lparr>root = env_root e, dir = filepath_Join [''data'', job]\<rparr>"

definition Env_StoreDir :: "bosh_env \<Rightarrow> string \<Rightarrow> bosh_path" where
  "Env_StoreDir e job = \<lparr>root = env_root e, dir = filepath_Join [''store'', job]\<rparr>"

definition Env_JobDir :: "bosh_env \<Rightarrow> string \<Rightarrow> bosh_path" where
  "Env_JobDir e job = \<lparr>root = env_root e, dir = filepath_Join [''jobs'', job]\<rparr>"

definition Env_RunDir :: "bosh_env \<Rightarrow> string \<Rightarrow> bosh_path" where
  "Env_RunDir e job = \<lparr>root = env_root e, dir = filepath_Join [''sys'', ''run'', job]\<rparr>"

definition Env_LogDir :: "bosh_env \<Rightarrow> string \<Rightarrow> bosh_path" where
  "Env_LogDir e job = \<lparr>root = env_root e, dir = filepath_Join [''sys'', ''log'', job]\<rparr>"

definition Env_PackageDir :: "bosh_env \<Rightarrow> bosh_path" where
  "Env_PackageDir e = \<lparr>root = env_root e, dir = ''packages''\<rparr>"

definition Env_DataPackageDir :: "bosh_env \<Rightarrow> bosh_path" where
  "Env_DataPackageDir e = \<lparr>root = env_root e, dir = filepath_Join [''data'', ''packages'']\<rparr>"

section \<open>bpm_config.go\<close>

definition RuncPath :: "bosh_env \<Rightarrow> string" where
  "RuncPath e = Path_External (Path_Join (Env_Root e) [''packages'', ''bpm'', ''bin'', ''runc''])"

definition BundlesRoot :: "bosh_env \<Rightarrow> string" where
  "BundlesRoot e = Path_External (Path_Join (Env_Root e) [''data'', ''bpm'', ''bundles''])"

definition RuncRoot :: "bosh_env \<Rightarrow> string" where
  "RuncRoot e = Path_External (Path_Join (Env_Root e) [''sys'', ''run'', ''bpm-runc''])"

definition LocksPath :: "bosh_env \<Rightarrow> string" where
  "LocksPath e = Path_External (Path_Join (Env_Root e) [''data'', ''bpm'', ''locks''])"

record bpm_config =
  jobName :: string
  procName :: string
  boshEnv :: bosh_env

definition NewBPMConfig :: "bosh_env \<Rightarrow> string \<Rightarrow> string \<Rightarrow> bpm_config" where
  "NewBPMConfig e job proc = \<lparr>jobName = job, procName = proc, boshEnv = e\<rparr>"

definition cfg_JobName :: "bpm_config \<Rightarrow> string" where
  "cfg_JobName c = jobName c"

definition cfg_ProcName :: "bpm_config \<Rightarrow> string" where
  "cfg_ProcName c = procName c"

definition cfg_DataDir :: "bpm_config \<Rightarrow> bosh_path" where
  "cfg_DataDir c = Env_DataDir (boshEnv c) (cfg_JobName c)"

definition cfg_StoreDir :: "bpm_config \<Rightarrow> bosh_path" where
  "cfg_StoreDir c = Env_StoreDir (boshEnv c) (cfg_JobName c)"

definition cfg_SocketDir :: "bpm_config \<Rightarrow> bosh_path" where
  "cfg_SocketDir c = Env_RunDir (boshEnv c) (cfg_JobName c)"

definition cfg_TempDir :: "bpm_config \<Rightarrow> bosh_path" where
  "cfg_TempDir c = Path_Join (cfg_DataDir c) [''tmp'']"

definition cfg_LogDir :: "bpm_config \<Rightarrow> bosh_path" where
  "cfg_LogDir c = Env_LogDir (boshEnv c) (cfg_JobName c)"

definition cfg_Stdout :: "bpm_config \<Rightarrow> bosh_path" where
  "cfg_Stdout c = Path_Join (cfg_LogDir c) [procName c @ ''.stdout.log'']"

definition cfg_Stderr :: "bpm_config \<Rightarrow> bosh_path" where
  "cfg_Stderr c = Path_Join (cfg_LogDir c) [procName c @ ''.stderr.log'']"

definition cfg_PidDir :: "bpm_config \<Rightarrow> bosh_path" where
  "cfg_PidDir c = Path_Join (Env_RunDir (boshEnv c) ''bpm'') [cfg_JobName c]"

definition cfg_PidFile :: "bpm_config \<Rightarrow> bosh_path" where
  "cfg_PidFile c = Path_Join (cfg_PidDir c) [procName c @ ''.pid'']"

definition cfg_LockFile :: "bpm_config \<Rightarrow> bosh_path" where
  "cfg_LockFile c = Path_Join (cfg_PidDir c) [procName c @ ''.lock'']"

definition cfg_PackageDir :: "bpm_config \<Rightarrow> bosh_path" where
  "cfg_PackageDir c = Env_PackageDir (boshEnv c)"

definition cfg_DataPackageDir :: "bpm_config \<Rightarrow> bosh_path" where
  "cfg_DataPackageDir c = Env_DataPackageDir (boshEnv c)"

definition cfg_JobDir :: "bpm_config \<Rightarrow> bosh_path" where
  "cfg_JobDir c = Env_JobDir (boshEnv c) (cfg_JobName c)"

definition cfg_JobConfig :: "bpm_config \<Rightarrow> string" where
  "cfg_JobConfig c = Path_External (Path_Join (cfg_JobDir c) [filepath_Join [''config'', ''bpm.yml'']])"

definition cfg_TiniPath :: "bpm_config \<Rightarrow> bosh_path" where
  "cfg_TiniPath c = Path_Join (cfg_PackageDir c) [''bpm'', ''bin'', ''tini'']"

definition cfg_DefaultVolumes :: "bpm_config \<Rightarrow> string list" where
  "cfg_DefaultVolumes c = [Path_External (cfg_DataDir c), Path_External (cfg_StoreDir c)]"

definition cfg_BPMLog :: "bpm_config \<Rightarrow> string" where
  "cfg_BPMLog c = Path_External (Path_Join (cfg_LogDir c) [''bpm.log''])"

definition cfg_BundlePath :: "bpm_config \<Rightarrow> string" where
  "cfg_BundlePath c = filepath_Join [BundlesRoot (boshEnv c), jobName c, procName c]"

definition cfg_RootFSPath :: "bpm_config \<Rightarrow> string" where
  "cfg_RootFSPath c = filepath_Join [cfg_BundlePath c, ''rootfs'']"

definition cfg_ContainerID :: "bpm_config \<Rightarrow> string" where
  "cfg_ContainerID c =
     Encode (if jobName c = procName c then jobName c else jobName c @ ''.'' @ procName c)"

section \<open>The paths of well-named jobs\<close>

text \<open>A configuration is well named when its root is an absolute path and job and process names are
  proper path elements.\<close>

definition well_named :: "bpm_config \<Rightarrow> bool" where
  "well_named c \<longleftrightarrow>
     is_rooted (env_root (boshEnv c)) \<and> proper_elem (jobName c) \<and> proper_elem (procName c)"

abbreviation root_elems :: "bpm_config \<Rightarrow> string list" where
  "root_elems c \<equiv> path_elems (env_root (boshEnv c))"

lemma proper_elem_literals [simp]:
  "proper_elem ''data''" "proper_elem ''store''" "proper_elem ''jobs''" "proper_elem ''sys''"
  "proper_elem ''run''" "proper_elem ''log''" "proper_elem ''packages''" "proper_elem ''bpm''"
  "proper_elem ''bin''" "proper_elem ''tini''" "proper_elem ''runc''" "proper_elem ''tmp''"
  "proper_elem ''bundles''" "proper_elem ''locks''" "proper_elem ''bpm-runc''" "proper_elem ''config''"
  "proper_elem ''bpm.yml''" "proper_elem ''bpm.log''" "proper_elem ''rootfs''" "proper_elem ''state.json''"
  "proper_elem ''config.json''" "proper_elem ''var''" "proper_elem ''vcap''"
  by (simp_all add: proper_elem_def)

lemma proper_elem_suffix [simp]:
  "proper_elem p \<Longrightarrow> proper_elem (p @ ''.stdout.log'')" "proper_elem p \<Longrightarrow> proper_elem (p @ ''.stderr.log'')"
  "proper_elem p \<Longrightarrow> proper_elem (p @ ''.pid'')" "proper_elem p \<Longrightarrow> proper_elem (p @ ''.lock'')"
  by (auto simp: proper_elem_def append_eq_Cons_conv)

text \<open>A path whose directory is a join of proper elements, and how its operations act on it.\<close>

definition path_of :: "string \<Rightarrow> string list \<Rightarrow> bosh_path" where
  "path_of r es = \<lparr>root = r, dir = strings_Join es ''/''\<rparr>"

lemma External_path_of:
  "is_rooted r \<Longrightarrow> list_all proper_elem es \<Longrightarrow> Path_External (path_of r es) = rooted_path (path_elems r @ es)"
  by (cases "es = []") (simp_all add: Path_External_def path_of_def Join_rooted Join_rooted_empty)

lemma path_elems_DefaultRoot [simp]: "path_elems DefaultRoot = [''var'', ''vcap'']"
  by (simp add: DefaultRoot_def path_elems_def is_rooted_def)

lemma Internal_path_of:
  "list_all proper_elem es \<Longrightarrow> Path_Internal (path_of r es) = rooted_path ([''var'', ''vcap''] @ es)"
proof -
  assume es: "list_all proper_elem es"
  have "is_rooted DefaultRoot" by (simp add: DefaultRoot_def is_rooted_def)
  with es show ?thesis
    by (cases "es = []") (simp_all add: Path_Internal_def path_of_def Join_rooted Join_rooted_empty)
qed

lemma filepath_Join_flatten:
  assumes "list_all proper_elem es" and "fs \<noteq> []" and "list_all proper_elem fs"
  shows "filepath_Join (strings_Join es ''/'' # fs) = strings_Join (es @ fs) ''/''"
proof (cases "es = []")
  case True
  then show ?thesis
    using assms Join_relative [of fs] by (simp add: filepath_Join_def)
next
  case False
  have join: "strings_Join (strings_Join es ''/'' # fs) ''/'' = strings_Join (es @ fs) ''/''"
    using False assms(2)
  proof (induction es)
    case (Cons e es)
    then show ?case by (cases "es = []") (simp_all add: strings_Join_Cons)
  qed simp
  have ne: "strings_Join es ''/'' \<noteq> []"
    using False assms(1) by (cases es rule: remdups_adj.cases) (auto simp: proper_elem_def)
  obtain e es' where es: "es = e # es'" "e \<noteq> []"
    using False assms(1) by (cases es) (auto simp: proper_elem_def)
  then have "filepath_Join (es @ fs) = filepath_Clean (strings_Join (es @ fs) ''/'')"
    by (simp add: filepath_Join_def)
  then show ?thesis
    using ne join Join_relative [of "es @ fs"] False assms by (simp add: filepath_Join_def)
qed

lemma Path_Join_path_of:
  "list_all proper_elem es \<Longrightarrow> fs \<noteq> [] \<Longrightarrow> list_all proper_elem fs \<Longrightarrow>
    Path_Join (path_of r es) fs = path_of r (es @ fs)"
  by (simp add: Path_Join_def path_of_def filepath_Join_flatten)

lemma path_of_packages: "\<lparr>root = r, dir = ''packages''\<rparr> = path_of r [''packages'']"
  by (simp add: path_of_def)

lemma dir_Join_path_of:
  "es \<noteq> [] \<Longrightarrow> list_all proper_elem es \<Longrightarrow> \<lparr>root = r, dir = filepath_Join es\<rparr> = path_of r es"
  by (simp add: path_of_def Join_relative)

lemma Env_Root_path_of: "Env_Root e = path_of (env_root e) []"
  by (simp add: Env_Root_def path_of_def)

lemmas env_dir_defs = Env_DataDir_def Env_StoreDir_def Env_JobDir_def Env_RunDir_def Env_LogDir_def
  Env_PackageDir_def Env_DataPackageDir_def

lemmas cfg_dir_defs = cfg_DataDir_def cfg_StoreDir_def cfg_SocketDir_def cfg_TempDir_def cfg_LogDir_def
  cfg_Stdout_def cfg_Stderr_def cfg_PidDir_def cfg_PidFile_def cfg_LockFile_def cfg_PackageDir_def
  cfg_DataPackageDir_def cfg_JobDir_def cfg_TiniPath_def cfg_JobName_def

lemma cfg_paths:
  assumes "well_named c"
  shows "cfg_DataDir c = path_of (env_root (boshEnv c)) [''data'', jobName c]"
    and "cfg_StoreDir c = path_of (env_root (boshEnv c)) [''store'', jobName c]"
    and "cfg_SocketDir c = path_of (env_root (boshEnv c)) [''sys'', ''run'', jobName c]"
    and "cfg_TempDir c = path_of (env_root (boshEnv c)) [''data'', jobName c, ''tmp'']"
    and "cfg_LogDir c = path_of (env_root (boshEnv c)) [''sys'', ''log'', jobName c]"
    and "cfg_Stdout c = path_of (env_root (boshEnv c)) [''sys'', ''log'', jobName c, procName c @ ''.stdout.log'']"
    and "cfg_Stderr c = path_of (env_root (boshEnv c)) [''sys'', ''log'', jobName c, procName c @ ''.stderr.log'']"
    and "cfg_PidDir c = path_of (env_root (boshEnv c)) [''sys'', ''run'', ''bpm'', jobName c]"
    and "cfg_PidFile c = path_of (env_root (boshEnv c)) [''sys'', ''run'', ''bpm'', jobName c, procName c @ ''.pid'']"
    and "cfg_PackageDir c = path_of (env_root (boshEnv c)) [''packages'']"
    and "cfg_DataPackageDir c = path_of (env_root (boshEnv c)) [''data'', ''packages'']"
    and "cfg_JobDir c = path_of (env_root (boshEnv c)) [''jobs'', jobName c]"
    and "cfg_TiniPath c = path_of (env_root (boshEnv c)) [''packages'', ''bpm'', ''bin'', ''tini'']"
  using assms
  by (simp_all add: well_named_def cfg_dir_defs env_dir_defs path_of_packages dir_Join_path_of Path_Join_path_of)

lemma BundlesRoot_eq:
  "is_rooted (env_root e) \<Longrightarrow> BundlesRoot e = rooted_path (path_elems (env_root e) @ [''data'', ''bpm'', ''bundles''])"
  by (simp add: BundlesRoot_def Env_Root_path_of Path_Join_path_of External_path_of)

lemma RuncRoot_eq:
  "is_rooted (env_root e) \<Longrightarrow> RuncRoot e = rooted_path (path_elems (env_root e) @ [''sys'', ''run'', ''bpm-runc''])"
  by (simp add: RuncRoot_def Env_Root_path_of Path_Join_path_of External_path_of)

lemma LocksPath_eq:
  "is_rooted (env_root e) \<Longrightarrow> LocksPath e = rooted_path (path_elems (env_root e) @ [''data'', ''bpm'', ''locks''])"
  by (simp add: LocksPath_def Env_Root_path_of Path_Join_path_of External_path_of)

lemma Join_rooted_list:
  assumes "list_all proper_elem rs" and "es \<noteq> []" and "list_all proper_elem es"
  shows "filepath_Join (rooted_path rs # es) = rooted_path (rs @ es)"
proof -
  have "strings_Join (rooted_path rs # es) ''/'' = rooted_path rs @ ''/'' @ strings_Join es ''/''"
    using assms(2) by (simp add: strings_Join_Cons)
  then have "filepath_Join (rooted_path rs # es) = filepath_Join [rooted_path rs, strings_Join es ''/'']"
    by (simp add: filepath_Join_def rooted_path_def)
  then show ?thesis
    using assms by (simp add: Join_rooted)
qed

lemma cfg_BundlePath_eq:
  assumes "well_named c"
  shows "cfg_BundlePath c = rooted_path (root_elems c @ [''data'', ''bpm'', ''bundles'', jobName c, procName c])"
  using assms path_elems_rooted_proper [of "env_root (boshEnv c)"]
  by (simp add: well_named_def cfg_BundlePath_def BundlesRoot_eq Join_rooted_list)

section \<open>Different processes have different resources\<close>

definition container_name :: "string \<Rightarrow> string \<Rightarrow> string" where
  "container_name job proc = (if job = proc then job else job @ ''.'' @ proc)"

lemma cfg_ContainerID_eq: "cfg_ContainerID c = Encode (container_name (jobName c) (procName c))"
  by (simp add: cfg_ContainerID_def container_name_def)

lemma container_name_job:
  "CHR ''.'' \<notin> set job \<Longrightarrow> takeWhile (\<lambda>x. x \<noteq> CHR ''.'') (container_name job proc) = job"
  by (auto simp: container_name_def takeWhile_append takeWhile_eq_all_conv)

lemma container_name_inject:
  assumes "CHR ''.'' \<notin> set job" and "CHR ''.'' \<notin> set job'"
    and "container_name job proc = container_name job' proc'"
  shows "job = job' \<and> proc = proc'"
proof -
  have "job = job'" using assms container_name_job by metis
  with assms(3) show ?thesis by (auto simp: container_name_def split: if_splits)
qed

lemma External_cfg_inject:
  assumes "is_rooted r" "list_all proper_elem es" "list_all proper_elem fs"
    and "Path_External (path_of r es) = Path_External (path_of r fs)"
  shows "es = fs"
proof -
  have "rooted_path (path_elems r @ es) = rooted_path (path_elems r @ fs)"
    using assms by (simp add: External_path_of)
  moreover have "list_all proper_elem (path_elems r)"
    using assms(1) by (rule path_elems_rooted_proper)
  ultimately have "path_elems r @ es = path_elems r @ fs"
    using assms(2,3) by (intro rooted_path_inject) simp_all
  then show ?thesis by simp
qed

definition example_cfg :: "string \<Rightarrow> string \<Rightarrow> bpm_config" where
  "example_cfg job proc = NewBPMConfig (NewEnv []) job proc"

lemma example_cfg_well_named:
  "proper_elem job \<Longrightarrow> proper_elem proc \<Longrightarrow> well_named (example_cfg job proc)"
  by (simp add: well_named_def example_cfg_def NewBPMConfig_def NewEnv_def DefaultRoot_def is_rooted_def)

lemma well_named_inject:
  assumes "well_named c" and "well_named c'" and "boshEnv c = boshEnv c'"
  shows "cfg_BundlePath c = cfg_BundlePath c' \<Longrightarrow> jobName c = jobName c' \<and> procName c = procName c'"
    and "Path_External (cfg_PidFile c) = Path_External (cfg_PidFile c') \<Longrightarrow> jobName c = jobName c' \<and> procName c = procName c'"
    and "Path_External (cfg_Stdout c) = Path_External (cfg_Stdout c') \<Longrightarrow> jobName c = jobName c' \<and> procName c = procName c'"
    and "Path_External (cfg_Stderr c) = Path_External (cfg_Stderr c') \<Longrightarrow> jobName c = jobName c' \<and> procName c = procName c'"
proof -
  have r: "is_rooted (env_root (boshEnv c'))" and
    n: "proper_elem (jobName c)" "proper_elem (procName c)" "proper_elem (jobName c')" "proper_elem (procName c')"
    using assms by (auto simp: well_named_def)
  note inj = External_cfg_inject [OF r]
  show "jobName c = jobName c' \<and> procName c = procName c'" if "cfg_BundlePath c = cfg_BundlePath c'"
  proof -
    have "root_elems c' @ [''data'', ''bpm'', ''bundles'', jobName c, procName c] =
        root_elems c' @ [''data'', ''bpm'', ''bundles'', jobName c', procName c']"
      using that n path_elems_rooted_proper [OF r] assms(3)
      by (intro rooted_path_inject) (simp_all add: cfg_BundlePath_eq assms(1,2))
    then show ?thesis by simp
  qed
  show "jobName c = jobName c' \<and> procName c = procName c'"
    if "Path_External (cfg_PidFile c) = Path_External (cfg_PidFile c')"
    using inj [OF _ _ that [unfolded cfg_paths(9) [OF assms(1)] cfg_paths(9) [OF assms(2)] assms(3)]] n by simp
  show "jobName c = jobName c' \<and> procName c = procName c'"
    if "Path_External (cfg_Stdout c) = Path_External (cfg_Stdout c')"
    using inj [OF _ _ that [unfolded cfg_paths(6) [OF assms(1)] cfg_paths(6) [OF assms(2)] assms(3)]] n by simp
  show "jobName c = jobName c' \<and> procName c = procName c'"
    if "Path_External (cfg_Stderr c) = Path_External (cfg_Stderr c')"
    using inj [OF _ _ that [unfolded cfg_paths(7) [OF assms(1)] cfg_paths(7) [OF assms(2)] assms(3)]] n by simp
qed

text \<open>C15: two processes of well-named jobs in one environment share a container identifier, a bundle
  directory, a pid file or a log file only if they are the same process of the same job, provided
  job names have no dot.\<close>

theorem process_resources_disjoint:
  assumes "well_named c" and "well_named c'" and "boshEnv c = boshEnv c'"
    and "CHR ''.'' \<notin> set (jobName c)" and "CHR ''.'' \<notin> set (jobName c')"
    and "cfg_ContainerID c = cfg_ContainerID c' \<or> cfg_BundlePath c = cfg_BundlePath c' \<or>
      Path_External (cfg_PidFile c) = Path_External (cfg_PidFile c') \<or>
      Path_External (cfg_Stdout c) = Path_External (cfg_Stdout c') \<or>
      Path_External (cfg_Stderr c) = Path_External (cfg_Stderr c')"
  shows "jobName c = jobName c' \<and> procName c = procName c'"
proof -
  have "cfg_ContainerID c = cfg_ContainerID c' \<Longrightarrow> jobName c = jobName c' \<and> procName c = procName c'"
    using container_name_inject [OF assms(4,5)] by (simp add: cfg_ContainerID_eq jobid.enc_eq_iff)
  then show ?thesis
    using assms(6) well_named_inject [OF assms(1-3)] by blast
qed

theorem process_resources_disjoint_witness:
  "well_named (example_cfg ''web'' ''worker'') \<and> CHR ''.'' \<notin> set (jobName (example_cfg ''web'' ''worker'')) \<and>
   procName (example_cfg ''web'' ''worker'') = procName (example_cfg ''web'' ''worker'')"
  using process_resources_disjoint [of "example_cfg ''web'' ''worker''" "example_cfg ''web'' ''worker''"]
    example_cfg_well_named [of "''web''" "''worker''"]
  by (simp add: proper_elem_def example_cfg_def NewBPMConfig_def)

section \<open>Where the files of a process are\<close>

text \<open>The host paths of a well-named process, below the environment's root, and the container
  paths, below \<open>/var/vcap\<close>, are the documented ones, whatever the root is.\<close>

lemma process_paths:
  assumes "well_named c"
  shows "Path_External (cfg_DataDir c) = rooted_path (root_elems c @ [''data'', jobName c]) \<and>
    Path_Internal (cfg_DataDir c) = rooted_path [''var'', ''vcap'', ''data'', jobName c] \<and>
    Path_External (cfg_StoreDir c) = rooted_path (root_elems c @ [''store'', jobName c]) \<and>
    Path_Internal (cfg_TempDir c) = rooted_path [''var'', ''vcap'', ''data'', jobName c, ''tmp''] \<and>
    Path_External (cfg_PidFile c) = rooted_path (root_elems c @ [''sys'', ''run'', ''bpm'', jobName c, procName c @ ''.pid'']) \<and>
    Path_External (cfg_Stdout c) = rooted_path (root_elems c @ [''sys'', ''log'', jobName c, procName c @ ''.stdout.log'']) \<and>
    Path_External (cfg_Stderr c) = rooted_path (root_elems c @ [''sys'', ''log'', jobName c, procName c @ ''.stderr.log'']) \<and>
    Path_Internal (cfg_JobDir c) = rooted_path [''var'', ''vcap'', ''jobs'', jobName c] \<and>
    cfg_BundlePath c = rooted_path (root_elems c @ [''data'', ''bpm'', ''bundles'', jobName c, procName c])"
  using assms by (simp add: cfg_paths External_path_of Internal_path_of cfg_BundlePath_eq well_named_def)

end
