(* ===== verification/HostLock.thy ===== *)
theory HostLock
  imports Bosh
begin

text \<open>
  Packages \<open>flock\<close> and \<open>hostlock\<close> (\<open>src/bpm/flock/flock.go\<close>, \<open>src/bpm/hostlock/hostlock.go\<close>): advisory
  file locks and the names of the lock files. The last part is a specification: the protocol by which
  any number of bpm processes take the lock of their job and process, as an interleaving of steps, with
  mutual exclusion and progress. \<open>Interleaving\<close> shows that the commands implement it.
\<close>

section \<open>flock.go\<close>

record Flock =
  fl_f :: nat
  fl_locked :: bool

definition perm_0600 :: nat where "perm_0600 = 384"

definition flock_New :: "string \<Rightarrow> Flock io" where
  "flock_New path =
     bindM (sys_fd (OpenFile path [O_CREATE, O_RDWR] perm_0600)) (\<lambda>f.
     returnM \<lparr>fl_f = f, fl_locked = False\<rparr>)"

definition flock_Lock :: "Flock \<Rightarrow> Flock io" where
  "flock_Lock fl =
     bindM (sys_err (Flock (fl_f fl) LOCK_EX)) (\<lambda>_.
     returnM (fl\<lparr>fl_locked := True\<rparr>))"

definition flock_Unlock :: "Flock \<Rightarrow> Flock io" where
  "flock_Unlock fl =
     (if \<not> fl_locked fl then abortM (Panic ''flock: unlock of unlocked lock'')
      else bindM (sys_err (Flock (fl_f fl) LOCK_UN)) (\<lambda>_.
        returnM (fl\<lparr>fl_locked := False\<rparr>)))"

section \<open>hostlock.go\<close>

record Handle =
  h_path :: string

definition NewHandle :: "string \<Rightarrow> Handle" where
  "NewHandle path = \<lparr>h_path = path\<rparr>"

definition job_lock_path :: "Handle \<Rightarrow> string \<Rightarrow> string \<Rightarrow> string" where
  "job_lock_path h job process =
     filepath_Join [h_path h, ''job-'' @ Encode (job @ ''.'' @ process) @ ''.lock'']"

definition LockJob :: "Handle \<Rightarrow> string \<Rightarrow> string \<Rightarrow> Flock io" where
  "LockJob h job process = bindM (flock_New (job_lock_path h job process)) flock_Lock"

text \<open>SHA-256, from the standard library, in hexadecimal, is a parameter.\<close>

definition volume_lock_path :: "(string \<Rightarrow> string) \<Rightarrow> Handle \<Rightarrow> string \<Rightarrow> string" where
  "volume_lock_path sha256 h path = filepath_Join [h_path h, ''vol-'' @ sha256 path @ ''.lock'']"

definition LockVolume :: "(string \<Rightarrow> string) \<Rightarrow> Handle \<Rightarrow> string \<Rightarrow> Flock io" where
  "LockVolume sha256 h path = bindM (flock_New (volume_lock_path sha256 h path)) flock_Lock"

section \<open>Locking and unlocking\<close>

lemma emits_flock [emits_intros]:
  "P (OpenFile path [O_CREATE, O_RDWR] perm_0600) \<Longrightarrow> emits P (flock_New path)"
  "P (Flock (fl_f fl) LOCK_EX) \<Longrightarrow> emits P (flock_Lock fl)"
  "P (Flock (fl_f fl) LOCK_UN) \<Longrightarrow> emits P (flock_Unlock fl)"
  by (simp_all add: flock_New_def flock_Lock_def flock_Unlock_def emits_intros)

lemma emits_LockJob [emits_intros]:
  "P (OpenFile (job_lock_path h job process) [O_CREATE, O_RDWR] perm_0600) \<Longrightarrow> (\<And>f. P (Flock f LOCK_EX)) \<Longrightarrow>
    emits P (LockJob h job process)"
  by (simp add: LockJob_def emits_intros)

lemma emits_LockVolume [emits_intros]:
  "P (OpenFile (volume_lock_path sha256 h path) [O_CREATE, O_RDWR] perm_0600) \<Longrightarrow> (\<And>f. P (Flock f LOCK_EX)) \<Longrightarrow>
    emits P (LockVolume sha256 h path)"
  by (simp add: LockVolume_def emits_intros)

lemma LockJob_Ok:
  assumes "LockJob h job process w = (Ok fl, w')"
  shows "fl_locked fl" and "calls w' = calls w @ [OpenFile (job_lock_path h job process) [O_CREATE, O_RDWR] perm_0600, Flock (fl_f fl) LOCK_EX]"
    and "env w' = env w"
    and "r_fd (env w) (calls w) (OpenFile (job_lock_path h job process) [O_CREATE, O_RDWR] perm_0600) = Inr (fl_f fl)"
    and "r_err (env w) (calls w @ [OpenFile (job_lock_path h job process) [O_CREATE, O_RDWR] perm_0600]) (Flock (fl_f fl) LOCK_EX) = None"
  using assms
  by (auto simp: LockJob_def flock_New_def flock_Lock_def io_simps res_of_def res_sum_def
      split: prod.splits res.splits option.splits sum.splits)

lemma LockVolume_Ok:
  assumes "LockVolume sha256 h path w = (Ok fl, w')"
  shows "fl_locked fl" and "calls w' = calls w @ [OpenFile (volume_lock_path sha256 h path) [O_CREATE, O_RDWR] perm_0600, Flock (fl_f fl) LOCK_EX]"
    and "env w' = env w"
  using assms
  by (auto simp: LockVolume_def flock_New_def flock_Lock_def io_simps res_of_def res_sum_def
      split: prod.splits res.splits option.splits sum.splits)

text \<open>A lock that \<open>LockJob\<close> returned is held, the kernel was asked for an exclusive lock on the
  descriptor of the job's lock file, unlocking it makes exactly one unlock request on that
  descriptor and does not panic, and unlocking the result again panics.\<close>

lemma lock_job_then_unlock:
  assumes "LockJob h job process w = (Ok fl, w')"
  shows "calls w' = calls w @ [OpenFile (job_lock_path h job process) [O_CREATE, O_RDWR] perm_0600, Flock (fl_f fl) LOCK_EX] \<and>
    new_calls (flock_Unlock fl) w' = [Flock (fl_f fl) LOCK_UN] \<and>
    (r_err (env w) (calls w') (Flock (fl_f fl) LOCK_UN) = None \<longrightarrow>
       (\<exists>fl2 w''. flock_Unlock fl w' = (Ok fl2, w'') \<and> fst (flock_Unlock fl2 w'') = Abort (Panic ''flock: unlock of unlocked lock'')))"
  using LockJob_Ok [OF assms]
  by (auto simp: flock_Unlock_def io_simps new_calls_def res_of_def split: option.splits)

section \<open>Lock names\<close>

lemma proper_lock_name: "proper_elem (''job-'' @ Encode n @ ''.lock'')"
  using Encode_proper_elem [of n] by (auto simp: proper_elem_def)

lemma job_lock_path_eq:
  assumes "is_rooted (h_path h)"
  shows "job_lock_path h job process =
    rooted_path (path_elems (h_path h) @ [''job-'' @ Encode (job @ ''.'' @ process) @ ''.lock''])"
  using Join_rooted [OF assms, of "[''job-'' @ Encode (job @ ''.'' @ process) @ ''.lock'']"]
    proper_lock_name by (simp add: job_lock_path_def)

lemma job_lock_path_inject:
  assumes "is_rooted (h_path h)"
  shows "job_lock_path h job process = job_lock_path h job' process' \<longleftrightarrow>
    job @ ''.'' @ process = job' @ ''.'' @ process'"
proof
  assume "job_lock_path h job process = job_lock_path h job' process'"
  then have "path_elems (h_path h) @ [''job-'' @ Encode (job @ ''.'' @ process) @ ''.lock''] =
      path_elems (h_path h) @ [''job-'' @ Encode (job' @ ''.'' @ process') @ ''.lock'']"
    using path_elems_rooted_proper [OF assms] proper_lock_name
    by (intro rooted_path_inject) (simp_all add: job_lock_path_eq [OF assms])
  then show "job @ ''.'' @ process = job' @ ''.'' @ process'"
    by (simp add: jobid.enc_eq_iff)
qed (simp add: job_lock_path_def)

lemma dotted_inject:
  assumes "CHR ''.'' \<notin> set job" and "CHR ''.'' \<notin> set job'" and "job @ ''.'' @ p = job' @ ''.'' @ p'"
  shows "job = job' \<and> p = p'"
proof -
  have "strings_SplitN2 (job @ ''.'' @ p) CHR ''.'' = [job, p]"
    "strings_SplitN2 (job' @ ''.'' @ p') CHR ''.'' = [job', p']"
    using assms(1,2) by (simp_all add: strings_SplitN2_cases takeWhile_append dropWhile_append takeWhile_eq_all_conv)
  with assms(3) show ?thesis by simp
qed

section \<open>Processes competing for locks\<close>

text \<open>
  The kernel's table maps a lock file to the process that holds its exclusive lock. A bpm process
  is idle, waits in \<open>LockJob\<close> for the lock of a job and process, or is between \<open>LockJob\<close> and the end
  of its command. It leaves by \<open>Unlock\<close> (the command's \<open>PostRunE\<close>) or by exiting at any point, which
  closes its descriptors and so drops its locks: that is what happens when a command fails, since
  its \<open>PostRunE\<close> does not run then.
\<close>

datatype pstate = Idle | Waiting string string | Critical string string

record lock_sys =
  pst :: "nat \<Rightarrow> pstate"
  holder :: "string \<Rightarrow> nat option"

definition init_lock_sys :: lock_sys where
  "init_lock_sys = \<lparr>pst = (\<lambda>_. Idle), holder = (\<lambda>_. None)\<rparr>"

inductive lock_step :: "Handle \<Rightarrow> lock_sys \<Rightarrow> lock_sys \<Rightarrow> bool" for h where
  request: "pst s i = Idle \<Longrightarrow> lock_step h s (s\<lparr>pst := (pst s)(i := Waiting job process)\<rparr>)"
| grant: "pst s i = Waiting job process \<Longrightarrow> holder s (job_lock_path h job process) = None \<Longrightarrow>
    lock_step h s (s\<lparr>pst := (pst s)(i := Critical job process),
      holder := (holder s)(job_lock_path h job process := Some i)\<rparr>)"
| unlock: "pst s i = Critical job process \<Longrightarrow>
    lock_step h s (s\<lparr>pst := (pst s)(i := Idle), holder := (holder s)(job_lock_path h job process := None)\<rparr>)"
| exit: "lock_step h s (s\<lparr>pst := (pst s)(i := Idle),
    holder := (\<lambda>f. if holder s f = Some i then None else holder s f)\<rparr>)"

inductive lock_reachable :: "Handle \<Rightarrow> lock_sys \<Rightarrow> bool" for h where
  start: "lock_reachable h init_lock_sys"
| step: "lock_reachable h s \<Longrightarrow> lock_step h s t \<Longrightarrow> lock_reachable h t"

inductive_cases lock_stepE: "lock_step h s t"

text \<open>A lock file is held by a process exactly when that process is in a command for its job and
  process.\<close>

definition lock_of :: "Handle \<Rightarrow> pstate \<Rightarrow> string option" where
  "lock_of h p = (case p of Critical job process \<Rightarrow> Some (job_lock_path h job process) | _ \<Rightarrow> None)"

definition lock_inv :: "Handle \<Rightarrow> lock_sys \<Rightarrow> bool" where
  "lock_inv h s \<longleftrightarrow> (\<forall>f i. holder s f = Some i \<longleftrightarrow> lock_of h (pst s i) = Some f)"

lemma lock_of_simps [simp]:
  "lock_of h Idle = None" "lock_of h (Waiting j p) = None" "lock_of h (Critical j p) = Some (job_lock_path h j p)"
  by (simp_all add: lock_of_def)

lemma lock_inv_init: "lock_inv h init_lock_sys"
  by (simp add: lock_inv_def init_lock_sys_def)

lemma lock_inv_step: "lock_step h s t \<Longrightarrow> lock_inv h s \<Longrightarrow> lock_inv h t"
proof (induction rule: lock_step.induct)
  case (request s i job process)
  then have "lock_of h (pst s i) = None" by simp
  with request.prems show ?case by (auto simp: lock_inv_def)
next
  case (grant s i job process)
  then have "lock_of h (pst s i) = None" by simp
  with grant show ?case by (auto simp: lock_inv_def) (metis option.distinct(1))
next
  case (unlock s i job process)
  then have "lock_of h (pst s i) = Some (job_lock_path h job process)" by simp
  with unlock.prems show ?case by (auto simp: lock_inv_def) (metis option.inject)
next
  case (exit s i)
  then show ?case by (auto simp: lock_inv_def) (metis option.inject)
qed

lemma lock_reachable_inv: "lock_reachable h s \<Longrightarrow> lock_inv h s"
  by (induction rule: lock_reachable.induct) (auto intro: lock_inv_init lock_inv_step)

text \<open>In the protocol at most one process is inside a command for a given job and process, and one
  that waits can enter once the one inside has left. That the commands follow the protocol, call by
  call, is shown in \<open>Interleaving\<close>.\<close>

lemma lifecycle_mutual_exclusion:
  assumes "lock_reachable h s" and "pst s i = Critical job process" and "pst s j = Critical job process"
  shows "i = j"
proof -
  from assms(1) have "lock_inv h s" by (rule lock_reachable_inv)
  with assms(2,3) have "holder s (job_lock_path h job process) = Some i"
    "holder s (job_lock_path h job process) = Some j"
    by (auto simp: lock_inv_def)
  then show ?thesis by simp
qed

lemma waiting_process_progress:
  assumes "lock_reachable h s" and "pst s i = Waiting job process"
  shows "\<exists>t u. (t = s \<or> (\<exists>j. j \<noteq> i \<and> pst s j \<noteq> Idle \<and> lock_step h s t \<and> pst t j = Idle)) \<and>
    lock_step h t u \<and> pst u i = Critical job process"
proof -
  let ?f = "job_lock_path h job process"
  from assms(1) have inv: "lock_inv h s" by (rule lock_reachable_inv)
  show ?thesis
  proof (cases "holder s ?f")
    case None
    let ?u = "s\<lparr>pst := (pst s)(i := Critical job process), holder := (holder s)(?f := Some i)\<rparr>"
    have "lock_step h s ?u" using assms(2) None by (rule lock_step.grant)
    moreover have "pst ?u i = Critical job process" by simp
    ultimately show ?thesis by (intro exI [of _ s] exI [of _ ?u]) blast
  next
    case (Some j)
    with inv have j: "lock_of h (pst s j) = Some ?f" by (simp add: lock_inv_def)
    with assms(2) have "j \<noteq> i" by auto
    let ?t = "s\<lparr>pst := (pst s)(j := Idle), holder := (\<lambda>f. if holder s f = Some j then None else holder s f)\<rparr>"
    have 1: "lock_step h s ?t" by (rule lock_step.exit)
    have 2: "pst ?t i = Waiting job process" "holder ?t ?f = None"
      using assms(2) Some \<open>j \<noteq> i\<close> by auto
    let ?u = "?t\<lparr>pst := (pst ?t)(i := Critical job process), holder := (holder ?t)(?f := Some i)\<rparr>"
    have "lock_step h ?t ?u" using 2 by (rule lock_step.grant)
    moreover have "pst ?u i = Critical job process" by simp
    moreover have "pst s j \<noteq> Idle" "pst ?t j = Idle" using j by (auto simp: lock_of_def)
    ultimately show ?thesis using 1 \<open>j \<noteq> i\<close> by (intro exI [of _ ?t] exI [of _ ?u]) blast
  qed
qed

end
