(* ===== verification/Host.thy ===== *)
theory Host
  imports HostLock
begin

text \<open>
  The host-side helpers: packages \<open>safeio\<close>, \<open>sharedvolume\<close>, \<open>sysfeat\<close> and \<open>usertools\<close>
  (\<open>src/bpm/safeio/safeio.go\<close>, \<open>src/bpm/sharedvolume/share.go\<close>, \<open>src/bpm/sysfeat/sysfeat.go\<close>,
  \<open>src/bpm/usertools/finder.go\<close>). The mount and cgroup libraries they call are vendored and answer
  through the environment.
\<close>

section \<open>safeio.go\<close>

definition OpenAppendChown :: "string \<Rightarrow> int \<Rightarrow> int \<Rightarrow> nat \<Rightarrow> nat io" where
  "OpenAppendChown path uid gid perm =
     bindM (mapErrM (\<lambda>err. if errors_Is_errno ELOOP err
                            then Errorf ''refusing to open symlink at %s: %w'' [AStr path, AWrap err] else err)
              (sys_fd (OpenFile path [O_RDWR, O_CREATE, O_APPEND, O_NOFOLLOW] perm))) (\<lambda>f.
     bindM (attemptM (sys_err (FChown f uid gid))) (\<lambda>r.
       case r of
         Inl err \<Rightarrow> thenM (ignoreM (sys_err (CloseFd f))) (throwM (Errorf ''chown %s: %w'' [AStr path, AWrap err]))
       | Inr _ \<Rightarrow> returnM f))"

section \<open>share.go\<close>

definition MakeShared :: "string \<Rightarrow> unit io" where
  "MakeShared path =
     bindM (sys_bool (Mounted path)) (\<lambda>isMount.
     thenM (if \<not> isMount then sys_err (Mount path path [] [MS_BIND] []) else returnM ())
     (bindM (attemptM (sys_err (Mount ''none'' path [] [MS_SHARED] []))) (\<lambda>r.
       case r of
         Inl err \<Rightarrow>
           if \<not> isMount then thenM (ignoreM (sys_err (Unmount path))) (throwM err) else returnM ()
       | Inr _ \<Rightarrow> returnM ())))"

section \<open>sysfeat.go\<close>

definition swapPathCgroup1 :: string where "swapPathCgroup1 = ''memory.memsw.limit_in_bytes''"
definition swapPathCgroup2 :: string where "swapPathCgroup2 = ''memory.swap.max''"
definition unifiedMountpoint :: string where "unifiedMountpoint = ''/sys/fs/cgroup''"
definition hybridMountpoint :: string where "hybridMountpoint = ''/sys/fs/cgroup/unified''"
definition rosettaBinfmtPath :: string where "rosettaBinfmtPath = ''/proc/sys/fs/binfmt_misc/rosetta''"

record Features =
  SwapLimitSupported :: bool
  SeccompSupported :: bool

definition swapLimitSupportedCgroup2 :: "bool io" where
  "swapLimitSupportedCgroup2 =
     bindM (sys_flag IsCgroup2HybridMode) (\<lambda>hybrid.
     let mountpoint = (if hybrid then hybridMountpoint else unifiedMountpoint)
     in bindM (sys_flag (PathExists (filepath_Join [mountpoint, swapPathCgroup2]))) (\<lambda>e.
        if e then returnM True else returnM False))"

definition swapLimitSupportedCgroup1 :: "bool io" where
  "swapLimitSupportedCgroup1 =
     bindM (sys_text (FindCgroupMountpoint [] ''memory'')) (\<lambda>mountPoint.
     bindM (attemptM (sys_stat (Stat (filepath_Join [mountPoint, swapPathCgroup1])))) (\<lambda>r.
     returnM (case r of Inl _ \<Rightarrow> False | Inr _ \<Rightarrow> True)))"

definition swapLimitSupported :: "bool io" where
  "swapLimitSupported =
     bindM (sys_flag IsCgroup2UnifiedMode) (\<lambda>unified.
     if unified then swapLimitSupportedCgroup2 else swapLimitSupportedCgroup1)"

definition seccompSupported :: "bool io" where
  "seccompSupported =
     bindM (attemptM (sys_stat (Stat rosettaBinfmtPath))) (\<lambda>r.
     returnM (case r of Inl _ \<Rightarrow> True | Inr _ \<Rightarrow> False))"

definition sysfeat_Fetch :: "Features io" where
  "sysfeat_Fetch =
     bindM swapLimitSupported (\<lambda>supported.
     bindM seccompSupported (\<lambda>seccomp.
     returnM \<lparr>SwapLimitSupported = supported, SeccompSupported = seccomp\<rparr>))"

section \<open>finder.go\<close>

definition VcapUser :: string where "VcapUser = ''vcap''"

record User =
  UID :: "32 word"
  GID :: "32 word"
  Username :: string

text \<open>The conversion \<open>uint32(uid)\<close> of an \<open>int\<close> keeps the low 32 bits.\<close>

definition user_of :: "os_user \<Rightarrow> User res" where
  "user_of u =
     bind_res (res_sum (strconv_Atoi (u_Uid u))) (\<lambda>uid.
     if uid < 0 then Err (Errorf ''UID can't be negative'' [])
     else bind_res (res_sum (strconv_Atoi (u_Gid u))) (\<lambda>gid.
     if gid < 0 then Err (Errorf ''GID can't be negative'' [])
     else Ok \<lparr>UID = word_of_int uid, GID = word_of_int gid, Username = u_Username u\<rparr>))"

definition Lookup :: "string \<Rightarrow> User io" where
  "Lookup username = bindM (sys_user (LookupUser username)) (\<lambda>u. liftM (user_of u))"

section \<open>Which calls the helpers make\<close>

lemma emits_OpenAppendChown [emits_intros]:
  "P (OpenFile path [O_RDWR, O_CREATE, O_APPEND, O_NOFOLLOW] perm) \<Longrightarrow> (\<And>f. P (FChown f uid gid)) \<Longrightarrow> (\<And>f. P (CloseFd f)) \<Longrightarrow>
    emits P (OpenAppendChown path uid gid perm)"
  by (auto simp: OpenAppendChown_def intro!: emits_intros)

lemma emits_MakeShared [emits_intros]:
  "P (Mounted path) \<Longrightarrow> (\<And>s t fs d. P (Mount s path t fs d)) \<Longrightarrow> P (Unmount path) \<Longrightarrow> emits P (MakeShared path)"
  by (auto simp: MakeShared_def intro!: emits_intros)

lemma emits_Fetch [emits_intros]:
  "P IsCgroup2UnifiedMode \<Longrightarrow> P IsCgroup2HybridMode \<Longrightarrow> (\<And>p. P (PathExists p)) \<Longrightarrow> (\<And>p. P (Stat p)) \<Longrightarrow>
    (\<And>a b. P (FindCgroupMountpoint a b)) \<Longrightarrow> emits P sysfeat_Fetch"
  by (auto simp: sysfeat_Fetch_def swapLimitSupported_def swapLimitSupportedCgroup1_def
      swapLimitSupportedCgroup2_def seccompSupported_def Let_def intro!: emits_intros)

lemma emits_Lookup [emits_intros]: "P (LookupUser u) \<Longrightarrow> emits P (Lookup u)"
  by (simp add: Lookup_def emits_intros)

section \<open>Opening log files\<close>



section \<open>Sharing a volume\<close>

text \<open>What \<open>MakeShared\<close> answers: if the path is not yet a mount point, it must be bind-mounted and
  the shared flag must be set, and a failure of the latter undoes the bind mount; if the path is a
  mount point already, the answer is success even when setting the shared flag fails.\<close>

lemma make_shared_outcome:
  assumes "r_bool (env w) (calls w) (Mounted path) = Inr isMount"
  shows "if isMount
    then fst (MakeShared path w) = Ok () \<and>
         new_calls (MakeShared path) w = [Mounted path, Mount ''none'' path [] [MS_SHARED] []]
    else (case r_err (env w) (calls w @ [Mounted path]) (Mount path path [] [MS_BIND] []) of
        Some e \<Rightarrow> fst (MakeShared path w) = Err e \<and> new_calls (MakeShared path) w = [Mounted path, Mount path path [] [MS_BIND] []]
      | None \<Rightarrow> (case r_err (env w) (calls w @ [Mounted path, Mount path path [] [MS_BIND] []]) (Mount ''none'' path [] [MS_SHARED] []) of
          None \<Rightarrow> fst (MakeShared path w) = Ok () \<and>
            new_calls (MakeShared path) w = [Mounted path, Mount path path [] [MS_BIND] [], Mount ''none'' path [] [MS_SHARED] []]
        | Some e \<Rightarrow> fst (MakeShared path w) = Err e \<and>
            new_calls (MakeShared path) w = [Mounted path, Mount path path [] [MS_BIND] [], Mount ''none'' path [] [MS_SHARED] [], Unmount path]))"
  using assms
  by (auto simp: MakeShared_def new_calls_def io_simps res_of_def res_sum_def split: option.splits)

section \<open>User identifiers\<close>

lemma unat_word_of_int_32: "0 \<le> i \<Longrightarrow> unat (word_of_int i :: 32 word) = nat i mod 2 ^ 32"
  by (simp add: unat_eq_nat_uint uint_word_of_int nat_mod_distrib)

text \<open>C39: a user that \<open>Lookup\<close> returns has the identifiers of the account database modulo \<open>2^32\<close>:
  exact when they are below \<open>2^32\<close>, while an identifier of \<open>2^32\<close> would become root's. Negative or
  unreadable identifiers are errors.\<close>

theorem lookup_identifiers:
  assumes "user_of u = Ok v"
  shows "\<exists>uid gid. strconv_Atoi (u_Uid u) = Inr uid \<and> strconv_Atoi (u_Gid u) = Inr gid \<and> 0 \<le> uid \<and> 0 \<le> gid \<and>
    unat (UID v) = nat uid mod 2 ^ 32 \<and> unat (GID v) = nat gid mod 2 ^ 32 \<and> Username v = u_Username u"
  using assms
  by (auto simp: user_of_def bind_res_eq_Ok res_sum_def unat_word_of_int_32 split: sum.splits if_splits)

theorem lookup_identifiers_witness:
  "\<exists>v. user_of \<lparr>u_Uid = ''4294967296'', u_Gid = ''7'', u_Username = ''vcap''\<rparr> = Ok v \<and> unat (UID v) = 0 \<and> unat (GID v) = 7"
proof -
  have a: "strconv_Atoi ''4294967296'' = Inr 4294967296" "strconv_Atoi ''7'' = Inr 7"
    by (simp_all add: strconv_Atoi_def Let_def is_digit_def digits_val_def digit_val_def)
  let ?u = "\<lparr>u_Uid = ''4294967296'', u_Gid = ''7'', u_Username = ''vcap''\<rparr>"
  from a obtain v where v: "user_of ?u = Ok v" by (simp add: user_of_def)
  from lookup_identifiers [OF v] a v show ?thesis by auto
qed

end
