(* ===== verification/Seccomp.thy ===== *)
theory Seccomp
  imports Host
begin

text \<open>
  \<open>src/bpm/runc/specbuilder/seccomp.go\<close>: the system call filter of an unprivileged container. The
  list is the one of the source, in its order, in three parts. The evaluation of a filter is the
  documented rule of the container runtime: the first rule that names the call and whose argument
  conditions all hold decides, and without one the default action does.
\<close>

unbundle bit_operations_syntax

section \<open>The filter\<close>

datatype LinuxSeccompAction = ActErrno | ActAllow
datatype LinuxSeccompOperator = OpEqualTo | OpMaskedEqual
datatype Arch = ArchX86_64 | ArchX86 | ArchX32

record LinuxSeccompArg =
  Index :: nat
  Value :: "64 word"
  ValueTwo :: "64 word"
  Op :: LinuxSeccompOperator

record LinuxSyscall =
  Names :: "string list"
  Action :: LinuxSeccompAction
  ErrnoRet :: "nat option"
  SArgs :: "LinuxSeccompArg list"

record LinuxSeccomp =
  DefaultAction :: LinuxSeccompAction
  Architectures :: "Arch list"
  Syscalls :: "LinuxSyscall list"

definition personality_per_linux :: "64 word" where "personality_per_linux = 0x0000"
definition personality_per_linux32 :: "64 word" where "personality_per_linux32 = 0x0008"
definition personality_query :: "64 word" where "personality_query = 0xFFFFFFFF"

text \<open>\<open>unix.ENOSYS\<close> and the clone flags of \<open>golang.org/x/sys/unix\<close>.\<close>

definition enosys :: nat where "enosys = 0x26"

definition clone_mask :: "64 word" where
  "clone_mask = 0x20000 OR 0x4000000 OR 0x8000000 OR 0x10000000 OR 0x20000000 OR 0x40000000"

definition AllowSyscall :: "string \<Rightarrow> LinuxSeccompArg list \<Rightarrow> LinuxSyscall" where
  "AllowSyscall syscall args = \<lparr>Names = [syscall], Action = ActAllow, ErrnoRet = None, SArgs = args\<rparr>"

definition seccomp_syscalls_1 :: "LinuxSyscall list" where
  "seccomp_syscalls_1 =
    [AllowSyscall ''_llseek'' [],
     AllowSyscall ''_newselect'' [],
     AllowSyscall ''accept'' [],
     AllowSyscall ''accept4'' [],
     AllowSyscall ''access'' [],
     AllowSyscall ''alarm'' [],
     AllowSyscall ''arch_prctl'' [],
     AllowSyscall ''bind'' [],
     AllowSyscall ''brk'' [],
     AllowSyscall ''capget'' [],
     AllowSyscall ''capset'' [],
     AllowSyscall ''chdir'' [],
     AllowSyscall ''chmod'' [],
     AllowSyscall ''chown'' [],
     AllowSyscall ''chown32'' [],
     AllowSyscall ''chroot'' [],
     AllowSyscall ''clock_getres'' [],
     AllowSyscall ''clock_gettime'' [],
     AllowSyscall ''clock_nanosleep'' [],
     AllowSyscall ''clone'' [\<lparr>Index = 0, Value = clone_mask, ValueTwo = 0, Op = OpMaskedEqual\<rparr>],
     \<lparr>Names = [''clone3''], Action = ActErrno, ErrnoRet = Some enosys, SArgs = []\<rparr>,
     AllowSyscall ''close'' [],
     AllowSyscall ''connect'' [],
     AllowSyscall ''copy_file_range'' [],
     AllowSyscall ''creat'' [],
     AllowSyscall ''dup'' [],
     AllowSyscall ''dup2'' [],
     AllowSyscall ''dup3'' [],
     AllowSyscall ''epoll_create'' [],
     AllowSyscall ''epoll_create1'' [],
     AllowSyscall ''epoll_ctl'' [],
     AllowSyscall ''epoll_ctl_old'' [],
     AllowSyscall ''epoll_pwait'' [],
     AllowSyscall ''epoll_wait'' [],
     AllowSyscall ''epoll_wait_old'' [],
     AllowSyscall ''eventfd'' [],
     AllowSyscall ''eventfd2'' [],
     AllowSyscall ''execve'' [],
     AllowSyscall ''execveat'' [],
     AllowSyscall ''exit'' [],
     AllowSyscall ''exit_group'' [],
     AllowSyscall ''faccessat'' [],
     AllowSyscall ''fadvise64'' [],
     AllowSyscall ''fadvise64_64'' [],
     AllowSyscall ''fallocate'' [],
     AllowSyscall ''fanotify_mark'' [],
     AllowSyscall ''fchdir'' [],
     AllowSyscall ''fchmod'' [],
     AllowSyscall ''fchmodat'' [],
     AllowSyscall ''fchown'' [],
     AllowSyscall ''fchown32'' [],
     AllowSyscall ''fchownat'' [],
     AllowSyscall ''fcntl'' [],
     AllowSyscall ''fcntl64'' [],
     AllowSyscall ''fdatasync'' [],
     AllowSyscall ''fgetxattr'' [],
     AllowSyscall ''flistxattr'' [],
     AllowSyscall ''flock'' [],
     AllowSyscall ''fork'' [],
     AllowSyscall ''fremovexattr'' [],
     AllowSyscall ''fsetxattr'' [],
     AllowSyscall ''fstat'' [],
     AllowSyscall ''fstat64'' [],
     AllowSyscall ''fstatat64'' [],
     AllowSyscall ''fstatfs'' [],
     AllowSyscall ''fstatfs64'' [],
     AllowSyscall ''fsync'' [],
     AllowSyscall ''ftruncate'' [],
     AllowSyscall ''ftruncate64'' [],
     AllowSyscall ''futex'' [],
     AllowSyscall ''futimesat'' [],
     AllowSyscall ''get_robust_list'' [],
     AllowSyscall ''get_thread_area'' [],
     AllowSyscall ''getcpu'' [],
     AllowSyscall ''getcwd'' [],
     AllowSyscall ''getdents'' [],
     AllowSyscall ''getdents64'' [],
     AllowSyscall ''getegid'' [],
     AllowSyscall ''getegid32'' [],
     AllowSyscall ''geteuid'' [],
     AllowSyscall ''geteuid32'' [],
     AllowSyscall ''getgid'' [],
     AllowSyscall ''getgid32'' [],
     AllowSyscall ''getgroups'' [],
     AllowSyscall ''getgroups32'' [],
     AllowSyscall ''getitimer'' [],
     AllowSyscall ''getpeername'' [],
     AllowSyscall ''getpgid'' [],
     AllowSyscall ''getpgrp'' [],
     AllowSyscall ''getpid'' [],
     AllowSyscall ''getppid'' [],
     AllowSyscall ''getpriority'' [],
     AllowSyscall ''getrandom'' [],
     AllowSyscall ''getresgid'' [],
     AllowSyscall ''getresgid32'' [],
     AllowSyscall ''getresuid'' [],
     AllowSyscall ''getresuid32'' [],
     AllowSyscall ''getrlimit'' [],
     AllowSyscall ''getrusage'' [],
     AllowSyscall ''getsid'' [],
     AllowSyscall ''getsockname'' [],
     AllowSyscall ''getsockopt'' [],
     AllowSyscall ''gettid'' [],
     AllowSyscall ''gettimeofday'' [],
     AllowSyscall ''getuid'' [],
     AllowSyscall ''getuid32'' []]"

definition seccomp_syscalls_2 :: "LinuxSyscall list" where
  "seccomp_syscalls_2 =
    [AllowSyscall ''getxattr'' [],
     AllowSyscall ''inotify_add_watch'' [],
     AllowSyscall ''inotify_init'' [],
     AllowSyscall ''inotify_init1'' [],
     AllowSyscall ''inotify_rm_watch'' [],
     AllowSyscall ''io_cancel'' [],
     AllowSyscall ''io_destroy'' [],
     AllowSyscall ''io_getevents'' [],
     AllowSyscall ''io_setup'' [],
     AllowSyscall ''io_submit'' [],
     AllowSyscall ''ioctl'' [],
     AllowSyscall ''ioprio_get'' [],
     AllowSyscall ''ioprio_set'' [],
     AllowSyscall ''ipc'' [],
     AllowSyscall ''kill'' [],
     AllowSyscall ''lchown'' [],
     AllowSyscall ''lchown32'' [],
     AllowSyscall ''lgetxattr'' [],
     AllowSyscall ''link'' [],
     AllowSyscall ''linkat'' [],
     AllowSyscall ''listen'' [],
     AllowSyscall ''listxattr'' [],
     AllowSyscall ''llistxattr'' [],
     AllowSyscall ''lremovexattr'' [],
     AllowSyscall ''lseek'' [],
     AllowSyscall ''lsetxattr'' [],
     AllowSyscall ''lstat'' [],
     AllowSyscall ''lstat64'' [],
     AllowSyscall ''madvise'' [],
     AllowSyscall ''memfd_create'' [],
     AllowSyscall ''mincore'' [],
     AllowSyscall ''mkdir'' [],
     AllowSyscall ''mkdirat'' [],
     AllowSyscall ''mknod'' [],
     AllowSyscall ''mknodat'' [],
     AllowSyscall ''mlock'' [],
     AllowSyscall ''mlock2'' [],
     AllowSyscall ''mlockall'' [],
     AllowSyscall ''mmap'' [],
     AllowSyscall ''mmap2'' [],
     AllowSyscall ''modify_ldt'' [],
     AllowSyscall ''mprotect'' [],
     AllowSyscall ''mq_getsetattr'' [],
     AllowSyscall ''mq_notify'' [],
     AllowSyscall ''mq_open'' [],
     AllowSyscall ''mq_timedreceive'' [],
     AllowSyscall ''mq_timedsend'' [],
     AllowSyscall ''mq_unlink'' [],
     AllowSyscall ''mremap'' [],
     AllowSyscall ''msgctl'' [],
     AllowSyscall ''msgget'' [],
     AllowSyscall ''msgrcv'' [],
     AllowSyscall ''msgsnd'' [],
     AllowSyscall ''msync'' [],
     AllowSyscall ''munlock'' [],
     AllowSyscall ''munlockall'' [],
     AllowSyscall ''munmap'' [],
     AllowSyscall ''nanosleep'' [],
     AllowSyscall ''newfstatat'' [],
     AllowSyscall ''open'' [],
     AllowSyscall ''openat'' [],
     AllowSyscall ''openat2'' [],
     AllowSyscall ''pause'' [],
     AllowSyscall ''personality'' [\<lparr>Index = 0, Value = personality_per_linux, ValueTwo = 0, Op = OpEqualTo\<rparr>],
     AllowSyscall ''personality'' [\<lparr>Index = 0, Value = personality_query, ValueTwo = 0, Op = OpEqualTo\<rparr>],
     AllowSyscall ''personality'' [\<lparr>Index = 0, Value = personality_per_linux32, ValueTwo = 0, Op = OpEqualTo\<rparr>],
     AllowSyscall ''pipe'' [],
     AllowSyscall ''pipe2'' [],
     AllowSyscall ''poll'' [],
     AllowSyscall ''ppoll'' [],
     AllowSyscall ''prctl'' [],
     AllowSyscall ''pread64'' [],
     AllowSyscall ''preadv'' [],
     AllowSyscall ''preadv2'' [],
     AllowSyscall ''prlimit64'' [],
     AllowSyscall ''pselect6'' [],
     AllowSyscall ''pwrite64'' [],
     AllowSyscall ''pwritev'' [],
     AllowSyscall ''pwritev2'' [],
     AllowSyscall ''read'' [],
     AllowSyscall ''readahead'' [],
     AllowSyscall ''readlink'' [],
     AllowSyscall ''readlinkat'' [],
     AllowSyscall ''readv'' [],
     AllowSyscall ''recv'' [],
     AllowSyscall ''recvfrom'' [],
     AllowSyscall ''recvmmsg'' [],
     AllowSyscall ''recvmsg'' [],
     AllowSyscall ''remap_file_pages'' [],
     AllowSyscall ''removexattr'' [],
     AllowSyscall ''rename'' [],
     AllowSyscall ''renameat'' [],
     AllowSyscall ''renameat2'' [],
     AllowSyscall ''restart_syscall'' [],
     AllowSyscall ''rmdir'' [],
     AllowSyscall ''rt_sigaction'' [],
     AllowSyscall ''rt_sigpending'' [],
     AllowSyscall ''rt_sigprocmask'' [],
     AllowSyscall ''rt_sigqueueinfo'' [],
     AllowSyscall ''rt_sigreturn'' [],
     AllowSyscall ''rt_sigsuspend'' [],
     AllowSyscall ''rt_sigtimedwait'' [],
     AllowSyscall ''rt_tgsigqueueinfo'' [],
     AllowSyscall ''sched_get_priority_max'' [],
     AllowSyscall ''sched_get_priority_min'' []]"

definition seccomp_syscalls_3 :: "LinuxSyscall list" where
  "seccomp_syscalls_3 =
    [AllowSyscall ''sched_getaffinity'' [],
     AllowSyscall ''sched_getattr'' [],
     AllowSyscall ''sched_getparam'' [],
     AllowSyscall ''sched_getscheduler'' [],
     AllowSyscall ''sched_rr_get_interval'' [],
     AllowSyscall ''sched_setaffinity'' [],
     AllowSyscall ''sched_setattr'' [],
     AllowSyscall ''sched_setparam'' [],
     AllowSyscall ''sched_setscheduler'' [],
     AllowSyscall ''sched_yield'' [],
     AllowSyscall ''seccomp'' [],
     AllowSyscall ''select'' [],
     AllowSyscall ''semctl'' [],
     AllowSyscall ''semget'' [],
     AllowSyscall ''semop'' [],
     AllowSyscall ''semtimedop'' [],
     AllowSyscall ''send'' [],
     AllowSyscall ''sendfile'' [],
     AllowSyscall ''sendfile64'' [],
     AllowSyscall ''sendmmsg'' [],
     AllowSyscall ''sendmsg'' [],
     AllowSyscall ''sendto'' [],
     AllowSyscall ''set_robust_list'' [],
     AllowSyscall ''set_thread_area'' [],
     AllowSyscall ''set_tid_address'' [],
     AllowSyscall ''setfsgid'' [],
     AllowSyscall ''setfsgid32'' [],
     AllowSyscall ''setfsuid'' [],
     AllowSyscall ''setfsuid32'' [],
     AllowSyscall ''setgid'' [],
     AllowSyscall ''setgid32'' [],
     AllowSyscall ''setgroups'' [],
     AllowSyscall ''setgroups32'' [],
     AllowSyscall ''setitimer'' [],
     AllowSyscall ''setpgid'' [],
     AllowSyscall ''setpriority'' [],
     AllowSyscall ''setregid'' [],
     AllowSyscall ''setregid32'' [],
     AllowSyscall ''setresgid'' [],
     AllowSyscall ''setresgid32'' [],
     AllowSyscall ''setresuid'' [],
     AllowSyscall ''setresuid32'' [],
     AllowSyscall ''setreuid'' [],
     AllowSyscall ''setreuid32'' [],
     AllowSyscall ''setrlimit'' [],
     AllowSyscall ''setsid'' [],
     AllowSyscall ''setsockopt'' [],
     AllowSyscall ''setuid'' [],
     AllowSyscall ''setuid32'' [],
     AllowSyscall ''setxattr'' [],
     AllowSyscall ''shmat'' [],
     AllowSyscall ''shmctl'' [],
     AllowSyscall ''shmdt'' [],
     AllowSyscall ''shmget'' [],
     AllowSyscall ''shutdown'' [],
     AllowSyscall ''sigaltstack'' [],
     AllowSyscall ''signalfd'' [],
     AllowSyscall ''signalfd4'' [],
     AllowSyscall ''sigreturn'' [],
     AllowSyscall ''socket'' [],
     AllowSyscall ''socketcall'' [],
     AllowSyscall ''socketpair'' [],
     AllowSyscall ''splice'' [],
     AllowSyscall ''stat'' [],
     AllowSyscall ''statx'' [],
     AllowSyscall ''stat64'' [],
     AllowSyscall ''statfs'' [],
     AllowSyscall ''statfs64'' [],
     AllowSyscall ''symlink'' [],
     AllowSyscall ''symlinkat'' [],
     AllowSyscall ''sync'' [],
     AllowSyscall ''sync_file_range'' [],
     AllowSyscall ''syncfs'' [],
     AllowSyscall ''sysinfo'' [],
     AllowSyscall ''syslog'' [],
     AllowSyscall ''tee'' [],
     AllowSyscall ''tgkill'' [],
     AllowSyscall ''time'' [],
     AllowSyscall ''timer_create'' [],
     AllowSyscall ''timer_delete'' [],
     AllowSyscall ''timer_getoverrun'' [],
     AllowSyscall ''timer_gettime'' [],
     AllowSyscall ''timer_settime'' [],
     AllowSyscall ''timerfd_create'' [],
     AllowSyscall ''timerfd_gettime'' [],
     AllowSyscall ''timerfd_settime'' [],
     AllowSyscall ''times'' [],
     AllowSyscall ''tkill'' [],
     AllowSyscall ''truncate'' [],
     AllowSyscall ''truncate64'' [],
     AllowSyscall ''ugetrlimit'' [],
     AllowSyscall ''umask'' [],
     AllowSyscall ''uname'' [],
     AllowSyscall ''unlink'' [],
     AllowSyscall ''unlinkat'' [],
     AllowSyscall ''utime'' [],
     AllowSyscall ''utimensat'' [],
     AllowSyscall ''utimes'' [],
     AllowSyscall ''vfork'' [],
     AllowSyscall ''vmsplice'' [],
     AllowSyscall ''wait4'' [],
     AllowSyscall ''waitid'' [],
     AllowSyscall ''waitpid'' [],
     AllowSyscall ''write'' [],
     AllowSyscall ''writev'' []]"

definition DefaultSeccomp :: LinuxSeccomp where
  "DefaultSeccomp =
     \<lparr>DefaultAction = ActErrno, Architectures = [ArchX86_64, ArchX86, ArchX32],
      Syscalls = seccomp_syscalls_1 @ seccomp_syscalls_2 @ seccomp_syscalls_3\<rparr>"

section \<open>Evaluation\<close>

definition arg_holds :: "(nat \<Rightarrow> 64 word) \<Rightarrow> LinuxSeccompArg \<Rightarrow> bool" where
  "arg_holds args a =
     (case Op a of
        OpEqualTo \<Rightarrow> args (Index a) = Value a
      | OpMaskedEqual \<Rightarrow> args (Index a) AND Value a = ValueTwo a)"

definition rule_matches :: "string \<Rightarrow> (nat \<Rightarrow> 64 word) \<Rightarrow> LinuxSyscall \<Rightarrow> bool" where
  "rule_matches name args r = (list_ex (\<lambda>n. n = name) (Names r) \<and> list_all (arg_holds args) (SArgs r))"

definition seccomp_verdict :: "LinuxSeccomp \<Rightarrow> string \<Rightarrow> (nat \<Rightarrow> 64 word) \<Rightarrow> LinuxSeccompAction" where
  "seccomp_verdict s name args =
     (case find (rule_matches name args) (Syscalls s) of None \<Rightarrow> DefaultAction s | Some r \<Rightarrow> Action r)"

text \<open>The rules that name a call.\<close>

definition rules_for :: "string \<Rightarrow> LinuxSyscall list" where
  "rules_for name = filter (\<lambda>r. list_ex (\<lambda>n. n = name) (Names r)) (Syscalls DefaultSeccomp)"

lemma find_filter_names:
  "find (rule_matches name args) rs = find (rule_matches name args) (filter (\<lambda>r. list_ex (\<lambda>n. n = name) (Names r)) rs)"
  by (induction rs) (auto simp: rule_matches_def)

lemma DefaultAction_Errno: "DefaultAction DefaultSeccomp = ActErrno"
  by (simp add: DefaultSeccomp_def)

lemma seccomp_verdict_rules_for:
  "seccomp_verdict DefaultSeccomp name args =
     (case find (rule_matches name args) (rules_for name) of None \<Rightarrow> ActErrno | Some r \<Rightarrow> Action r)"
  unfolding seccomp_verdict_def rules_for_def
  by (subst find_filter_names) (simp only: DefaultAction_Errno)

definition privileged_calls :: "string list" where
  "privileged_calls =
     [''mount'', ''umount2'', ''pivot_root'', ''ptrace'', ''reboot'', ''kexec_load'', ''init_module'',
      ''finit_module'', ''delete_module'', ''bpf'', ''setns'', ''unshare'', ''swapon'', ''swapoff'',
      ''settimeofday'', ''clock_settime'', ''add_key'', ''keyctl'', ''request_key'', ''perf_event_open'',
      ''userfaultfd'', ''open_by_handle_at'', ''process_vm_readv'', ''process_vm_writev'', ''iopl'', ''ioperm'']"

lemma Names_AllowSyscall [simp]: "Names (AllowSyscall n as) = [n]"
  by (simp add: AllowSyscall_def)

definition names_of :: "LinuxSyscall list \<Rightarrow> string set" where
  "names_of rs = set (concat (map Names rs))"

lemma filter_names_of: "n \<notin> names_of rs \<Longrightarrow> filter (\<lambda>r. list_ex (\<lambda>m. m = n) (Names r)) rs = []"
  by (auto simp: names_of_def filter_empty_conv list_ex_iff)

lemma rules_for_append:
  "rules_for n = filter (\<lambda>r. list_ex (\<lambda>m. m = n) (Names r)) seccomp_syscalls_1 @
     filter (\<lambda>r. list_ex (\<lambda>m. m = n) (Names r)) seccomp_syscalls_2 @
     filter (\<lambda>r. list_ex (\<lambda>m. m = n) (Names r)) seccomp_syscalls_3"
  by (simp add: rules_for_def DefaultSeccomp_def)

lemma privileged_not_named:
  "list_all (\<lambda>n. n \<notin> names_of seccomp_syscalls_1) privileged_calls"
  "list_all (\<lambda>n. n \<notin> names_of seccomp_syscalls_2) privileged_calls"
  "list_all (\<lambda>n. n \<notin> names_of seccomp_syscalls_3) privileged_calls"
  by (simp_all add: names_of_def privileged_calls_def seccomp_syscalls_1_def seccomp_syscalls_2_def seccomp_syscalls_3_def)

lemma clone_not_named:
  "''clone'' \<notin> names_of seccomp_syscalls_2" "''clone'' \<notin> names_of seccomp_syscalls_3"
  "''clone3'' \<notin> names_of seccomp_syscalls_2" "''clone3'' \<notin> names_of seccomp_syscalls_3"
  by (simp_all add: names_of_def seccomp_syscalls_2_def seccomp_syscalls_3_def)

lemma rules_for_privileged: "list_all (\<lambda>n. rules_for n = []) privileged_calls"
  using privileged_not_named by (simp add: list_all_iff rules_for_append filter_names_of)

lemma rules_for_clone:
  "rules_for ''clone'' = [AllowSyscall ''clone'' [\<lparr>Index = 0, Value = clone_mask, ValueTwo = 0, Op = OpMaskedEqual\<rparr>]]"
  unfolding rules_for_append
  by (simp only: filter_names_of clone_not_named append_Nil2 not_False_eq_True) (simp add: seccomp_syscalls_1_def)

lemma rules_for_clone3:
  "rules_for ''clone3'' = [\<lparr>Names = [''clone3''], Action = ActErrno, ErrnoRet = Some enosys, SArgs = []\<rparr>]"
  unfolding rules_for_append
  by (simp only: filter_names_of clone_not_named append_Nil2 not_False_eq_True) (simp add: seccomp_syscalls_1_def)

lemma personality_not_named:
  "''personality'' \<notin> names_of seccomp_syscalls_1" "''personality'' \<notin> names_of seccomp_syscalls_3"
  by (simp_all add: names_of_def seccomp_syscalls_1_def seccomp_syscalls_3_def)

lemma rules_for_personality:
  "rules_for ''personality'' =
     map (\<lambda>v. AllowSyscall ''personality'' [\<lparr>Index = 0, Value = v, ValueTwo = 0, Op = OpEqualTo\<rparr>])
       [personality_per_linux, personality_query, personality_per_linux32]"
  unfolding rules_for_append
  by (simp only: filter_names_of personality_not_named append_Nil append_Nil2 not_False_eq_True) (simp add: seccomp_syscalls_2_def)

text \<open>All other rules allow their call whatever its arguments are.\<close>

definition special_calls :: "string list" where
  "special_calls = [''clone'', ''clone3'', ''personality'']"

definition allows_always :: "LinuxSyscall \<Rightarrow> bool" where
  "allows_always r \<longleftrightarrow> Action r = ActAllow \<and> SArgs r = [] \<or> list_all (\<lambda>n. n \<in> set special_calls) (Names r)"

lemma rules_allow_always:
  "list_all allows_always seccomp_syscalls_1" "list_all allows_always seccomp_syscalls_2"
  "list_all allows_always seccomp_syscalls_3"
  by (simp_all add: allows_always_def AllowSyscall_def special_calls_def
      seccomp_syscalls_1_def seccomp_syscalls_2_def seccomp_syscalls_3_def)

lemma rules_for_Nil: "rules_for n = [] \<longleftrightarrow> n \<notin> names_of (Syscalls DefaultSeccomp)"
  by (auto simp: rules_for_def names_of_def filter_empty_conv list_ex_iff)

lemma seccomp_verdict_other:
  assumes "n \<notin> set special_calls"
  shows "seccomp_verdict DefaultSeccomp n args = ActAllow \<longleftrightarrow> n \<in> names_of (Syscalls DefaultSeccomp)"
proof (cases "rules_for n")
  case Nil
  then show ?thesis by (simp add: seccomp_verdict_rules_for flip: rules_for_Nil)
next
  case (Cons r rs)
  then have r: "r \<in> set (rules_for n)" by simp
  then have "allows_always r" "list_ex (\<lambda>m. m = n) (Names r)"
    using rules_allow_always by (auto simp: rules_for_append list_all_iff)
  with assms have "Action r = ActAllow" "rule_matches n args r"
    by (auto simp: allows_always_def rule_matches_def list_all_iff list_ex_iff)
  with Cons show ?thesis using rules_for_Nil [of n] by (simp add: seccomp_verdict_rules_for)
qed


end
