(* ===== verification/SpecBuilder.thy ===== *)
theory SpecBuilder
  imports Seccomp
begin

text \<open>
  Package \<open>specbuilder\<close> (\<open>src/bpm/runc/specbuilder/specbuilder.go\<close>, \<open>capabilities.go\<close>): the container
  specification as a record with the fields the program sets, the options that change it, and
  their composition. Option values are functions on specifications, as in the source.
\<close>

named_theorems spec_simps \<open>the effect of specification options\<close>

section \<open>The specification\<close>

record SpecMount =
  Destination :: string
  MType :: string
  Source :: string
  Options :: "string list"

record LinuxCapabilities =
  Ambient :: "string list"
  Bounding :: "string list"
  Effective :: "string list"
  Inheritable :: "string list"
  Permitted :: "string list"

record POSIXRlimit =
  RType :: string
  Hard :: "64 word"
  Soft :: "64 word"

record SpecProcess =
  SUser :: User
  SpArgs :: "string list"
  SpEnv :: "string list"
  SpCwd :: string
  SpCapabilities :: LinuxCapabilities
  Rlimits :: "POSIXRlimit list"
  NoNewPrivileges :: bool

record LinuxMemory =
  MLimit :: "64 word option"
  MSwap :: "64 word option"

record LinuxResources =
  RMemory :: "LinuxMemory option"
  RPids :: "64 word option"

record SpecLinux =
  MaskedPaths :: "string list"
  ReadonlyPaths :: "string list"
  Resources :: LinuxResources
  RootfsPropagation :: string
  SeccompFilter :: "LinuxSeccomp option"
  Namespaces :: "string list"
  CgroupsPath :: string

record Spec =
  Version :: string
  SProcess :: SpecProcess
  SRoot :: "string option"
  SLinux :: SpecLinux
  Mounts :: "SpecMount list"

type_synonym SpecOption = "Spec \<Rightarrow> Spec"

definition zero_user :: User where
  "zero_user = \<lparr>UID = 0, GID = 0, Username = []\<rparr>"

definition no_capabilities :: LinuxCapabilities where
  "no_capabilities = \<lparr>Ambient = [], Bounding = [], Effective = [], Inheritable = [], Permitted = []\<rparr>"

section \<open>specbuilder.go\<close>

definition DefaultSpec :: Spec where
  "DefaultSpec =
     \<lparr>Version = ''1.3.0'',
      SProcess = \<lparr>SUser = zero_user, SpArgs = [], SpEnv = [], SpCwd = [], SpCapabilities = no_capabilities,
        Rlimits = [], NoNewPrivileges = True\<rparr>,
      SRoot = None,
      SLinux = \<lparr>MaskedPaths =
          [''/etc/sv'', ''/proc/kcore'', ''/proc/latency_stats'', ''/proc/sched_debug'', ''/proc/timer_list'',
           ''/proc/timer_stats'', ''/sys/firmware''],
        ReadonlyPaths =
          [''/proc/asound'', ''/proc/bus'', ''/proc/fs'', ''/proc/irq'', ''/proc/sys'', ''/proc/sysrq-trigger''],
        Resources = \<lparr>RMemory = None, RPids = None\<rparr>,
        RootfsPropagation = ''private'',
        SeccompFilter = Some DefaultSeccomp,
        Namespaces = [],
        CgroupsPath = []\<rparr>,
      Mounts =
        [\<lparr>Destination = ''/proc'', MType = ''proc'', Source = ''proc'', Options = []\<rparr>,
         \<lparr>Destination = ''/dev'', MType = ''tmpfs'', Source = ''tmpfs'', Options = [''nosuid'', ''noexec'', ''mode=755'']\<rparr>,
         \<lparr>Destination = ''/dev/pts'', MType = ''devpts'', Source = ''devpts'',
           Options = [''nosuid'', ''noexec'', ''newinstance'', ''ptmxmode=0666'', ''mode=0620'', ''gid=5'']\<rparr>,
         \<lparr>Destination = ''/dev/shm'', MType = ''tmpfs'', Source = ''shm'', Options = [''nosuid'', ''noexec'', ''nodev'', ''mode=1777'']\<rparr>,
         \<lparr>Destination = ''/dev/mqueue'', MType = ''mqueue'', Source = ''mqueue'', Options = [''nosuid'', ''noexec'', ''nodev'']\<rparr>,
         \<lparr>Destination = ''/sys'', MType = ''sysfs'', Source = ''sysfs'', Options = [''nosuid'', ''noexec'', ''nodev'', ''ro'']\<rparr>]\<rparr>"

fun Apply :: "Spec \<Rightarrow> SpecOption list \<Rightarrow> Spec" where
  "Apply spec [] = spec"
| "Apply spec (opt # opts) = Apply (opt spec) opts"

definition Build :: "SpecOption list \<Rightarrow> Spec" where
  "Build opts = Apply DefaultSpec opts"

abbreviation upd_process :: "(SpecProcess \<Rightarrow> SpecProcess) \<Rightarrow> SpecOption" where
  "upd_process f spec \<equiv> spec\<lparr>SProcess := f (SProcess spec)\<rparr>"

abbreviation upd_linux :: "(SpecLinux \<Rightarrow> SpecLinux) \<Rightarrow> SpecOption" where
  "upd_linux f spec \<equiv> spec\<lparr>SLinux := f (SLinux spec)\<rparr>"

definition WithRootFilesystem :: "string \<Rightarrow> SpecOption" where
  "WithRootFilesystem path spec = spec\<lparr>SRoot := Some path\<rparr>"

definition WithNamespace :: "string \<Rightarrow> SpecOption" where
  "WithNamespace ns = upd_linux (\<lambda>l. l\<lparr>Namespaces := Namespaces l @ [ns]\<rparr>)"

definition WithUser :: "User \<Rightarrow> SpecOption" where
  "WithUser user = upd_process (\<lambda>p. p\<lparr>SUser := user\<rparr>)"

definition WithProcess :: "string \<Rightarrow> string list \<Rightarrow> string list \<Rightarrow> string \<Rightarrow> SpecOption" where
  "WithProcess executable args environment cwd =
     upd_process (\<lambda>p. p\<lparr>SpArgs := executable # args, SpEnv := environment, SpCwd := cwd\<rparr>)"

definition WithCapabilities :: "string list \<Rightarrow> SpecOption" where
  "WithCapabilities capabilities =
     upd_process (\<lambda>p. p\<lparr>SpCapabilities :=
       (SpCapabilities p)\<lparr>Ambient := Ambient (SpCapabilities p) @ capabilities,
         Bounding := Bounding (SpCapabilities p) @ capabilities,
         Inheritable := Inheritable (SpCapabilities p) @ capabilities,
         Permitted := Permitted (SpCapabilities p) @ capabilities\<rparr>\<rparr>)"

definition WithMounts :: "SpecMount list \<Rightarrow> SpecOption" where
  "WithMounts mounts spec = spec\<lparr>Mounts := Mounts spec @ mounts\<rparr>"

text \<open>The limit is an \<open>int64\<close>: a 64-bit word read as signed.\<close>

definition WithMemoryLimit :: "64 word \<Rightarrow> Features \<Rightarrow> SpecOption" where
  "WithMemoryLimit limit features =
     upd_linux (\<lambda>l. l\<lparr>Resources := (Resources l)\<lparr>RMemory := Some
       \<lparr>MLimit = Some limit, MSwap = (if SwapLimitSupported features then Some limit else None)\<rparr>\<rparr>\<rparr>)"

definition WithPidLimit :: "64 word \<Rightarrow> SpecOption" where
  "WithPidLimit limit = upd_linux (\<lambda>l. l\<lparr>Resources := (Resources l)\<lparr>RPids := Some limit\<rparr>\<rparr>)"

definition WithOpenFileLimit :: "64 word \<Rightarrow> SpecOption" where
  "WithOpenFileLimit limit =
     upd_process (\<lambda>p. p\<lparr>Rlimits := Rlimits p @ [\<lparr>RType = ''RLIMIT_NOFILE'', Hard = limit, Soft = limit\<rparr>]\<rparr>)"

definition WithCoreFileSizeLimit :: "64 word \<Rightarrow> SpecOption" where
  "WithCoreFileSizeLimit limit =
     upd_process (\<lambda>p. p\<lparr>Rlimits := Rlimits p @ [\<lparr>RType = ''RLIMIT_CORE'', Hard = limit, Soft = limit\<rparr>]\<rparr>)"

definition RootUser :: User where
  "RootUser = \<lparr>UID = 0, GID = 0, Username = []\<rparr>"

definition WithoutSeccomp :: SpecOption where
  "WithoutSeccomp = upd_linux (\<lambda>l. l\<lparr>SeccompFilter := None\<rparr>)"

fun removeNosuidMountOption :: "string list \<Rightarrow> string list" where
  "removeNosuidMountOption [] = []"
| "removeNosuidMountOption (opt # opts) =
     (if opt = ''nosuid'' then opts else opt # removeNosuidMountOption opts)"

text \<open>\<open>capabilities.go\<close>\<close>

definition DefaultPrivilegedCapabilities :: "string list" where
  "DefaultPrivilegedCapabilities =
     [''CAP_AUDIT_CONTROL'', ''CAP_AUDIT_READ'', ''CAP_AUDIT_WRITE'', ''CAP_BLOCK_SUSPEND'', ''CAP_CHOWN'',
      ''CAP_DAC_OVERRIDE'', ''CAP_DAC_READ_SEARCH'', ''CAP_FOWNER'', ''CAP_FSETID'', ''CAP_IPC_LOCK'',
      ''CAP_IPC_OWNER'', ''CAP_KILL'', ''CAP_LEASE'', ''CAP_LINUX_IMMUTABLE'', ''CAP_MAC_ADMIN'',
      ''CAP_MAC_OVERRIDE'', ''CAP_MKNOD'', ''CAP_NET_ADMIN'', ''CAP_NET_BIND_SERVICE'', ''CAP_NET_BROADCAST'',
      ''CAP_NET_RAW'', ''CAP_SETFCAP'', ''CAP_SETGID'', ''CAP_SETPCAP'', ''CAP_SETUID'', ''CAP_SYSLOG'',
      ''CAP_SYS_ADMIN'', ''CAP_SYS_BOOT'', ''CAP_SYS_CHROOT'', ''CAP_SYS_MODULE'', ''CAP_SYS_NICE'',
      ''CAP_SYS_PACCT'', ''CAP_SYS_PTRACE'', ''CAP_SYS_RAWIO'', ''CAP_SYS_RESOURCE'', ''CAP_SYS_TIME'',
      ''CAP_SYS_TTY_CONFIG'', ''CAP_WAKE_ALARM'']"

definition WithPrivileged :: SpecOption where
  "WithPrivileged spec =
     (let s1 = Apply spec [WithCapabilities DefaultPrivilegedCapabilities];
          s2 = Apply s1 [WithUser RootUser];
          s3 = upd_process (\<lambda>p. p\<lparr>NoNewPrivileges := False\<rparr>) s2;
          s4 = upd_linux (\<lambda>l. l\<lparr>MaskedPaths := [], ReadonlyPaths := [], SeccompFilter := None\<rparr>) s3
      in s4\<lparr>Mounts := map (\<lambda>m. m\<lparr>Options := removeNosuidMountOption (Options m)\<rparr>) (Mounts s4)\<rparr>)"

definition WithCgroupsPath :: "string \<Rightarrow> SpecOption" where
  "WithCgroupsPath path = upd_linux (\<lambda>l. l\<lparr>CgroupsPath := path\<rparr>)"

section \<open>Composition\<close>

lemma Apply_append [simp]: "Apply spec (os @ ps) = Apply (Apply spec os) ps"
  by (induction spec os rule: Apply.induct) auto

lemmas with_defs = WithRootFilesystem_def WithNamespace_def WithUser_def WithProcess_def WithCapabilities_def
  WithMounts_def WithMemoryLimit_def WithPidLimit_def WithOpenFileLimit_def WithCoreFileSizeLimit_def
  WithoutSeccomp_def WithCgroupsPath_def

lemma removeNosuid_eq_remove1: "removeNosuidMountOption opts = remove1 ''nosuid'' opts"
  by (induction opts) auto

lemma removeNosuid_distinct: "distinct opts \<Longrightarrow> ''nosuid'' \<notin> set (removeNosuidMountOption opts)"
  by (simp add: removeNosuid_eq_remove1)

text \<open>The privileged option grants the privileged capabilities on top of those already granted,
  runs as root, allows new privileges, drops the masked and read-only paths and the system call
  filter, and takes the first \<open>nosuid\<close> off the options of every mount; it keeps the container's own root,
  arguments, environment, namespaces, limits, mount destinations and sources.\<close>

lemma with_privileged_effect:
  "let p = SProcess spec; p' = SProcess (WithPrivileged spec); l = SLinux spec; l' = SLinux (WithPrivileged spec) in
     SUser p' = RootUser \<and> \<not> NoNewPrivileges p' \<and>
     Ambient (SpCapabilities p') = Ambient (SpCapabilities p) @ DefaultPrivilegedCapabilities \<and>
     Bounding (SpCapabilities p') = Bounding (SpCapabilities p) @ DefaultPrivilegedCapabilities \<and>
     Effective (SpCapabilities p') = Effective (SpCapabilities p) \<and>
     SpArgs p' = SpArgs p \<and> SpEnv p' = SpEnv p \<and> SpCwd p' = SpCwd p \<and> Rlimits p' = Rlimits p \<and>
     MaskedPaths l' = [] \<and> ReadonlyPaths l' = [] \<and> SeccompFilter l' = None \<and>
     Namespaces l' = Namespaces l \<and> Resources l' = Resources l \<and> CgroupsPath l' = CgroupsPath l \<and>
     SRoot (WithPrivileged spec) = SRoot spec \<and>
     map Destination (Mounts (WithPrivileged spec)) = map Destination (Mounts spec) \<and>
     map Source (Mounts (WithPrivileged spec)) = map Source (Mounts spec) \<and>
     map Options (Mounts (WithPrivileged spec)) = map (\<lambda>m. remove1 ''nosuid'' (Options m)) (Mounts spec)"
  by (simp add: WithPrivileged_def Let_def with_defs removeNosuid_eq_remove1 comp_def)

end
