(* ===== verification/Mounts.thy ===== *)
theory Mounts
  imports SpecBuilder
begin

text \<open>
  \<open>src/bpm/runc/adapter/mount.go\<close>: bind mounts, their options, and the collection that keeps one
  mount per destination and orders them. The order in which a Go map is visited is open, and
  \<open>sort.Slice\<close> is not stable: the model visits the mounts in the order that an arbitrary function
  \<open>ord\<close> gives and sorts stably, which yields every outcome the code can have.
\<close>

section \<open>Mount options\<close>

record mountOptions =
  rbind :: bool
  exec :: bool
  suid :: bool
  dev :: bool
  writable :: bool

type_synonym MountOption = "mountOptions \<Rightarrow> mountOptions"

definition AllowExec :: MountOption where "AllowExec options = options\<lparr>exec := True\<rparr>"
definition AllowWrites :: MountOption where "AllowWrites options = options\<lparr>writable := True\<rparr>"
definition WithRecursiveBind :: MountOption where "WithRecursiveBind options = options\<lparr>rbind := True\<rparr>"

definition mountOptions_opts :: "mountOptions \<Rightarrow> string list" where
  "mountOptions_opts mo =
     [if rbind mo then ''rbind'' else ''bind'',
      if exec mo then ''exec'' else ''noexec'',
      if suid mo then ''suid'' else ''nosuid'',
      if dev mo then ''dev'' else ''nodev'',
      if writable mo then ''rw'' else ''ro'']"

definition no_options :: mountOptions where
  "no_options = \<lparr>rbind = False, exec = False, suid = False, dev = False, writable = False\<rparr>"

definition BindMount :: "string \<Rightarrow> string \<Rightarrow> MountOption list \<Rightarrow> SpecMount" where
  "BindMount from to opts =
     \<lparr>Destination = to, MType = ''bind'', Source = from,
      Options = mountOptions_opts (fold (\<lambda>opt. opt) opts no_options)\<rparr>"

definition IdentityMount :: "string \<Rightarrow> MountOption list \<Rightarrow> SpecMount" where
  "IdentityMount path opts = BindMount path path opts"

section \<open>The deduplicated collection\<close>

type_synonym dedupMounts = "(string, SpecMount) gomap"

definition newMountDedup :: dedupMounts where
  "newMountDedup = []"

fun addMounts :: "dedupMounts \<Rightarrow> SpecMount list \<Rightarrow> dedupMounts" where
  "addMounts d [] = d"
| "addMounts d (mount # ms) =
     (case map_of d (Destination mount) of
        Some _ \<Rightarrow> addMounts d ms
      | None \<Rightarrow> addMounts (gomap_set (Destination mount) mount d) ms)"

definition depth :: "SpecMount \<Rightarrow> nat" where
  "depth m = length (strings_Split (Destination m) CHR ''/'')"

definition dedup_mounts :: "(SpecMount list \<Rightarrow> SpecMount list) \<Rightarrow> dedupMounts \<Rightarrow> SpecMount list" where
  "dedup_mounts ord d = sort_key depth (ord (map snd d))"

section \<open>The interface of a mount set\<close>

text \<open>
  What building the specification relies on: adding keeps the first mount of a destination, and
  the final list has each destination once and puts a directory before everything below it, as far
  as the destinations are written in their cleaned form and the directory is not the root.
\<close>

text \<open>A destination that is written in its cleaned form and is not the root directory.\<close>

definition clean_place :: "string \<Rightarrow> bool" where
  "clean_place d \<longleftrightarrow> is_rooted d \<and> filepath_Clean d = d \<and> d \<noteq> ''/''"

definition below :: "SpecMount \<Rightarrow> SpecMount \<Rightarrow> bool" where
  "below parent child \<longleftrightarrow>
     clean_place (Destination parent) \<and> clean_place (Destination child) \<and>
     strict_prefix (path_elems (Destination parent)) (path_elems (Destination child))"

locale mount_set =
  fixes inv :: "'s \<Rightarrow> bool" and add :: "'s \<Rightarrow> SpecMount list \<Rightarrow> 's"
    and lookup :: "'s \<Rightarrow> string \<Rightarrow> SpecMount option" and listing :: "'s \<Rightarrow> SpecMount list"
  assumes inv_add: "inv s \<Longrightarrow> inv (add s ms)"
    and lookup_add: "inv s \<Longrightarrow> lookup (add s ms) dst =
      (case lookup s dst of Some m \<Rightarrow> Some m | None \<Rightarrow> find (\<lambda>m. Destination m = dst) ms)"
    and listing_set: "inv s \<Longrightarrow> set (listing s) = {m. lookup s (Destination m) = Some m}"
    and listing_distinct: "inv s \<Longrightarrow> distinct (map Destination (listing s))"
    and listing_sorted: "inv s \<Longrightarrow> sorted_wrt (\<lambda>a b. \<not> below b a) (listing s)"
begin

lemma in_listing_add:
  assumes "inv s"
  shows "m \<in> set (listing (add s ms)) \<longleftrightarrow>
    lookup s (Destination m) = Some m \<or>
    (lookup s (Destination m) = None \<and> find (\<lambda>x. Destination x = Destination m) ms = Some m)"
  using assms by (auto simp: listing_set inv_add lookup_add split: option.splits)

lemma add_keeps_first:
  assumes "inv s" and "lookup s dst = Some m"
  shows "lookup (add s ms) dst = Some m"
  using assms by (simp add: lookup_add)

lemma parent_first:
  assumes "inv s" and "i < length (listing s)" and "j < length (listing s)"
    and "below (listing s ! i) (listing s ! j)"
  shows "i < j"
proof (rule ccontr)
  assume "\<not> i < j"
  moreover have "i \<noteq> j" using assms(4) by (auto simp: below_def)
  ultimately have "j < i" by simp
  with assms(1-3) listing_sorted have "\<not> below (listing s ! i) (listing s ! j)"
    by (simp add: sorted_wrt_iff_nth_less)
  with assms(4) show False by simp
qed

end

section \<open>The code implements the interface\<close>

text \<open>The keys of the collection are the destinations of its mounts.\<close>

definition dedup_inv :: "dedupMounts \<Rightarrow> bool" where
  "dedup_inv d \<longleftrightarrow> gomap_ok d \<and> list_all (\<lambda>(k, m). k = Destination m) d"

lemma dedup_inv_empty [simp]: "dedup_inv newMountDedup"
  by (simp add: dedup_inv_def newMountDedup_def)

lemma list_all_gomap_set:
  "list_all P m \<Longrightarrow> P (k, v) \<Longrightarrow> list_all P (gomap_set k v m)"
  by (induction k v m rule: gomap_set.induct) auto

lemma dedup_inv_set: "dedup_inv d \<Longrightarrow> dedup_inv (gomap_set (Destination m) m d)"
  by (auto simp: dedup_inv_def intro!: list_all_gomap_set)

lemma dedup_inv_addMounts: "dedup_inv d \<Longrightarrow> dedup_inv (addMounts d ms)"
  by (induction d ms rule: addMounts.induct) (auto simp: dedup_inv_set split: option.splits)

lemma map_of_addMounts:
  "map_of (addMounts d ms) dst =
     (case map_of d dst of Some m \<Rightarrow> Some m | None \<Rightarrow> find (\<lambda>m. Destination m = dst) ms)"
proof (induction d ms rule: addMounts.induct)
  case (2 d mount ms)
  show ?case
  proof (cases "map_of d (Destination mount)")
    case None
    with "2.IH" show ?thesis by (auto split: option.splits)
  next
    case (Some x)
    with "2.IH" show ?thesis by (auto split: option.splits)
  qed
qed (simp split: option.splits)

lemma clean_place_depth:
  assumes "clean_place (Destination m)"
  shows "depth m = Suc (length (path_elems (Destination m)))"
proof -
  let ?d = "Destination m" and ?es = "path_elems (Destination m)"
  have c: "filepath_Clean ?d = ?d" "is_rooted ?d" using assms by (simp_all add: clean_place_def)
  note es = canonical_rooted_elems [OF c]
  have "?es \<noteq> []" using es(1) assms by (auto simp: clean_place_def)
  with es(2) have "strings_Split (''/'' @ strings_Join ?es ''/'') CHR ''/'' = [] # ?es"
    by (simp add: Split_Join_proper)
  with es(1) have "strings_Split ?d CHR ''/'' = [] # ?es" by simp
  then show ?thesis by (simp add: depth_def)
qed

lemma below_depth: "below p c \<Longrightarrow> depth p < depth c"
  by (simp add: below_def clean_place_depth prefix_length_less)

lemma sorted_wrt_depth: "sorted (map depth ms) \<Longrightarrow> sorted_wrt (\<lambda>a b. \<not> below b a) ms"
proof (induction ms)
  case (Cons m ms)
  then show ?case by (auto dest!: below_depth)
qed simp

lemma dedup_values:
  assumes "dedup_inv d"
  shows "map Destination (map snd d) = map fst d" and "m \<in> set (map snd d) \<longleftrightarrow> map_of d (Destination m) = Some m"
proof -
  show dst: "map Destination (map snd d) = map fst d"
    using assms by (auto simp: dedup_inv_def list_all_iff)
  have "distinct (map fst d)" using assms by (simp add: dedup_inv_def gomap_ok_def)
  then have "map_of d (Destination m) = Some m \<longleftrightarrow> (Destination m, m) \<in> set d" by simp
  also have "\<dots> \<longleftrightarrow> m \<in> set (map snd d)"
    using assms by (force simp: dedup_inv_def list_all_iff)
  finally show "m \<in> set (map snd d) \<longleftrightarrow> map_of d (Destination m) = Some m" by simp
qed

text \<open>Any order of visiting the map, that is, any permutation.\<close>

definition reorders :: "('a list \<Rightarrow> 'a list) \<Rightarrow> bool" where
  "reorders ord \<longleftrightarrow> (\<forall>xs. mset (ord xs) = mset xs)"

lemma reorders_id [simp]: "reorders (\<lambda>xs. xs)" "reorders rev"
  by (simp_all add: reorders_def)

lemma mset_dedup_mounts: "reorders ord \<Longrightarrow> mset (dedup_mounts ord d) = mset (map snd d)"
  by (simp add: dedup_mounts_def reorders_def)

lemma set_dedup_mounts: "reorders ord \<Longrightarrow> set (dedup_mounts ord d) = set (map snd d)"
  using mset_dedup_mounts by (metis set_mset_mset)

lemma mount_set_code: "reorders ord \<Longrightarrow> mount_set dedup_inv addMounts map_of (dedup_mounts ord)"
proof (unfold_locales, goal_cases)
  case (1 s ms)
  then show ?case by (simp add: dedup_inv_addMounts)
next
  case (2 s ms dst)
  then show ?case by (simp add: map_of_addMounts)
next
  case (3 s)
  then show ?case using dedup_values(2) by (auto simp: set_dedup_mounts)
next
  case (4 s)
  have "mset (map Destination (dedup_mounts ord s)) = mset (map Destination (map snd s))"
    using mset_dedup_mounts [OF 4(1)] by (metis mset_map)
  then show ?case
    using 4(2) dedup_values(1) by (metis mset_eq_imp_distinct_iff dedup_inv_def gomap_ok_def)
next
  case (5 s)
  then show ?case by (intro sorted_wrt_depth) (simp add: dedup_mounts_def)
qed

interpretation visit: mount_set dedup_inv addMounts map_of "dedup_mounts (\<lambda>ms. ms)"
  by (rule mount_set_code) simp

lemma in_dedup_mounts:
  assumes "reorders ord"
  shows "m \<in> set (dedup_mounts ord (addMounts newMountDedup ms)) \<longleftrightarrow>
    find (\<lambda>x. Destination x = Destination m) ms = Some m"
  using mount_set.in_listing_add [OF mount_set_code [OF assms] dedup_inv_empty, of m ms]
  by (simp add: newMountDedup_def)

lemma distinct_dedup_mounts:
  assumes "reorders ord"
  shows "distinct (map Destination (dedup_mounts ord (addMounts newMountDedup ms)))"
  using mount_set.listing_distinct [OF mount_set_code [OF assms] dedup_inv_addMounts [OF dedup_inv_empty]] .

text \<open>The list of mounts has every destination once and holds, for each destination, the mount
  that was added first, whatever the order in which the map is visited.\<close>

lemma mounts_first_wins:
  assumes "reorders ord"
  shows "distinct (map Destination (dedup_mounts ord (addMounts newMountDedup ms))) \<and>
    (m \<in> set (dedup_mounts ord (addMounts newMountDedup ms)) \<longleftrightarrow>
       find (\<lambda>x. Destination x = Destination m) ms = Some m)"
  using distinct_dedup_mounts [OF assms] in_dedup_mounts [OF assms] by blast

definition example_mounts :: "SpecMount list" where
  "example_mounts = [IdentityMount ''/var/vcap/data/web'' [], IdentityMount ''/var'' [AllowExec], IdentityMount ''/var'' []]"

text \<open>C26: among the mounts whose destinations are absolute paths in cleaned form, the list puts a
  directory other than the root before every mount below it, element by element, whatever the order
  in which the map is visited; so no later mount hides an earlier one there. (For the root directory
  this fails, see \<open>root_mount_not_first\<close>.)\<close>

theorem mounts_parents_first:
  assumes "reorders ord" and "ms = dedup_mounts ord (addMounts newMountDedup added)"
    and "i < length ms" and "j < length ms"
    and "clean_place (Destination (ms ! i))" and "clean_place (Destination (ms ! j))"
    and "strict_prefix (path_elems (Destination (ms ! i))) (path_elems (Destination (ms ! j)))"
  shows "i < j"
  using mount_set.parent_first [OF mount_set_code [OF assms(1)] dedup_inv_addMounts [OF dedup_inv_empty]] assms(2-7)
  by (auto simp: below_def)

theorem mounts_parents_first_witness:
  "let ms = dedup_mounts (\<lambda>x. x) (addMounts newMountDedup example_mounts) in
     map Destination ms = [''/var'', ''/var/vcap/data/web''] \<and> (0::nat) < 1"
proof -
  let ?ms = "dedup_mounts (\<lambda>x. x) (addMounts newMountDedup example_mounts)"
  have ms: "?ms = [IdentityMount ''/var'' [AllowExec], IdentityMount ''/var/vcap/data/web'' []]"
    by (simp add: dedup_mounts_def newMountDedup_def example_mounts_def IdentityMount_def BindMount_def depth_def)
  have "(0::nat) < 1"
    by (rule mounts_parents_first [of "\<lambda>x. x" ?ms example_mounts 0 1])
      (unfold ms, simp_all add: IdentityMount_def BindMount_def clean_place_def is_rooted_def filepath_Clean_def path_elems_def render_path_def)
  with ms show ?thesis by (simp add: IdentityMount_def BindMount_def)
qed

text \<open>The root directory splits into two parts, as many as a directory directly below it, so that a
  volume \<open>/\<close> (only an unrestricted volume can name it) may be sorted behind \<open>/bin\<close> and cover it.\<close>

lemma root_mount_not_first:
  "\<exists>ord. reorders ord \<and>
     map Destination (dedup_mounts ord (addMounts newMountDedup [IdentityMount ''/bin'' [AllowExec], IdentityMount ''/'' []]))
       = [''/bin'', ''/'']"
  by (rule exI [of _ "\<lambda>x. x"])
    (simp add: dedup_mounts_def newMountDedup_def IdentityMount_def BindMount_def depth_def)

end
