(* ===== verification/JobConfig.thy ===== *)
theory JobConfig
  imports Bosh
begin

text \<open>
  Package \<open>config\<close>, \<open>src/bpm/config/job_config.go\<close>: the job configuration that \<open>bpm.yml\<close> holds, its
  validation, and the volumes and environment variables that \<open>bpm run\<close> adds. The YAML parser is a
  parameter (it is a vendored library). A \<open>nil\<close> pointer is \<open>None\<close>: a dereference of it panics.
\<close>

section \<open>Data\<close>

text \<open>The signals of \<open>src/bpm/runc/client/client.go\<close>.\<close>

datatype Signal = Signal_Term | Signal_Quit | Signal_Int

fun Signal_String :: "Signal \<Rightarrow> string" where
  "Signal_String Signal_Term = ''TERM''"
| "Signal_String Signal_Quit = ''QUIT''"
| "Signal_String Signal_Int = ''INT''"

record Volume =
  Path :: string
  Writable :: bool
  AllowExecutions :: bool
  MountOnly :: bool
  Shared :: bool

record Hooks =
  PreStart :: string

record Limits =
  Memory :: "string option"
  OpenFiles :: "64 word option"
  LProcesses :: "64 word option"
  CoreFileSize :: "64 word option"

record Unsafe =
  Privileged :: bool
  UnrestrictedVolumes :: "Volume list"
  HostPidNamespace :: bool

record ProcessConfig =
  Name :: string
  Executable :: string
  Args :: "string list"
  Env :: "(string, string) gomap option"
  AdditionalVolumes :: "Volume list"
  Capabilities :: "string list"
  EphemeralDisk :: bool
  PHooks :: "Hooks option"
  PLimits :: "Limits option"
  PersistentDisk :: bool
  WorkDir :: string
  PUnsafe :: "Unsafe option"
  ShutdownSignal :: string

record JobConfig =
  Processes :: "ProcessConfig option list"

text \<open>The environment variables as a loop over them sees them.\<close>

definition env_map :: "ProcessConfig \<Rightarrow> (string, string) gomap" where
  "env_map c = (case Env c of None \<Rightarrow> [] | Some m \<Rightarrow> m)"

section \<open>Validation\<close>

fun contains :: "string list \<Rightarrow> string \<Rightarrow> bool" where
  "contains [] s = False"
| "contains (elem # elements) s = (if s = elem then True else contains elements s)"

text \<open>The inner loop of \<open>pathIsIn\<close>: \<open>volParts[i] != validPart\<close> for the index of every valid part.\<close>

fun parts_match :: "string list \<Rightarrow> string list \<Rightarrow> bool" where
  "parts_match volParts [] = True"
| "parts_match [] (validPart # validParts) = False"
| "parts_match (volPart # volParts) (validPart # validParts) =
     (if volPart \<noteq> validPart then False else parts_match volParts validParts)"

fun pathIsIn :: "string \<Rightarrow> string list \<Rightarrow> bool" where
  "pathIsIn path [] = False"
| "pathIsIn path (pre # prefs) =
     (let volParts = strings_Split path CHR ''/'';
          validParts = strings_Split pre CHR ''/''
      in if length volParts \<le> length validParts then pathIsIn path prefs
         else if \<not> parts_match volParts validParts then pathIsIn path prefs
         else True)"

fun validate_volumes :: "bosh_env \<Rightarrow> string list \<Rightarrow> Volume list \<Rightarrow> unit res" where
  "validate_volumes be defaultVolumes [] = Ok ()"
| "validate_volumes be defaultVolumes (vol # vols) =
     (let volCleaned = filepath_Clean (Path vol) in
      if volCleaned \<noteq> Path vol
      then Err (Errorf ''volume path must be canonical, expected %s but got %s'' [AStr volCleaned, AStr (Path vol)])
      else if contains defaultVolumes volCleaned
      then Err (Errorf ''invalid volume path: %s cannot conflict with default job data or store directories'' [AStr (Path vol)])
      else if \<not> pathIsIn volCleaned [Path_External (Env_Root be)]
      then Err (Errorf ''invalid volume path: %s must be within %s'' [AStr (Path vol), AStr (Path_External (Env_Root be))])
      else validate_volumes be defaultVolumes vols)"

definition ProcessConfig_Validate :: "ProcessConfig \<Rightarrow> bosh_env \<Rightarrow> string list \<Rightarrow> unit res" where
  "ProcessConfig_Validate c be defaultVolumes =
     (if Name c = [] then Err (Errorf ''invalid config: name'' [])
      else if Executable c = [] then Err (Errorf ''invalid config: executable'' [])
      else bind_res (validate_volumes be defaultVolumes (AdditionalVolumes c))
        (\<lambda>_. if ShutdownSignal c \<noteq> [] \<and> ShutdownSignal c \<noteq> ''TERM'' \<and> ShutdownSignal c \<noteq> ''INT''
             then Err (Errorf (''shutdown signal should either be 'TERM' or 'INT' (or left unspecified), but got '' @ [CHR 0x27] @ ''%s'' @ [CHR 0x27]) [AStr (ShutdownSignal c)])
             else Ok ()))"

fun validate_processes :: "ProcessConfig option list \<Rightarrow> bosh_env \<Rightarrow> string list \<Rightarrow> unit res" where
  "validate_processes [] be defaultVolumes = Ok ()"
| "validate_processes (v # vs) be defaultVolumes =
     (case v of
        None \<Rightarrow> Abort (Panic ''nil pointer dereference'')
      | Some c \<Rightarrow> bind_res (ProcessConfig_Validate c be defaultVolumes)
          (\<lambda>_. validate_processes vs be defaultVolumes))"

definition JobConfig_Validate :: "JobConfig \<Rightarrow> bosh_env \<Rightarrow> string list \<Rightarrow> unit res" where
  "JobConfig_Validate c be defaultVolumes = validate_processes (Processes c) be defaultVolumes"

definition ParseShutdownSignal :: "ProcessConfig \<Rightarrow> Signal" where
  "ParseShutdownSignal c = (if ShutdownSignal c = ''INT'' then Signal_Int else Signal_Term)"

section \<open>Parsing\<close>

definition ParseJobConfig :: "(string \<Rightarrow> go_error + JobConfig) \<Rightarrow> string \<Rightarrow> JobConfig io" where
  "ParseJobConfig yaml_Unmarshal configPath =
     bindM (sys_text (ReadFile configPath)) (\<lambda>data. liftM (res_sum (yaml_Unmarshal data)))"

text \<open>The method of \<open>BPMConfig\<close> of the same name, in \<open>bpm_config.go\<close>.\<close>

definition cfg_ParseJobConfig :: "(string \<Rightarrow> go_error + JobConfig) \<Rightarrow> bpm_config \<Rightarrow> JobConfig io" where
  "cfg_ParseJobConfig yaml_Unmarshal c =
     bindM (ParseJobConfig yaml_Unmarshal (cfg_JobConfig c)) (\<lambda>cfg.
     bindM (liftM (JobConfig_Validate cfg (boshEnv c) (cfg_DefaultVolumes c))) (\<lambda>_.
     returnM cfg))"

section \<open>Additions of bpm run\<close>

fun volume_options :: "string list \<Rightarrow> Volume \<Rightarrow> Volume res" where
  "volume_options [] v = Ok v"
| "volume_options (opt # opts) v =
     (if opt = ''writable'' then volume_options opts (v\<lparr>Writable := True\<rparr>)
      else if opt = ''mount_only'' then volume_options opts (v\<lparr>MountOnly := True\<rparr>)
      else if opt = ''allow_executions'' then volume_options opts (v\<lparr>AllowExecutions := True\<rparr>)
      else if opt = ''shared'' then volume_options opts (v\<lparr>Shared := True\<rparr>)
      else Err (Errorf ''invalid volume option: %s'' [AStr opt]))"

definition parse_volume :: "string \<Rightarrow> Volume res" where
  "parse_volume volume =
     (let fields = strings_Split volume CHR '':'' in
      if length fields > 2
      then Err (Errorf ''invalid volume definition (format: <path>[:<options>]): %s'' [AStr volume])
      else let v = \<lparr>Path = hd fields, Writable = False, AllowExecutions = False, MountOnly = False, Shared = False\<rparr>
           in if length fields = 2 then volume_options (strings_Split (fields ! 1) CHR '','') v else Ok v)"

text \<open>The configuration is changed in place: a failing call returns the configuration with the
  volumes added so far.\<close>

fun add_volumes_loop :: "string list \<Rightarrow> ProcessConfig \<Rightarrow> unit res \<times> ProcessConfig" where
  "add_volumes_loop [] c = (Ok (), c)"
| "add_volumes_loop (volume # volumes) c =
     (case parse_volume volume of
        Ok v \<Rightarrow> add_volumes_loop volumes (c\<lparr>AdditionalVolumes := AdditionalVolumes c @ [v]\<rparr>)
      | Err e \<Rightarrow> (Err e, c)
      | Abort x \<Rightarrow> (Abort x, c))"

definition AddVolumes :: "string list \<Rightarrow> bosh_env \<Rightarrow> string list \<Rightarrow> ProcessConfig \<Rightarrow> unit res \<times> ProcessConfig" where
  "AddVolumes volumes be defaultVolumes c =
     (case add_volumes_loop volumes c of
        (r, c') \<Rightarrow> (bind_res r (\<lambda>_. ProcessConfig_Validate c' be defaultVolumes), c'))"

fun add_env_loop :: "string list \<Rightarrow> (string, string) gomap \<Rightarrow> unit res \<times> (string, string) gomap" where
  "add_env_loop [] m = (Ok (), m)"
| "add_env_loop (e # es) m =
     (case strings_SplitN2 e CHR ''='' of
        key # value # _ \<Rightarrow> add_env_loop es (gomap_set key value m)
      | _ \<Rightarrow> (Err (Errorf ''invalid envionment variable definition (format should be KEY=value): %q'' [AStr e]), m))"

definition AddEnvVars :: "string list \<Rightarrow> bosh_env \<Rightarrow> string list \<Rightarrow> ProcessConfig \<Rightarrow> unit res \<times> ProcessConfig" where
  "AddEnvVars es be defaultVolumes c =
     (case add_env_loop es (env_map c) of
        (r, m) \<Rightarrow>
          let c' = c\<lparr>Env := Some m\<rparr>
          in (bind_res r (\<lambda>_. ProcessConfig_Validate c' be defaultVolumes), c'))"

section \<open>What validation accepts\<close>

lemma contains_iff [simp]: "contains xs s \<longleftrightarrow> s \<in> set xs"
  by (induction xs) auto

lemma parts_match_iff: "parts_match vs ps \<longleftrightarrow> prefix ps vs"
  by (induction vs ps rule: parts_match.induct) auto

lemma strict_prefix_parts:
  "\<not> length vs \<le> length ps \<and> parts_match vs ps \<longleftrightarrow> strict_prefix ps vs"
  by (auto simp: parts_match_iff strict_prefix_def dest: prefix_length_le)
     (metis append_Nil2 append_eq_conv_conj le_antisym prefix_def prefix_length_le take_all)

lemma pathIsIn_iff:
  "pathIsIn path prefs \<longleftrightarrow>
     (\<exists>p\<in>set prefs. strict_prefix (strings_Split p CHR ''/'') (strings_Split path CHR ''/''))"
  by (induction path prefs rule: pathIsIn.induct) (auto simp: Let_def strict_prefix_parts [symmetric])

definition volume_ok :: "bosh_env \<Rightarrow> string list \<Rightarrow> Volume \<Rightarrow> bool" where
  "volume_ok be defaultVolumes vol \<longleftrightarrow>
     filepath_Clean (Path vol) = Path vol \<and> Path vol \<notin> set defaultVolumes \<and>
     strict_prefix (strings_Split (Path_External (Env_Root be)) CHR ''/'') (strings_Split (Path vol) CHR ''/'')"

lemma validate_volumes_Ok:
  "validate_volumes e ds vols = Ok () \<longleftrightarrow> (\<forall>vol\<in>set vols. volume_ok e ds vol)"
  by (induction vols) (auto simp: Let_def volume_ok_def pathIsIn_iff)

lemma validate_volumes_no_Abort: "validate_volumes e ds vols \<noteq> Abort x"
  by (induction vols) (auto simp: Let_def)

definition signal_ok :: "string \<Rightarrow> bool" where
  "signal_ok s \<longleftrightarrow> s = [] \<or> s = ''TERM'' \<or> s = ''INT''"

lemma ProcessConfig_Validate_Ok:
  "ProcessConfig_Validate c e ds = Ok () \<longleftrightarrow>
     Name c \<noteq> [] \<and> Executable c \<noteq> [] \<and> (\<forall>vol\<in>set (AdditionalVolumes c). volume_ok e ds vol) \<and>
     signal_ok (ShutdownSignal c)"
  by (auto simp: ProcessConfig_Validate_def bind_res_eq_Ok validate_volumes_Ok signal_ok_def)

lemma validate_processes_Ok:
  "validate_processes ps e ds = Ok () \<longleftrightarrow>
     (\<forall>p\<in>set ps. \<exists>c. p = Some c \<and> ProcessConfig_Validate c e ds = Ok ())"
  by (induction ps) (auto simp: bind_res_eq_Ok split: option.splits)

text \<open>C31: validation of a job configuration succeeds exactly when every process is present, has a name
  and an executable, an allowed shutdown signal, and only volumes whose path is canonical, is not
  one of the default directories and has the elements of the root as a strict prefix.\<close>

theorem job_config_validate_iff:
  "JobConfig_Validate cfg e ds = Ok () \<longleftrightarrow>
     list_all (\<lambda>p. case p of
         None \<Rightarrow> False
       | Some c \<Rightarrow> Name c \<noteq> [] \<and> Executable c \<noteq> [] \<and> signal_ok (ShutdownSignal c) \<and>
           list_all (volume_ok e ds) (AdditionalVolumes c)) (Processes cfg)"
  by (auto simp: JobConfig_Validate_def validate_processes_Ok ProcessConfig_Validate_Ok list_all_iff
      split: option.splits)

text \<open>A process entry that is \<open>nil\<close> after valid entries makes validation panic instead of
  returning an error.\<close>

lemma validate_nil_process_panics:
  assumes "\<forall>c\<in>set cs. ProcessConfig_Validate c e ds = Ok ()"
  shows "JobConfig_Validate \<lparr>Processes = map Some cs @ None # ps\<rparr> e ds = Abort (Panic ''nil pointer dereference'')"
  using assms by (induction cs) (auto simp: JobConfig_Validate_def)

definition example_process :: ProcessConfig where
  "example_process =
     \<lparr>Name = ''web'', Executable = ''/bin/web'', Args = [], Env = None,
      AdditionalVolumes = [\<lparr>Path = ''/var/vcap/data/shared'', Writable = True, AllowExecutions = False, MountOnly = False, Shared = False\<rparr>],
      Capabilities = [], EphemeralDisk = False, PHooks = None, PLimits = None, PersistentDisk = False,
      WorkDir = [], PUnsafe = None, ShutdownSignal = []\<rparr>"

lemma Split_DefaultRoot: "strings_Split (Path_External (Env_Root (NewEnv []))) CHR ''/'' = [[], ''var'', ''vcap'']"
  by code_simp

lemma example_process_volumes:
  "volume_ok (NewEnv []) [''/var/vcap/data/web''] (hd (AdditionalVolumes example_process))"
proof -
  have "filepath_Clean ''/var/vcap/data/shared'' = ''/var/vcap/data/shared''" by code_simp
  moreover have "strings_Split ''/var/vcap/data/shared'' CHR ''/'' = [[], ''var'', ''vcap'', ''data'', ''shared'']"
    by code_simp
  ultimately show ?thesis
    by (simp add: volume_ok_def example_process_def Split_DefaultRoot)
qed

lemma example_process_valid:
  "ProcessConfig_Validate example_process (NewEnv []) [''/var/vcap/data/web''] = Ok ()"
  using example_process_volumes by (simp add: ProcessConfig_Validate_Ok example_process_def signal_ok_def)

section \<open>Volumes stay below the root\<close>

lemma Split_rooted_path:
  "list_all proper_elem es \<Longrightarrow>
    strings_Split (rooted_path es) CHR ''/'' = [] # (if es = [] then [[]] else es)"
  by (simp add: rooted_path_def Split_Join_proper)

lemma volume_ok_contained:
  assumes "is_rooted (env_root e)" and "volume_ok e ds vol"
  obtains es where "es \<noteq> []" and "Path vol = rooted_path (path_elems (env_root e) @ es)"
    and "list_all proper_elem (path_elems (env_root e) @ es)"
proof -
  let ?rs = "path_elems (env_root e)"
  have rs: "list_all proper_elem ?rs" using assms(1) by (rule path_elems_rooted_proper)
  have root: "Path_External (Env_Root e) = rooted_path ?rs"
    using External_path_of [of "env_root e" "[]"] assms(1) by (simp add: Env_Root_path_of)
  from assms(2) have canon: "filepath_Clean (Path vol) = Path vol"
    and sp: "strict_prefix ([] # (if ?rs = [] then [[]] else ?rs)) (strings_Split (Path vol) CHR ''/'')"
    using rs by (simp_all add: volume_ok_def root Split_rooted_path)
  then obtain t ts where split: "strings_Split (Path vol) CHR ''/'' = [] # t # ts"
    by (cases "?rs") (auto simp: strict_prefix_def prefix_def)
  then have "is_rooted (Path vol)"
    by (cases "Path vol") (auto simp: is_rooted_def split: if_splits list.splits)
  note vol = canonical_rooted_elems [OF canon this]
  from vol have vs: "Path vol = rooted_path (path_elems (Path vol))" by (simp add: rooted_path_def)
  have ne: "path_elems (Path vol) \<noteq> []"
  proof
    assume "path_elems (Path vol) = []"
    then have "strings_Split (Path vol) CHR ''/'' = [[], []]" using vs vol(2) by (metis Split_rooted_path)
    with sp show False by (cases "?rs") (auto simp: strict_prefix_def prefix_def)
  qed
  have "strings_Split (Path vol) CHR ''/'' = [] # path_elems (Path vol)"
    using vs vol(2) ne by (metis Split_rooted_path)
  with sp have sp': "strict_prefix (if ?rs = [] then [[]] else ?rs) (path_elems (Path vol))"
    by (simp add: strict_prefix_def)
  have "?rs \<noteq> []"
    using sp' vol(2) by (auto simp: strict_prefix_def prefix_def proper_elem_def)
  with sp' obtain es where "path_elems (Path vol) = ?rs @ es" "es \<noteq> []"
    by (auto simp: strict_prefix_def prefix_def)
  with that [of es] vs vol(2) show ?thesis by metis
qed

text \<open>C17: every additional volume of a validated process lies strictly below the root: its path is the
  root's elements followed by at least one more, all of them proper names, so neither \<open>..\<close> nor an
  unclean spelling can leave the root.\<close>

theorem validated_volume_contained:
  assumes "is_rooted (env_root e)" and "ProcessConfig_Validate c e ds = Ok ()"
    and "vol \<in> set (AdditionalVolumes c)"
  shows "\<exists>es. es \<noteq> [] \<and> Path vol = rooted_path (path_elems (env_root e) @ es) \<and>
    list_all proper_elem (path_elems (env_root e) @ es) \<and> Path vol \<notin> set ds"
proof -
  from assms(2,3) have ok: "volume_ok e ds vol" by (simp add: ProcessConfig_Validate_Ok)
  with assms(1) show ?thesis
    by (rule volume_ok_contained) (use ok in \<open>auto simp: volume_ok_def\<close>)
qed

theorem validated_volume_contained_witness:
  "ProcessConfig_Validate example_process (NewEnv []) [''/var/vcap/data/web''] = Ok () \<and>
   (\<exists>es. es \<noteq> [] \<and> ''/var/vcap/data/shared'' = rooted_path (path_elems ''/var/vcap'' @ es))"
  using validated_volume_contained [of "NewEnv []" example_process "[''/var/vcap/data/web'']"
      "hd (AdditionalVolumes example_process)"] example_process_valid
  by (auto simp: NewEnv_def DefaultRoot_def is_rooted_def example_process_def)

section \<open>Volumes and variables from the command line\<close>

text \<open>The text form of a volume, as the \<open>-v\<close> flag of \<open>bpm run\<close> takes it.\<close>

definition volume_flag_options :: "Volume \<Rightarrow> string list" where
  "volume_flag_options v =
     (if Writable v then [''writable''] else []) @ (if MountOnly v then [''mount_only''] else []) @
     (if AllowExecutions v then [''allow_executions''] else []) @ (if Shared v then [''shared''] else [])"

definition volume_flag :: "Volume \<Rightarrow> string" where
  "volume_flag v =
     (if volume_flag_options v = [] then Path v
      else Path v @ '':'' @ strings_Join (volume_flag_options v) '','')"

lemma volume_flag_options_chars:
  "o' \<in> set (volume_flag_options v) \<Longrightarrow> CHR '':'' \<notin> set o' \<and> CHR '','' \<notin> set o'"
  by (auto simp: volume_flag_options_def split: if_splits)

lemma strings_Join_chars: "c \<in> set (strings_Join ss sep) \<Longrightarrow> c \<in> set sep \<or> (\<exists>s\<in>set ss. c \<in> set s)"
  by (induction ss sep rule: strings_Join.induct) auto

lemma volume_options_flag:
  "volume_options (volume_flag_options v)
     \<lparr>Path = Path v, Writable = False, AllowExecutions = False, MountOnly = False, Shared = False\<rparr> = Ok v"
  by (cases "Writable v"; cases "MountOnly v"; cases "AllowExecutions v"; cases "Shared v")
     (simp_all add: volume_flag_options_def)

text \<open>C32: parsing the text form of a volume gives the volume back, for every combination of options
  and every path without a colon.\<close>

theorem parse_volume_roundtrip:
  assumes "CHR '':'' \<notin> set (Path v)"
  shows "parse_volume (volume_flag v) = Ok v"
proof (cases "volume_flag_options v = []")
  case True
  then have "volume_options [] \<lparr>Path = Path v, Writable = False, AllowExecutions = False, MountOnly = False, Shared = False\<rparr> = Ok v"
    using volume_options_flag [of v] by simp
  with True assms show ?thesis by (simp add: volume_flag_def parse_volume_def)
next
  case False
  let ?opts = "strings_Join (volume_flag_options v) '',''"
  have no: "CHR '':'' \<notin> set ?opts"
    using volume_flag_options_chars [of _ v] by (auto dest!: strings_Join_chars)
  have split: "strings_Split (volume_flag v) CHR '':'' = [Path v, ?opts]"
    using False assms no by (simp add: volume_flag_def strings_Split_append_sep)
  have "strings_Split ?opts CHR '','' = volume_flag_options v"
    using False volume_flag_options_chars [of _ v] by (intro strings_Split_Join) auto
  then show ?thesis
    using split volume_options_flag [of v] by (simp add: parse_volume_def)
qed

theorem parse_volume_roundtrip_witness:
  "CHR '':'' \<notin> set (Path (hd (AdditionalVolumes example_process))) \<and>
   parse_volume ''/var/vcap/data/shared:writable'' = Ok (hd (AdditionalVolumes example_process))"
  using parse_volume_roundtrip [of "hd (AdditionalVolumes example_process)"]
  by (simp add: example_process_def volume_flag_def volume_flag_options_def)

lemma add_volumes_loop_Ok:
  "add_volumes_loop vs c = (Ok (), c') \<longleftrightarrow>
     (\<exists>new. map parse_volume vs = map Ok new \<and> c' = c\<lparr>AdditionalVolumes := AdditionalVolumes c @ new\<rparr>)"
proof (induction vs arbitrary: c)
  case (Cons v vs)
  show ?case
  proof (cases "parse_volume v")
    case (Ok x)
    with Cons show ?thesis by (auto simp: Cons_eq_map_conv)
  qed auto
qed auto

lemma AddVolumes_Ok:
  "AddVolumes vs e ds c = (Ok (), c') \<longleftrightarrow>
     add_volumes_loop vs c = (Ok (), c') \<and> ProcessConfig_Validate c' e ds = Ok ()"
  by (cases "add_volumes_loop vs c") (auto simp: AddVolumes_def bind_res_eq_Ok)

text \<open>\<open>AddVolumes\<close> succeeds exactly when every flag parses and the configuration with the parsed
  volumes appended validates; nothing else of the configuration changes. Volumes from the command
  line are therefore held to the same rules as those of the file.\<close>

lemma add_volumes_iff:
  "AddVolumes vs e ds c = (Ok (), c') \<longleftrightarrow>
     (\<exists>new. map parse_volume vs = map Ok new \<and>
        c' = c\<lparr>AdditionalVolumes := AdditionalVolumes c @ new\<rparr> \<and> ProcessConfig_Validate c' e ds = Ok ())"
  by (auto simp: AddVolumes_Ok add_volumes_loop_Ok)

definition env_pair :: "string \<Rightarrow> string \<times> string" where
  "env_pair e = (takeWhile (\<lambda>x. x \<noteq> CHR ''='') e, tl (dropWhile (\<lambda>x. x \<noteq> CHR ''='') e))"

lemma add_env_loop_Ok:
  "add_env_loop es m = (Ok (), m') \<longleftrightarrow>
     list_all (\<lambda>e. CHR ''='' \<in> set e) es \<and> m' = fold (\<lambda>e. gomap_set (fst (env_pair e)) (snd (env_pair e))) es m"
  by (induction es arbitrary: m) (auto simp: strings_SplitN2_cases env_pair_def)

lemma map_of_fold_env:
  "map_of (fold (\<lambda>e. gomap_set (fst (env_pair e)) (snd (env_pair e))) es m) =
     map_of m ++ map_of (rev (map env_pair es))"
  by (induction es arbitrary: m) (auto simp: map_add_def fun_eq_iff split: option.splits)

lemma gomap_ok_fold_env:
  "gomap_ok m \<Longrightarrow> gomap_ok (fold (\<lambda>e. gomap_set (fst (env_pair e)) (snd (env_pair e))) es m)"
  by (induction es arbitrary: m) auto

text \<open>After a successful \<open>AddEnvVars\<close> every definition had an equals sign, the variables are the
  configured ones overridden by the given ones, the last definition of a key wins, a value keeps
  its further equals signs, and the variables are still a map.\<close>

lemma add_env_vars_spec:
  assumes "AddEnvVars es e ds c = (Ok (), c')" and "gomap_ok (env_map c)"
  shows "list_all (\<lambda>d. CHR ''='' \<in> set d) es \<and>
    map_of (env_map c') = map_of (env_map c) ++ map_of (rev (map env_pair es)) \<and>
    gomap_ok (env_map c') \<and> ProcessConfig_Validate c' e ds = Ok ()"
proof -
  obtain r m where l: "add_env_loop es (env_map c) = (r, m)" by (cases "add_env_loop es (env_map c)")
  with assms(1) have "r = Ok ()" and c': "c' = c\<lparr>Env := Some m\<rparr>" and v: "ProcessConfig_Validate c' e ds = Ok ()"
    by (auto simp: AddEnvVars_def Let_def bind_res_eq_Ok)
  with l have "list_all (\<lambda>d. CHR ''='' \<in> set d) es"
    and m: "m = fold (\<lambda>d. gomap_set (fst (env_pair d)) (snd (env_pair d))) es (env_map c)"
    by (auto simp: add_env_loop_Ok)
  moreover have "env_map c' = m" using c' by (simp add: env_map_def)
  ultimately show ?thesis
    using v assms(2) by (simp add: map_of_fold_env gomap_ok_fold_env)
qed

end
