(* ===== verification/Adapter.thy ===== *)
theory Adapter
  imports Mounts JobConfig
begin

text \<open>
  \<open>src/bpm/runc/adapter/adapter.go\<close>: the directories, files and owners a job needs before it starts
  (\<open>CreateJobPrerequisites\<close>) and the container specification (\<open>BuildSpec\<close>). The adapter's function
  fields (glob, mount sharing, volume locks, cgroup path) are fields of a record, as in the source;
  the order in which the mount map is visited and the vendored byte-size parser are parameters.
\<close>

section \<open>The adapter\<close>

record RuncAdapter =
  a_features :: Features
  a_glob :: "string \<Rightarrow> string list io"
  a_shareMount :: "string \<Rightarrow> unit io"
  a_LockVolume :: "string \<Rightarrow> Flock io"
  a_cgroupsPathFor :: "(string \<Rightarrow> string io) option"

definition NewRuncAdapter ::
  "Features \<Rightarrow> (string \<Rightarrow> string list io) \<Rightarrow> (string \<Rightarrow> unit io) \<Rightarrow> (string \<Rightarrow> Flock io) \<Rightarrow>
   (string \<Rightarrow> string io) option \<Rightarrow> RuncAdapter" where
  "NewRuncAdapter features glob mountSharer locker cgroupsPathFor =
     \<lparr>a_features = features, a_glob = glob, a_shareMount = mountSharer, a_LockVolume = locker,
      a_cgroupsPathFor = cgroupsPathFor\<rparr>"

definition perm_0700 :: nat where "perm_0700 = 448"

definition user_uid :: "User \<Rightarrow> int" where "user_uid user = uint (UID user)"
definition user_gid :: "User \<Rightarrow> int" where "user_gid user = uint (GID user)"

section \<open>Prerequisites\<close>

definition checkDirExists :: "string \<Rightarrow> bool io" where
  "checkDirExists d =
     bindM (attemptM (sys_stat (Stat d))) (\<lambda>r.
       case r of
         Inr _ \<Rightarrow> returnM True
       | Inl err \<Rightarrow> if \<not> os_IsNotExist err then throwM err else returnM False)"

definition makeShared :: "RuncAdapter \<Rightarrow> Volume \<Rightarrow> unit io" where
  "makeShared a volume =
     bindM (a_LockVolume a (Path volume)) (\<lambda>held.
     deferM (a_shareMount a (Path volume)) (flock_Unlock held))"

definition createDirFor :: "string \<Rightarrow> int \<Rightarrow> int \<Rightarrow> unit io" where
  "createDirFor path uid gid = thenM (sys_err (MkdirAll path perm_0700)) (sys_err (Chown path uid gid))"

definition createDirs :: "string list \<Rightarrow> User \<Rightarrow> unit io" where
  "createDirs dirs user = forM dirs (\<lambda>d. createDirFor d (user_uid user) (user_gid user))"

definition chownPaths :: "string list \<Rightarrow> User \<Rightarrow> unit io" where
  "chownPaths paths user = forM paths (\<lambda>path. sys_err (Chown path (user_uid user) (user_gid user)))"

text \<open>The loop of \<open>createLogFiles\<close>; the files opened so far are closed when one cannot be opened.\<close>

fun open_log_files :: "string list \<Rightarrow> User \<Rightarrow> nat list \<Rightarrow> nat list io" where
  "open_log_files [] user files = returnM files"
| "open_log_files (path # paths) user files =
     bindM (attemptM (OpenAppendChown path (user_uid user) (user_gid user) perm_0600)) (\<lambda>r.
       case r of
         Inl err \<Rightarrow> thenM (forM files (\<lambda>f. ignoreM (sys_err (CloseFd f)))) (throwM err)
       | Inr f \<Rightarrow> open_log_files paths user (files @ [f]))"

definition createLogFiles :: "bpm_config \<Rightarrow> User \<Rightarrow> (nat \<times> nat) io" where
  "createLogFiles bpmCfg user =
     bindM (open_log_files [Path_External (cfg_Stdout bpmCfg), Path_External (cfg_Stderr bpmCfg)] user [])
       (\<lambda>files. returnM (files ! 0, files ! 1))"

text \<open>The loop over the additional volumes, with the directories to create and the paths to chown.\<close>

fun prepare_volumes :: "RuncAdapter \<Rightarrow> Volume list \<Rightarrow> string list \<Rightarrow> string list \<Rightarrow> (string list \<times> string list) io" where
  "prepare_volumes a [] dirsToCreate pathsToChown = returnM (dirsToCreate, pathsToChown)"
| "prepare_volumes a (vol # vols) dirsToCreate pathsToChown =
     thenM (if Shared vol then makeShared a vol else returnM ())
     (if MountOnly vol then prepare_volumes a vols dirsToCreate pathsToChown
      else bindM (attemptM (sys_stat (Stat (Path vol)))) (\<lambda>r.
        case r of
          Inl err \<Rightarrow>
            if os_IsNotExist err
            then prepare_volumes a vols (dirsToCreate @ [Path vol]) (pathsToChown @ [Path vol])
            else throwM err
        | Inr fi \<Rightarrow>
            thenM (if fi_IsDir fi \<and> fi_Mode fi \<noteq> word_of_nat perm_0700
                   then sys_err (Chmod (Path vol) perm_0700) else returnM ())
            (prepare_volumes a vols dirsToCreate (pathsToChown @ [Path vol]))))"

definition CreateJobPrerequisites :: "RuncAdapter \<Rightarrow> bpm_config \<Rightarrow> ProcessConfig \<Rightarrow> User \<Rightarrow> (nat \<times> nat) io" where
  "CreateJobPrerequisites a bpmCfg procCfg user =
     thenM (sys_err (MkdirAll (Path_External (cfg_PidDir bpmCfg)) perm_0700))
     (bindM (prepare_volumes a (AdditionalVolumes procCfg) [] []) (\<lambda>(dirs, pathsToChown).
      let dirs1 = dirs @ [Path_External (cfg_LogDir bpmCfg), Path_External (cfg_SocketDir bpmCfg),
                          Path_External (cfg_TempDir bpmCfg)];
          dirs2 = (if EphemeralDisk procCfg then dirs1 @ [Path_External (cfg_DataDir bpmCfg)] else dirs1)
      in bindM
           (if PersistentDisk procCfg
            then (let storeDir = Path_External (cfg_StoreDir bpmCfg) in
                  bindM (checkDirExists (filepath_Dir storeDir)) (\<lambda>storeExists.
                  if \<not> storeExists then throwM (Errorf ''requested persistent disk does not exist'' [])
                  else returnM (dirs2 @ [storeDir])))
            else returnM dirs2) (\<lambda>dirsToCreate.
         thenM (createDirs dirsToCreate user)
         (thenM (chownPaths pathsToChown user)
         (createLogFiles bpmCfg user)))))"

section \<open>The specification\<close>

definition resolvConfDir :: string where "resolvConfDir = ''/run/resolvconf''"
definition systemdResolvedConfDir :: string where "systemdResolvedConfDir = ''/run/systemd/resolve''"
definition defaultLang :: string where "defaultLang = ''en_US.UTF-8''"

fun under_bosh_mount :: "SpecMount list \<Rightarrow> Volume \<Rightarrow> bool" where
  "under_bosh_mount [] v = False"
| "under_bosh_mount (m # ms) v =
     (let boshMountDirParts = strings_Split (Destination m) CHR ''/'';
          volumeDirParts = strings_Split (Path v) CHR ''/''
      in (length boshMountDirParts \<le> length volumeDirParts \<and>
          boshMountDirParts = take (length boshMountDirParts) volumeDirParts) \<or> under_bosh_mount ms v)"

definition filterVolumesUnderBoshMounts :: "SpecMount list \<Rightarrow> Volume list \<Rightarrow> Volume list" where
  "filterVolumesUnderBoshMounts bms unrestrictedVolumes = filter (\<lambda>v. \<not> under_bosh_mount bms v) unrestrictedVolumes"

definition wrapWithInit :: "bpm_config \<Rightarrow> ProcessConfig \<Rightarrow> string \<times> string list" where
  "wrapWithInit bpmCfg procCfg =
     (Path_Internal (cfg_TiniPath bpmCfg), [''-w'', ''-s'', ''--'', Executable procCfg] @ Args procCfg)"

definition systemIdentityMounts :: "SpecMount list" where
  "systemIdentityMounts =
     [IdentityMount ''/bin'' [AllowExec], IdentityMount ''/etc'' [AllowExec], IdentityMount ''/lib'' [AllowExec],
      IdentityMount ''/lib64'' [AllowExec], IdentityMount ''/sbin'' [AllowExec], IdentityMount ''/usr'' [AllowExec]]"

definition boshMounts :: "bpm_config \<Rightarrow> bool \<Rightarrow> bool \<Rightarrow> SpecMount list" where
  "boshMounts bpmCfg mountData mountStore =
     (let jobDir = cfg_JobDir bpmCfg; logDir = cfg_LogDir bpmCfg; tmpDir = cfg_TempDir bpmCfg;
          packageDir = cfg_PackageDir bpmCfg; dataPackageDir = cfg_DataPackageDir bpmCfg;
          dataDir = cfg_DataDir bpmCfg; storeDir = cfg_StoreDir bpmCfg
      in [BindMount (Path_External tmpDir) ''/tmp'' [WithRecursiveBind, AllowWrites],
          BindMount (Path_External tmpDir) ''/var/tmp'' [WithRecursiveBind, AllowWrites],
          BindMount (Path_External tmpDir) (Path_Internal tmpDir) [WithRecursiveBind, AllowWrites],
          BindMount (Path_External dataPackageDir) (Path_Internal dataPackageDir) [AllowExec],
          BindMount (Path_External packageDir) (Path_Internal packageDir) [AllowExec],
          BindMount (Path_External jobDir) (Path_Internal jobDir) [AllowExec],
          BindMount (Path_External logDir) (Path_Internal logDir) [WithRecursiveBind, AllowWrites]] @
         (if mountData then [BindMount (Path_External dataDir) (Path_Internal dataDir) [WithRecursiveBind, AllowWrites]] else []) @
         (if mountStore then [BindMount (Path_External storeDir) (Path_Internal storeDir) [WithRecursiveBind, AllowWrites]] else []))"

fun globExpandVolumes :: "RuncAdapter \<Rightarrow> Volume list \<Rightarrow> Volume list io" where
  "globExpandVolumes a [] = returnM []"
| "globExpandVolumes a (volume # volumes) =
     bindM (a_glob a (Path volume)) (\<lambda>matches.
     bindM (globExpandVolumes a volumes) (\<lambda>rest.
     returnM (map (\<lambda>m. volume\<lparr>Path := m\<rparr>) matches @ rest)))"

definition userProvidedIdentityMounts :: "bpm_config \<Rightarrow> Volume list \<Rightarrow> SpecMount list" where
  "userProvidedIdentityMounts bpmCfg volumes =
     map (\<lambda>vol. IdentityMount (Path vol)
       ([WithRecursiveBind] @ (if AllowExecutions vol then [AllowExec] else []) @
        (if Writable vol then [AllowWrites] else []))) volumes"

definition defaultPath :: "bpm_config \<Rightarrow> string" where
  "defaultPath c =
     Path_Internal (Path_Join (cfg_JobDir c) [''bin'']) @
     '':/usr/local/bin:/usr/local/sbin:/usr/bin:/usr/sbin:/bin:/sbin:.''"

definition default_var :: "(string, string) gomap \<Rightarrow> string \<Rightarrow> string \<Rightarrow> string list" where
  "default_var e k v = (case map_of e k of Some _ \<Rightarrow> [] | None \<Rightarrow> [k @ ''='' @ v])"

definition processEnvironment :: "(string, string) gomap \<Rightarrow> bpm_config \<Rightarrow> string list" where
  "processEnvironment e c =
     map (\<lambda>(k, v). k @ ''='' @ v) e @
     default_var e ''TMPDIR'' (Path_Internal (cfg_TempDir c)) @
     default_var e ''LANG'' defaultLang @
     default_var e ''PATH'' (defaultPath c) @
     default_var e ''HOME'' (Path_Internal (cfg_DataDir c))"

definition processCapabilities :: "string list \<Rightarrow> string list" where
  "processCapabilities caps = map (\<lambda>cap. ''CAP_'' @ cap) caps"

text \<open>The limits that are set, applied in the order of the source.\<close>

definition limit_options ::
  "(string \<Rightarrow> go_error + 64 word) \<Rightarrow> Features \<Rightarrow> Limits option \<Rightarrow> SpecOption list res" where
  "limit_options toBytes features limits =
     (case limits of
        None \<Rightarrow> Ok []
      | Some l \<Rightarrow>
          bind_res (case Memory l of
                      None \<Rightarrow> Ok []
                    | Some s \<Rightarrow> bind_res (res_sum (toBytes s)) (\<lambda>memLimit. Ok [WithMemoryLimit memLimit features]))
            (\<lambda>mem. Ok (mem @
              (case LProcesses l of None \<Rightarrow> [] | Some n \<Rightarrow> [WithPidLimit n]) @
              (case OpenFiles l of None \<Rightarrow> [] | Some n \<Rightarrow> [WithOpenFileLimit n]) @
              (case CoreFileSize l of None \<Rightarrow> [] | Some n \<Rightarrow> [WithCoreFileSizeLimit n]))))"

definition optional_mount :: "string \<Rightarrow> SpecMount list io" where
  "optional_mount d = bindM (checkDirExists d) (\<lambda>e. returnM (if e then [IdentityMount d []] else []))"

definition unrestricted_mounts :: "RuncAdapter \<Rightarrow> bpm_config \<Rightarrow> ProcessConfig \<Rightarrow> SpecMount list \<Rightarrow> SpecMount list io" where
  "unrestricted_mounts a bpmCfg procCfg bms =
     (case PUnsafe procCfg of
        None \<Rightarrow> returnM []
      | Some u \<Rightarrow>
          if UnrestrictedVolumes u = [] then returnM []
          else bindM (globExpandVolumes a (UnrestrictedVolumes u)) (\<lambda>expanded.
            returnM (userProvidedIdentityMounts bpmCfg (filterVolumesUnderBoshMounts bms expanded))))"

definition base_options ::
  "bpm_config \<Rightarrow> ProcessConfig \<Rightarrow> User \<Rightarrow> SpecMount list \<Rightarrow> SpecOption list" where
  "base_options bpmCfg procCfg user ms =
     (let (wrappedExe, wrappedArgs) = wrapWithInit bpmCfg procCfg;
          cwd = (if WorkDir procCfg \<noteq> [] then WorkDir procCfg else Path_Internal (cfg_JobDir bpmCfg))
      in [WithRootFilesystem (cfg_RootFSPath bpmCfg),
          WithUser user,
          WithProcess wrappedExe wrappedArgs (processEnvironment (env_map procCfg) bpmCfg) cwd,
          WithCapabilities (processCapabilities (Capabilities procCfg)),
          WithMounts ms,
          WithNamespace ''ipc'', WithNamespace ''mount'', WithNamespace ''uts''])"

definition unsafe_options :: "Features \<Rightarrow> ProcessConfig \<Rightarrow> SpecOption list" where
  "unsafe_options features procCfg =
     (if (case PUnsafe procCfg of None \<Rightarrow> True | Some u \<Rightarrow> \<not> HostPidNamespace u) then [WithNamespace ''pid''] else []) @
     (if \<not> SeccompSupported features then [WithoutSeccomp] else []) @
     (if (case PUnsafe procCfg of None \<Rightarrow> False | Some u \<Rightarrow> Privileged u) then [WithPrivileged] else [])"

definition cgroup_options :: "RuncAdapter \<Rightarrow> bpm_config \<Rightarrow> SpecOption list io" where
  "cgroup_options a bpmCfg =
     (case a_cgroupsPathFor a of
        None \<Rightarrow> returnM []
      | Some f \<Rightarrow> bindM (attemptM (f (cfg_ContainerID bpmCfg))) (\<lambda>r.
          returnM (case r of Inl _ \<Rightarrow> [] | Inr path \<Rightarrow> [WithCgroupsPath path])))"

definition BuildSpec ::
  "(SpecMount list \<Rightarrow> SpecMount list) \<Rightarrow> (string \<Rightarrow> go_error + 64 word) \<Rightarrow>
   RuncAdapter \<Rightarrow> bpm_config \<Rightarrow> ProcessConfig \<Rightarrow> User \<Rightarrow> Spec io" where
  "BuildSpec ord toBytes a bpmCfg procCfg user =
     bindM (optional_mount resolvConfDir) (\<lambda>resolv.
     bindM (optional_mount systemdResolvedConfDir) (\<lambda>resolved.
     let ms1 = addMounts newMountDedup (systemIdentityMounts @ resolv @ resolved);
         bms = boshMounts bpmCfg (EphemeralDisk procCfg) (PersistentDisk procCfg);
         ms2 = addMounts ms1 bms;
         ms3 = addMounts ms2 (userProvidedIdentityMounts bpmCfg (AdditionalVolumes procCfg))
     in bindM (unrestricted_mounts a bpmCfg procCfg bms) (\<lambda>extra.
        let ms = dedup_mounts ord (addMounts ms3 extra);
            spec = Build (base_options bpmCfg procCfg user ms)
        in bindM (liftM (limit_options toBytes (a_features a) (PLimits procCfg))) (\<lambda>limits.
           bindM (cgroup_options a bpmCfg) (\<lambda>cg.
           returnM (Apply (Apply (Apply spec limits) (unsafe_options (a_features a) procCfg)) cg))))))"

section \<open>What BuildSpec returns\<close>

lemma addMounts_append: "addMounts d (xs @ ys) = addMounts (addMounts d xs) ys"
  by (induction d xs rule: addMounts.induct) (auto split: option.splits)

lemma optional_mount_Ok:
  "optional_mount d w = (Ok ms, w') \<Longrightarrow> set ms \<subseteq> {IdentityMount d []}"
  by (auto simp: optional_mount_def bindM_eq_Ok returnM_def split: if_splits)

lemma globExpandVolumes_Ok:
  "globExpandVolumes a vols w = (Ok vs, w') \<Longrightarrow> v \<in> set vs \<Longrightarrow> \<exists>v0\<in>set vols. \<exists>path. v = v0\<lparr>Path := path\<rparr>"
proof (induction vols arbitrary: vs w w')
  case (Cons v0 vols)
  from Cons.prems(1) obtain ms rest w1 w2 where
    rest: "globExpandVolumes a vols w1 = (Ok rest, w2)" and vs: "vs = map (\<lambda>m. v0\<lparr>Path := m\<rparr>) ms @ rest"
    by (auto simp: bindM_eq_Ok returnM_def)
  from Cons.prems(2) vs Cons.IH [OF rest] show ?case by auto
qed (simp add: returnM_def)

text \<open>The volumes that the unrestricted patterns expand to: copies of a configured volume.\<close>

definition expansions :: "ProcessConfig \<Rightarrow> Volume list \<Rightarrow> bool" where
  "expansions p vs \<longleftrightarrow>
     list_all (\<lambda>v. case PUnsafe p of None \<Rightarrow> False
                   | Some u \<Rightarrow> list_ex (\<lambda>v0. v = v0\<lparr>Path := Path v\<rparr>) (UnrestrictedVolumes u)) vs"

lemma unrestricted_mounts_Ok:
  assumes "unrestricted_mounts a c p bms w = (Ok extra, w')"
  shows "\<exists>vs. expansions p vs \<and> extra = userProvidedIdentityMounts c (filterVolumesUnderBoshMounts bms vs)"
proof (cases "PUnsafe p")
  case None
  with assms show ?thesis
    by (intro exI [of _ "[]"])
      (simp add: unrestricted_mounts_def returnM_def expansions_def userProvidedIdentityMounts_def filterVolumesUnderBoshMounts_def)
next
  case (Some u)
  show ?thesis
  proof (cases "UnrestrictedVolumes u = []")
    case True
    with Some assms show ?thesis
      by (intro exI [of _ "[]"])
        (simp add: unrestricted_mounts_def returnM_def expansions_def userProvidedIdentityMounts_def filterVolumesUnderBoshMounts_def)
  next
    case False
    with Some assms obtain vs w1 where vs: "globExpandVolumes a (UnrestrictedVolumes u) w = (Ok vs, w1)"
      and extra: "extra = userProvidedIdentityMounts c (filterVolumesUnderBoshMounts bms vs)"
      by (auto simp: unrestricted_mounts_def bindM_eq_Ok returnM_def)
    from globExpandVolumes_Ok [OF vs] Some have "expansions p vs"
      by (fastforce simp: expansions_def list_all_iff list_ex_iff)
    with extra show ?thesis by blast
  qed
qed

abbreviation bosh_mounts :: "bpm_config \<Rightarrow> ProcessConfig \<Rightarrow> SpecMount list" where
  "bosh_mounts c p \<equiv> boshMounts c (EphemeralDisk p) (PersistentDisk p)"

abbreviation resolver_mounts :: "SpecMount set" where
  "resolver_mounts \<equiv> {IdentityMount resolvConfDir [], IdentityMount systemdResolvedConfDir []}"

lemma cgroup_options_Ok:
  "cgroup_options a c w = (Ok cg, w') \<Longrightarrow> cg = [] \<or> (\<exists>path. cg = [WithCgroupsPath path])"
  by (cases "a_cgroupsPathFor a")
    (auto simp: cgroup_options_def bindM_eq_Ok returnM_def sum.case_eq_if split: if_splits)

lemma BuildSpec_Ok:
  assumes "BuildSpec ord toBytes a c p u w = (Ok spec, w')"
  obtains resolv vs limits cg where
    "set resolv \<subseteq> resolver_mounts" and "expansions p vs"
    and "limit_options toBytes (a_features a) (PLimits p) = Ok limits"
    and "cg = [] \<or> (\<exists>path. cg = [WithCgroupsPath path])"
    and "spec = Apply (Build (base_options c p u (dedup_mounts ord (addMounts newMountDedup
           (systemIdentityMounts @ resolv @ bosh_mounts c p @
            userProvidedIdentityMounts c (AdditionalVolumes p) @
            userProvidedIdentityMounts c (filterVolumesUnderBoshMounts (bosh_mounts c p) vs))))))
          (limits @ unsafe_options (a_features a) p @ cg)"
proof -
  from assms obtain r1 w1 r2 w2 extra w3 limits w4 cg where
    1: "optional_mount resolvConfDir w = (Ok r1, w1)"
    and 2: "optional_mount systemdResolvedConfDir w1 = (Ok r2, w2)"
    and 3: "unrestricted_mounts a c p (bosh_mounts c p) w2 = (Ok extra, w3)"
    and 4: "limit_options toBytes (a_features a) (PLimits p) = Ok limits"
    and 5: "cgroup_options a c w4 = (Ok cg, w')"
    and spec: "spec = Apply (Build (base_options c p u (dedup_mounts ord (addMounts newMountDedup
           (systemIdentityMounts @ (r1 @ r2) @ bosh_mounts c p @
            userProvidedIdentityMounts c (AdditionalVolumes p) @ extra)))))
          (limits @ unsafe_options (a_features a) p @ cg)"
    by (auto simp: BuildSpec_def Let_def bindM_eq_Ok liftM_def returnM_def addMounts_append)
  from unrestricted_mounts_Ok [OF 3] obtain vs where
    "expansions p vs" and "extra = userProvidedIdentityMounts c (filterVolumesUnderBoshMounts (bosh_mounts c p) vs)"
    by blast
  moreover have "set (r1 @ r2) \<subseteq> resolver_mounts"
    using optional_mount_Ok [OF 1] optional_mount_Ok [OF 2] by auto
  ultimately show thesis
    using that 4 cgroup_options_Ok [OF 5] spec by blast
qed

section \<open>Confinement of a job that is not privileged\<close>

definition unprivileged :: "ProcessConfig \<Rightarrow> bool" where
  "unprivileged p \<longleftrightarrow> (case PUnsafe p of None \<Rightarrow> True | Some u \<Rightarrow> \<not> Privileged u)"

definition host_pids :: "ProcessConfig \<Rightarrow> bool" where
  "host_pids p \<longleftrightarrow> (case PUnsafe p of None \<Rightarrow> False | Some u \<Rightarrow> HostPidNamespace u)"

text \<open>The parts of a specification that neither the limits nor the cgroup path touch.\<close>

definition core_of :: "Spec \<Rightarrow> Spec" where
  "core_of s = s\<lparr>SProcess := (SProcess s)\<lparr>Rlimits := []\<rparr>,
     SLinux := (SLinux s)\<lparr>Resources := \<lparr>RMemory = None, RPids = None\<rparr>, CgroupsPath := []\<rparr>\<rparr>"

lemma core_of_eqD:
  assumes "core_of s = core_of t"
  shows "SUser (SProcess s) = SUser (SProcess t)" "NoNewPrivileges (SProcess s) = NoNewPrivileges (SProcess t)"
    "SpCapabilities (SProcess s) = SpCapabilities (SProcess t)" "SpArgs (SProcess s) = SpArgs (SProcess t)"
    "SpEnv (SProcess s) = SpEnv (SProcess t)" "SpCwd (SProcess s) = SpCwd (SProcess t)"
    "MaskedPaths (SLinux s) = MaskedPaths (SLinux t)" "ReadonlyPaths (SLinux s) = ReadonlyPaths (SLinux t)"
    "SeccompFilter (SLinux s) = SeccompFilter (SLinux t)" "Namespaces (SLinux s) = Namespaces (SLinux t)"
    "RootfsPropagation (SLinux s) = RootfsPropagation (SLinux t)"
    "SRoot s = SRoot t" "Mounts s = Mounts t"
  using assms by (cases s; cases t; cases "SProcess s"; cases "SProcess t"; cases "SLinux s"; cases "SLinux t"; simp add: core_of_def)+

lemma core_of_limits:
  "limit_options toBytes features lim = Ok limits \<Longrightarrow> core_of (Apply s limits) = core_of s"
  by (auto simp: limit_options_def bind_res_def core_of_def with_defs split: option.splits res.splits sum.splits)

lemma core_of_cgroup:
  "cg = [] \<or> (\<exists>path. cg = [WithCgroupsPath path]) \<Longrightarrow> core_of (Apply s cg) = core_of s"
  by (auto simp: core_of_def with_defs)

lemma core_of_unsafe: "core_of (Apply s (unsafe_options f p)) = Apply (core_of s) (unsafe_options f p)"
  by (simp add: unsafe_options_def core_of_def with_defs WithPrivileged_def Let_def)

lemma core_of_Apply_unsafe:
  assumes "limit_options toBytes f lim = Ok limits" and "cg = [] \<or> (\<exists>path. cg = [WithCgroupsPath path])"
  shows "core_of (Apply s (limits @ unsafe_options f p @ cg)) = core_of (Apply s (unsafe_options f p))"
  using core_of_limits [OF assms(1)] core_of_cgroup [OF assms(2)] by (simp add: core_of_unsafe)

lemma unprivileged_options:
  "unprivileged p \<Longrightarrow> unsafe_options f p =
    (if host_pids p then [] else [WithNamespace ''pid'']) @ (if SeccompSupported f then [] else [WithoutSeccomp])"
  by (auto simp: unsafe_options_def unprivileged_def host_pids_def split: option.splits)

lemmas build_defs = Build_def base_options_def DefaultSpec_def with_defs no_capabilities_def

text \<open>The container of a job that does not ask for privileges: it runs as the given user, cannot gain
  privileges, holds no effective capability and otherwise exactly the configured ones, keeps the
  masked and read-only paths of the default specification, runs under the system call filter
  whenever the host supports one, and has its own ipc, mount and uts namespaces, and its own
  process namespace unless it asked for the host's.\<close>

definition confined :: "Features \<Rightarrow> ProcessConfig \<Rightarrow> User \<Rightarrow> Spec \<Rightarrow> bool" where
  "confined features p u spec \<longleftrightarrow>
    SUser (SProcess spec) = u \<and> NoNewPrivileges (SProcess spec) \<and>
    Effective (SpCapabilities (SProcess spec)) = [] \<and>
    Bounding (SpCapabilities (SProcess spec)) = map (\<lambda>cap. ''CAP_'' @ cap) (Capabilities p) \<and>
    Permitted (SpCapabilities (SProcess spec)) = Bounding (SpCapabilities (SProcess spec)) \<and>
    Inheritable (SpCapabilities (SProcess spec)) = Bounding (SpCapabilities (SProcess spec)) \<and>
    Ambient (SpCapabilities (SProcess spec)) = Bounding (SpCapabilities (SProcess spec)) \<and>
    MaskedPaths (SLinux spec) = MaskedPaths (SLinux DefaultSpec) \<and>
    ReadonlyPaths (SLinux spec) = ReadonlyPaths (SLinux DefaultSpec) \<and>
    SeccompFilter (SLinux spec) = (if SeccompSupported features then Some DefaultSeccomp else None) \<and>
    Namespaces (SLinux spec) = [''ipc'', ''mount'', ''uts''] @ (if host_pids p then [] else [''pid''])"

lemma BuildSpec_confined:
  assumes "BuildSpec ord toBytes a c p u w = (Ok spec, w')" and "unprivileged p"
  shows "confined (a_features a) p u spec"
proof -
  from BuildSpec_Ok [OF assms(1)] obtain ms limits cg where
    l: "limit_options toBytes (a_features a) (PLimits p) = Ok limits"
    and cg: "cg = [] \<or> (\<exists>path. cg = [WithCgroupsPath path])"
    and spec: "spec = Apply (Build (base_options c p u ms)) (limits @ unsafe_options (a_features a) p @ cg)"
    by metis
  have "core_of spec = core_of (Apply (Build (base_options c p u ms)) (unsafe_options (a_features a) p))"
    unfolding spec by (rule core_of_Apply_unsafe [OF l cg])
  note fields = core_of_eqD [OF this]
  show ?thesis
    unfolding confined_def fields
    by (simp add: unprivileged_options [OF assms(2)] build_defs processCapabilities_def wrapWithInit_def)
qed

text \<open>An adapter whose host supports everything, and a job with an additional volume, for evaluation.\<close>

definition example_adapter :: RuncAdapter where
  "example_adapter = NewRuncAdapter \<lparr>SwapLimitSupported = True, SeccompSupported = True\<rparr>
     (\<lambda>pattern. sys_texts (Glob pattern)) MakeShared (LockVolume (\<lambda>s. s) (NewHandle ''/var/vcap/data/bpm/locks'')) None"

definition example_user :: User where
  "example_user = \<lparr>UID = 1000, GID = 1000, Username = ''vcap''\<rparr>"

definition example_job :: ProcessConfig where
  "example_job = example_process\<lparr>Capabilities := [''NET_BIND_SERVICE''],
     PLimits := Some \<lparr>Memory = Some ''1G'', OpenFiles = Some 1024, LProcesses = None, CoreFileSize = None\<rparr>\<rparr>"

definition example_toBytes :: "string \<Rightarrow> go_error + 64 word" where
  "example_toBytes s = (if s = ''1G'' then Inr 1073741824 else Inl (Errorf ''byte quantity'' []))"

lemma example_BuildSpec_calm:
  "env w = calm_env \<Longrightarrow>
    \<exists>spec w'. BuildSpec (\<lambda>ms. ms) example_toBytes example_adapter c example_job u w = (Ok spec, w') \<and> env w' = calm_env"
  by (simp add: BuildSpec_def optional_mount_def checkDirExists_def unrestricted_mounts_def cgroup_options_def
      limit_options_def example_job_def example_process_def example_adapter_def NewRuncAdapter_def
      example_toBytes_def bind_res_def calm_env_def Let_def io_simps res_sum_def)

lemma example_BuildSpec:
  "\<exists>spec w'. BuildSpec (\<lambda>ms. ms) example_toBytes example_adapter (example_cfg ''web'' ''web'') example_job example_user calm_world
     = (Ok spec, w')"
  using example_BuildSpec_calm [of calm_world] by (simp add: calm_world_def) blast

section \<open>The mounts of a container\<close>

lemma BindMount_sel [simp]:
  "Destination (BindMount s d os) = d" "Source (BindMount s d os) = s" "MType (BindMount s d os) = ''bind''"
  by (simp_all add: BindMount_def)

text \<open>The options of every mount the adapter makes, by what was asked for.\<close>

lemma BindMount_Options [simp]:
  "Options (BindMount s d []) = [''bind'', ''noexec'', ''nosuid'', ''nodev'', ''ro'']"
  "Options (BindMount s d [AllowExec]) = [''bind'', ''exec'', ''nosuid'', ''nodev'', ''ro'']"
  "Options (BindMount s d [WithRecursiveBind, AllowWrites]) = [''rbind'', ''noexec'', ''nosuid'', ''nodev'', ''rw'']"
  "Options (BindMount s d [WithRecursiveBind]) = [''rbind'', ''noexec'', ''nosuid'', ''nodev'', ''ro'']"
  "Options (BindMount s d [WithRecursiveBind, AllowExec]) = [''rbind'', ''exec'', ''nosuid'', ''nodev'', ''ro'']"
  "Options (BindMount s d [WithRecursiveBind, AllowExec, AllowWrites]) = [''rbind'', ''exec'', ''nosuid'', ''nodev'', ''rw'']"
  by (simp_all add: BindMount_def mountOptions_opts_def no_options_def AllowExec_def AllowWrites_def WithRecursiveBind_def)

lemma Apply_mounts_unprivileged:
  assumes "BuildSpec ord toBytes a c p u w = (Ok spec, w')" and "unprivileged p"
  obtains resolv vs where "set resolv \<subseteq> resolver_mounts" and "expansions p vs"
    and "Mounts spec = Mounts DefaultSpec @ dedup_mounts ord (addMounts newMountDedup
           (systemIdentityMounts @ resolv @ bosh_mounts c p @
            userProvidedIdentityMounts c (AdditionalVolumes p) @
            userProvidedIdentityMounts c (filterVolumesUnderBoshMounts (bosh_mounts c p) vs)))"
proof -
  from BuildSpec_Ok [OF assms(1)] obtain resolv vs limits cg ms where
    1: "set resolv \<subseteq> resolver_mounts" "expansions p vs"
    and l: "limit_options toBytes (a_features a) (PLimits p) = Ok limits"
    and cg: "cg = [] \<or> (\<exists>path. cg = [WithCgroupsPath path])"
    and ms: "ms = dedup_mounts ord (addMounts newMountDedup (systemIdentityMounts @ resolv @ bosh_mounts c p @
            userProvidedIdentityMounts c (AdditionalVolumes p) @
            userProvidedIdentityMounts c (filterVolumesUnderBoshMounts (bosh_mounts c p) vs)))"
    and spec: "spec = Apply (Build (base_options c p u ms)) (limits @ unsafe_options (a_features a) p @ cg)"
    by metis
  have "core_of spec = core_of (Apply (Build (base_options c p u ms)) (unsafe_options (a_features a) p))"
    unfolding spec by (rule core_of_Apply_unsafe [OF l cg])
  from core_of_eqD(13) [OF this] have "Mounts spec = Mounts DefaultSpec @ ms"
    by (simp add: unprivileged_options [OF assms(2)] build_defs wrapWithInit_def)
  with 1 ms show thesis using that by blast
qed

lemma find_append: "find P (xs @ ys) = (case find P xs of None \<Rightarrow> find P ys | Some x \<Rightarrow> Some x)"
  by (induction xs) auto

lemma find_SomeD: "find P xs = Some x \<Longrightarrow> x \<in> set xs \<and> P x"
  by (induction xs) (auto split: if_splits)

text \<open>A mount the adapter makes: it never honours set-user-ID bits or device files, it is mounted
  read-only unless its source may be written, and without execution unless its source may be
  executed. (A mount that names neither \<open>ro\<close> nor \<open>rw\<close> would be writable, one that names neither
  \<open>noexec\<close> nor \<open>exec\<close> executable.)\<close>

definition read_only :: "SpecMount \<Rightarrow> bool" where
  "read_only m \<longleftrightarrow> ''ro'' \<in> set (Options m) \<and> ''rw'' \<notin> set (Options m)"

definition no_exec :: "SpecMount \<Rightarrow> bool" where
  "no_exec m \<longleftrightarrow> ''noexec'' \<in> set (Options m) \<and> ''exec'' \<notin> set (Options m)"

definition bind_ok :: "(string \<Rightarrow> bool) \<Rightarrow> (string \<Rightarrow> bool) \<Rightarrow> SpecMount \<Rightarrow> bool" where
  "bind_ok may_write may_exec m \<longleftrightarrow>
     MType m = ''bind'' \<and> {''nosuid'', ''nodev''} \<subseteq> set (Options m) \<and> set (Options m) \<inter> {''suid'', ''dev''} = {} \<and>
     (may_write (Source m) \<or> read_only m) \<and> (may_exec (Source m) \<or> no_exec m)"

lemmas bind_ok_defs = bind_ok_def read_only_def no_exec_def

definition writable_source :: "bpm_config \<Rightarrow> ProcessConfig \<Rightarrow> Volume list \<Rightarrow> string \<Rightarrow> bool" where
  "writable_source c p vs src \<longleftrightarrow>
     src \<in> {Path_External (cfg_TempDir c), Path_External (cfg_LogDir c)} \<or>
     EphemeralDisk p \<and> src = Path_External (cfg_DataDir c) \<or>
     PersistentDisk p \<and> src = Path_External (cfg_StoreDir c) \<or>
     list_ex (\<lambda>v. Writable v \<and> src = Path v) (AdditionalVolumes p @ vs)"

definition executable_source :: "bpm_config \<Rightarrow> ProcessConfig \<Rightarrow> Volume list \<Rightarrow> string \<Rightarrow> bool" where
  "executable_source c p vs src \<longleftrightarrow>
     src \<in> {''/bin'', ''/etc'', ''/lib'', ''/lib64'', ''/sbin'', ''/usr''} \<or>
     src \<in> {Path_External (cfg_DataPackageDir c), Path_External (cfg_PackageDir c), Path_External (cfg_JobDir c)} \<or>
     list_ex (\<lambda>v. AllowExecutions v \<and> src = Path v) (AdditionalVolumes p @ vs)"

lemma bind_ok_userProvided:
  "m \<in> set (userProvidedIdentityMounts c vols) \<Longrightarrow>
    bind_ok (\<lambda>src. list_ex (\<lambda>v. Writable v \<and> src = Path v) vols) (\<lambda>src. list_ex (\<lambda>v. AllowExecutions v \<and> src = Path v) vols) m"
  by (auto simp: userProvidedIdentityMounts_def bind_ok_defs IdentityMount_def list_ex_iff split: if_splits)

lemma bind_ok_mono:
  "bind_ok W X m \<Longrightarrow> (\<And>s. W s \<Longrightarrow> W' s) \<Longrightarrow> (\<And>s. X s \<Longrightarrow> X' s) \<Longrightarrow> bind_ok W' X' m"
  by (auto simp: bind_ok_def)

lemma bind_ok_system: "m \<in> set systemIdentityMounts \<Longrightarrow> bind_ok (writable_source c p vs) (executable_source c p vs) m"
  by (auto simp: systemIdentityMounts_def bind_ok_defs IdentityMount_def executable_source_def)

lemma bind_ok_resolver: "m \<in> resolver_mounts \<Longrightarrow> bind_ok (writable_source c p vs) (executable_source c p vs) m"
  by (auto simp: bind_ok_defs IdentityMount_def)

lemma bind_ok_bosh: "m \<in> set (bosh_mounts c p) \<Longrightarrow> bind_ok (writable_source c p vs) (executable_source c p vs) m"
  by (auto simp: boshMounts_def Let_def bind_ok_defs executable_source_def writable_source_def split: if_splits)

lemma bind_ok_additional:
  "m \<in> set (userProvidedIdentityMounts c (AdditionalVolumes p)) \<Longrightarrow> bind_ok (writable_source c p vs) (executable_source c p vs) m"
  by (drule bind_ok_userProvided) (erule bind_ok_mono; simp add: writable_source_def executable_source_def)

lemma bind_ok_unrestricted:
  "m \<in> set (userProvidedIdentityMounts c (filterVolumesUnderBoshMounts bms vs)) \<Longrightarrow>
    bind_ok (writable_source c p vs) (executable_source c p vs) m"
  by (drule bind_ok_userProvided)
    (erule bind_ok_mono; auto simp: writable_source_def executable_source_def filterVolumesUnderBoshMounts_def list_ex_iff)

lemmas bind_ok_all = bind_ok_system bind_ok_resolver bind_ok_bosh bind_ok_additional bind_ok_unrestricted



lemma find_first_part: "x \<in> set xs \<Longrightarrow> P x \<Longrightarrow> find P (xs @ ys) = Some m \<Longrightarrow> m \<in> set xs"
  by (induction xs) (auto split: if_splits)

lemma find_unique: "distinct (map f xs) \<Longrightarrow> x \<in> set xs \<Longrightarrow> find (\<lambda>y. f y = f x) (xs @ ys) = Some x"
  by (induction xs) (auto simp: image_iff)

lemma system_distinct: "distinct (map Destination systemIdentityMounts)"
  by (simp add: systemIdentityMounts_def IdentityMount_def)

definition system_dirs :: "string list" where
  "system_dirs = [''/bin'', ''/etc'', ''/lib'', ''/lib64'', ''/sbin'', ''/usr'']"

lemma system_dirs_mounted:
  assumes "set systemIdentityMounts \<subseteq> set bms"
  shows "list_all (\<lambda>d. list_ex (\<lambda>m. Destination m = d \<and> Source m = d \<and> read_only m) bms) system_dirs"
proof -
  have "list_all (\<lambda>d. \<exists>m\<in>set systemIdentityMounts. Destination m = d \<and> Source m = d \<and> read_only m) system_dirs"
    by (simp add: system_dirs_def systemIdentityMounts_def IdentityMount_def read_only_def)
  with assms show ?thesis unfolding list_all_iff list_ex_iff by blast
qed

text \<open>C16: in the container of an unprivileged job no destination is bound twice; each system
  directory is bound there from the host, read-only; and what is bound on a system directory or on
  one of the job's own directories is bpm's own mount, whatever volumes are configured. This is
  about the bind mounts that bpm adds: the default specification's own mounts (\<open>/proc\<close>, \<open>/dev\<close>,
  \<open>/sys\<close>) come first, and an unrestricted volume may be mounted over them.\<close>

theorem bpm_mounts_not_replaced:
  assumes "reorders ord" and "BuildSpec ord toBytes a c p u w = (Ok spec, w')" and "unprivileged p"
  shows "\<exists>bound. Mounts spec = Mounts DefaultSpec @ bound \<and> distinct (map Destination bound) \<and>
    list_all (\<lambda>d. list_ex (\<lambda>m. Destination m = d \<and> Source m = d \<and> read_only m) bound) system_dirs \<and>
    (\<forall>m\<in>set bound. Destination m \<in> Destination ` set (systemIdentityMounts @ bosh_mounts c p) \<longrightarrow>
       m \<in> set (systemIdentityMounts @ bosh_mounts c p) \<union> resolver_mounts)"
proof -
  from Apply_mounts_unprivileged [OF assms(2,3)] obtain resolv rest where
    resolv: "set resolv \<subseteq> resolver_mounts"
    and spec: "Mounts spec = Mounts DefaultSpec @ dedup_mounts ord (addMounts newMountDedup
           ((systemIdentityMounts @ resolv @ bosh_mounts c p) @ rest))"
    by (metis append.assoc)
  let ?own = "systemIdentityMounts @ resolv @ bosh_mounts c p"
  let ?bound = "dedup_mounts ord (addMounts newMountDedup (?own @ rest))"
  have "set systemIdentityMounts \<subseteq> set ?bound"
    using find_unique [OF system_distinct] by (auto simp: in_dedup_mounts [OF assms(1)])
  moreover have "m \<in> set (systemIdentityMounts @ bosh_mounts c p) \<union> resolver_mounts"
    if "m \<in> set ?bound" and "Destination m \<in> Destination ` set (systemIdentityMounts @ bosh_mounts c p)" for m
  proof -
    from that(2) obtain x where x: "Destination m = Destination x" "x \<in> set (systemIdentityMounts @ bosh_mounts c p)"
      by (rule imageE)
    from x(2) have "x \<in> set ?own" by auto
    moreover have "find (\<lambda>x. Destination x = Destination m) (?own @ rest) = Some m"
      using that(1) unfolding in_dedup_mounts [OF assms(1)] .
    ultimately have "m \<in> set ?own" using x(1) by (simp only: find_first_part [where x = x])
    with resolv show ?thesis by auto
  qed
  ultimately show ?thesis
    using spec distinct_dedup_mounts [OF assms(1)] system_dirs_mounted by (intro exI [of _ ?bound]) blast
qed

theorem bpm_mounts_not_replaced_witness:
  "reorders (\<lambda>ms :: SpecMount list. ms) \<and> unprivileged example_job \<and>
   (case fst (BuildSpec (\<lambda>ms. ms) example_toBytes example_adapter (example_cfg ''web'' ''web'') example_job example_user calm_world) of
     Ok spec \<Rightarrow> list_ex (\<lambda>m. Destination m = ''/usr'' \<and> Source m = ''/usr'' \<and> ''ro'' \<in> set (Options m)) (Mounts spec)
   | _ \<Rightarrow> False)"
proof -
  obtain spec w' where b: "BuildSpec (\<lambda>ms. ms) example_toBytes example_adapter (example_cfg ''web'' ''web'')
      example_job example_user calm_world = (Ok spec, w')"
    using example_BuildSpec by blast
  have u: "unprivileged example_job" by (simp add: unprivileged_def example_job_def example_process_def)
  obtain bound where "Mounts spec = Mounts DefaultSpec @ bound"
    "list_all (\<lambda>d. list_ex (\<lambda>m. Destination m = d \<and> Source m = d \<and> read_only m) bound) system_dirs"
    using bpm_mounts_not_replaced [OF reorders_id(1) b u] by blast
  with b u show ?thesis by (auto simp: system_dirs_def read_only_def list_ex_iff)
qed

section \<open>Unrestricted volumes\<close>

lemma Join_append:
  "ps \<noteq> [] \<Longrightarrow> qs \<noteq> [] \<Longrightarrow> strings_Join (ps @ qs) sep = strings_Join ps sep @ sep @ strings_Join qs sep"
proof (induction ps)
  case (Cons p ps)
  then show ?case by (cases "ps = []") (simp_all add: strings_Join_Cons)
qed simp

lemma prefix_Split_iff:
  "prefix (strings_Split d c) (strings_Split s c) \<longleftrightarrow> s = d \<or> (\<exists>rest. s = d @ c # rest)"
proof
  assume "prefix (strings_Split d c) (strings_Split s c)"
  then obtain qs where qs: "strings_Split s c = strings_Split d c @ qs" by (auto simp: prefix_def)
  show "s = d \<or> (\<exists>rest. s = d @ c # rest)"
  proof (cases "qs = []")
    case True
    with qs show ?thesis by (auto dest: strings_Split_inject)
  next
    case False
    have "s = strings_Join (strings_Split d c @ qs) [c]" by (metis qs strings_Join_Split)
    with False show ?thesis by (simp add: Join_append)
  qed
qed (auto simp: strings_Split_append)

lemma under_bosh_mount_iff:
  "under_bosh_mount bms v \<longleftrightarrow>
     list_ex (\<lambda>m. Path v = Destination m \<or> (\<exists>rest. Path v = Destination m @ CHR ''/'' # rest)) bms"
proof -
  have "(length ds \<le> length ps \<and> ds = take (length ds) ps) = prefix ds ps" for ds ps :: "string list"
    by (auto simp: prefix_def) (metis append_take_drop_id)
  then show ?thesis
    by (induction bms) (auto simp: Let_def prefix_Split_iff)
qed

text \<open>C28: of the unrestricted volumes exactly those are dropped whose path is the destination of one
  of bpm's own mounts or lies below it; a directory that merely has such a destination as a
  textual prefix is kept.\<close>

theorem unrestricted_volumes_filtered:
  "filterVolumesUnderBoshMounts bms vs =
     [v \<leftarrow> vs. \<not> list_ex (\<lambda>m. Path v = Destination m \<or> (\<exists>rest. Path v = Destination m @ CHR ''/'' # rest)) bms]"
  by (simp add: filterVolumesUnderBoshMounts_def under_bosh_mount_iff)

section \<open>The environment of a process\<close>

lemma env_pair_key [simp]: "CHR ''='' \<notin> set k \<Longrightarrow> env_pair (k @ CHR ''='' # v) = (k, v)"
  by (simp add: env_pair_def takeWhile_append dropWhile_append)

text \<open>The variables every process gets unless its configuration sets them.\<close>

definition default_variables :: "bpm_config \<Rightarrow> (string \<times> string) list" where
  "default_variables c =
     [(''TMPDIR'', Path_Internal (cfg_TempDir c)), (''LANG'', ''en_US.UTF-8''),
      (''PATH'', Path_Internal (Path_Join (cfg_JobDir c) [''bin'']) @
         '':/usr/local/bin:/usr/local/sbin:/usr/bin:/usr/sbin:/bin:/sbin:.''),
      (''HOME'', Path_Internal (cfg_DataDir c))]"

lemma env_pair_entries:
  assumes "list_all (\<lambda>kv. CHR ''='' \<notin> set (fst kv)) e"
  shows "map env_pair (processEnvironment e c) = e @ [kv \<leftarrow> default_variables c. map_of e (fst kv) = None]"
proof -
  have "map env_pair (map (\<lambda>(k, v). k @ ''='' @ v) e) = e"
    using assms by (auto simp: list_all_iff intro!: map_idI)
  then show ?thesis
    by (auto simp: processEnvironment_def default_var_def default_variables_def defaultLang_def defaultPath_def
        env_pair_def split: option.splits)
qed

lemma map_of_filter_key: "map_of [kv \<leftarrow> m. P (fst kv)] k = (if P k then map_of m k else None)"
  by (induction m) auto

text \<open>C27: the environment of a process defines every variable once: the configured variables with
  their configured values, and \<open>TMPDIR\<close>, \<open>LANG\<close>, \<open>PATH\<close> and \<open>HOME\<close> with bpm's values exactly when the
  configuration does not set them.\<close>

theorem process_environment_spec:
  assumes "gomap_ok e" and "list_all (\<lambda>kv. CHR ''='' \<notin> set (fst kv)) e"
  shows "distinct (map fst (map env_pair (processEnvironment e c))) \<and>
    map_of (map env_pair (processEnvironment e c)) = map_of (default_variables c) ++ map_of e"
proof -
  let ?d = "[kv \<leftarrow> default_variables c. map_of e (fst kv) = None]"
  have "distinct (map fst (default_variables c))" by (simp add: default_variables_def)
  then have "distinct (map fst ?d)" by (rule distinct_map_filter)
  moreover have "fst ` set e \<inter> fst ` set ?d = {}" by (force simp: map_of_eq_None_iff)
  ultimately have 1: "distinct (map fst (e @ ?d))" using assms(1) by (simp add: gomap_ok_def)
  have "map_of (e @ ?d) k = (map_of (default_variables c) ++ map_of e) k" for k
    by (cases "map_of e k") (simp_all add: map_add_def map_of_filter_key [where P = "\<lambda>k. map_of e k = None"])
  then have "map_of (e @ ?d) = map_of (default_variables c) ++ map_of e" by blast
  with 1 show ?thesis by (simp only: env_pair_entries [OF assms(2)])
qed

theorem process_environment_spec_witness:
  "gomap_ok [(''LANG'', ''C''), (''A'', ''x=y'')] \<and>
   map_of (map env_pair (processEnvironment [(''LANG'', ''C''), (''A'', ''x=y'')] (example_cfg ''web'' ''web''))) ''LANG'' = Some ''C''"
  using process_environment_spec [of "[(''LANG'', ''C''), (''A'', ''x=y'')]" "example_cfg ''web'' ''web''"]
  by (simp add: gomap_ok_def)

section \<open>Limits\<close>

text \<open>What the limits of a process configuration ask for.\<close>

definition memory_of :: "(string \<Rightarrow> go_error + 64 word) \<Rightarrow> Features \<Rightarrow> Limits \<Rightarrow> LinuxMemory option" where
  "memory_of toBytes features l =
     (case Memory l of
        None \<Rightarrow> None
      | Some s \<Rightarrow> (case toBytes s of Inl _ \<Rightarrow> None
          | Inr n \<Rightarrow> Some \<lparr>MLimit = Some n, MSwap = (if SwapLimitSupported features then Some n else None)\<rparr>))"

definition rlimits_of :: "Limits \<Rightarrow> POSIXRlimit list" where
  "rlimits_of l =
     (case OpenFiles l of None \<Rightarrow> [] | Some n \<Rightarrow> [\<lparr>RType = ''RLIMIT_NOFILE'', Hard = n, Soft = n\<rparr>]) @
     (case CoreFileSize l of None \<Rightarrow> [] | Some n \<Rightarrow> [\<lparr>RType = ''RLIMIT_CORE'', Hard = n, Soft = n\<rparr>])"

lemma Apply_limits:
  assumes "limit_options toBytes features (Some l) = Ok limits"
  shows "Resources (SLinux (Apply s limits)) =
      \<lparr>RMemory = (if Memory l = None then RMemory (Resources (SLinux s)) else memory_of toBytes features l),
       RPids = (if LProcesses l = None then RPids (Resources (SLinux s)) else LProcesses l)\<rparr>"
    and "Rlimits (SProcess (Apply s limits)) = Rlimits (SProcess s) @ rlimits_of l"
    and "case Memory l of None \<Rightarrow> True | Some m \<Rightarrow> (case toBytes m of Inl _ \<Rightarrow> False | Inr _ \<Rightarrow> True)"
  using assms
  by (auto simp: limit_options_def bind_res_def with_defs memory_of_def rlimits_of_def res_sum_def
      split: option.splits res.splits sum.splits)

lemma unsafe_keeps_limits:
  "Resources (SLinux (Apply s (unsafe_options f p))) = Resources (SLinux s)"
  "Rlimits (SProcess (Apply s (unsafe_options f p))) = Rlimits (SProcess s)"
  by (simp_all add: unsafe_options_def with_defs WithPrivileged_def Let_def)

lemma cgroup_keeps_limits:
  assumes "cg = [] \<or> (\<exists>path. cg = [WithCgroupsPath path])"
  shows "Resources (SLinux (Apply s cg)) = Resources (SLinux s)" "Rlimits (SProcess (Apply s cg)) = Rlimits (SProcess s)"
  using assms by (auto simp: with_defs)

lemma Build_no_limits:
  "Resources (SLinux (Build (base_options c p u ms))) = \<lparr>RMemory = None, RPids = None\<rparr>"
  "Rlimits (SProcess (Build (base_options c p u ms))) = []"
  by (simp_all add: build_defs wrapWithInit_def)

text \<open>C23: a specification is built only when the memory limit, if there is one, could be parsed, and
  then it carries exactly the configured limits: the memory limit, with an equal swap limit where the
  host can account for swap, the process limit, and hard and soft resource limits for open files and
  core files; without limits in the configuration it has none. A privileged job is limited alike.\<close>

theorem limits_applied:
  assumes "BuildSpec ord toBytes a c p u w = (Ok spec, w')"
  shows "case PLimits p of
      None \<Rightarrow> Resources (SLinux spec) = \<lparr>RMemory = None, RPids = None\<rparr> \<and> Rlimits (SProcess spec) = []
    | Some l \<Rightarrow> Resources (SLinux spec) = \<lparr>RMemory = memory_of toBytes (a_features a) l, RPids = LProcesses l\<rparr> \<and>
        Rlimits (SProcess spec) = rlimits_of l \<and>
        (case Memory l of None \<Rightarrow> True | Some m \<Rightarrow> RMemory (Resources (SLinux spec)) \<noteq> None)"
proof -
  from BuildSpec_Ok [OF assms] obtain ms limits cg where
    l: "limit_options toBytes (a_features a) (PLimits p) = Ok limits"
    and cg: "cg = [] \<or> (\<exists>path. cg = [WithCgroupsPath path])"
    and spec: "spec = Apply (Build (base_options c p u ms)) (limits @ unsafe_options (a_features a) p @ cg)"
    by metis
  have eq: "Resources (SLinux spec) = Resources (SLinux (Apply (Build (base_options c p u ms)) limits))"
    "Rlimits (SProcess spec) = Rlimits (SProcess (Apply (Build (base_options c p u ms)) limits))"
    unfolding spec by (simp_all add: cgroup_keeps_limits [OF cg] unsafe_keeps_limits)
  show ?thesis
  proof (cases "PLimits p")
    case None
    with l have "limits = []" by (simp add: limit_options_def)
    with None eq show ?thesis by (simp add: Build_no_limits)
  next
    case (Some lim)
    note L = Apply_limits [OF l [unfolded Some]]
    show ?thesis
      using L(3) by (auto simp: Some eq L(1,2) Build_no_limits memory_of_def split: option.splits sum.splits)
  qed
qed

theorem limits_applied_witness:
  "case fst (BuildSpec (\<lambda>ms. ms) example_toBytes example_adapter (example_cfg ''web'' ''web'') example_job example_user calm_world) of
     Ok spec \<Rightarrow> RMemory (Resources (SLinux spec)) = Some \<lparr>MLimit = Some 1073741824, MSwap = Some 1073741824\<rparr> \<and>
       Rlimits (SProcess spec) = [\<lparr>RType = ''RLIMIT_NOFILE'', Hard = 1024, Soft = 1024\<rparr>]
   | _ \<Rightarrow> False"
proof -
  obtain spec w' where b: "BuildSpec (\<lambda>ms. ms) example_toBytes example_adapter (example_cfg ''web'' ''web'')
      example_job example_user calm_world = (Ok spec, w')"
    using example_BuildSpec by blast
  show ?thesis
    using limits_applied [OF b] b
    by (simp add: example_job_def memory_of_def rlimits_of_def example_toBytes_def example_adapter_def NewRuncAdapter_def)
qed

section \<open>The prerequisites of a job\<close>

text \<open>The adapter as the commands wire it (\<open>newRuncLifecycle\<close> in \<open>src/bpm/commands/root.go\<close>), with the
  digest that names volume locks as a parameter.\<close>

definition program_adapter ::
  "(string \<Rightarrow> string) \<Rightarrow> Features \<Rightarrow> Handle \<Rightarrow> (string \<Rightarrow> string io) option \<Rightarrow> RuncAdapter" where
  "program_adapter sha256hex features locks cgroupsPathFor =
     NewRuncAdapter features (\<lambda>pattern. sys_texts (Glob pattern)) MakeShared (LockVolume sha256hex locks) cgroupsPathFor"

definition volume_paths :: "ProcessConfig \<Rightarrow> string list" where
  "volume_paths p = map Path [v \<leftarrow> AdditionalVolumes p. \<not> MountOnly v]"

definition own_dirs :: "bpm_config \<Rightarrow> ProcessConfig \<Rightarrow> string list" where
  "own_dirs c p =
     [Path_External (cfg_LogDir c), Path_External (cfg_SocketDir c), Path_External (cfg_TempDir c)] @
     (if EphemeralDisk p then [Path_External (cfg_DataDir c)] else []) @
     (if PersistentDisk p then [Path_External (cfg_StoreDir c)] else [])"

text \<open>The calls that sharing a volume makes when it succeeds, after a history and by the answers of the
  environment: the volume's lock is taken, the path is bind-mounted unless it is a mount point, it is
  marked as shared, and the lock is released.\<close>

definition share_calls ::
  "(string \<Rightarrow> string) \<Rightarrow> Handle \<Rightarrow> environment \<Rightarrow> call list \<Rightarrow> string \<Rightarrow> call list" where
  "share_calls sha h e hist path =
     (let lockfile = OpenFile (volume_lock_path sha h path) [O_CREATE, O_RDWR] perm_0600;
          fd = (case r_fd e hist lockfile of Inr fd \<Rightarrow> fd | Inl _ \<Rightarrow> 0);
          lock = [lockfile, Flock fd LOCK_EX]
      in lock @ [Mounted path] @
         (if r_bool e (hist @ lock) (Mounted path) = Inr True then [] else [Mount path path [] [MS_BIND] []]) @
         [Mount ''none'' path [] [MS_SHARED] [], Flock fd LOCK_UN])"

text \<open>What looking at the volumes comes to, volume by volume: the calls that are made, and the
  directories that turn out to be missing. A shared volume is shared first; a volume that is not
  mount-only is looked at; it is missing when there is nothing at its path, and a directory whose
  mode differs has its mode set.\<close>

fun volume_walk ::
  "(string \<Rightarrow> string) \<Rightarrow> Handle \<Rightarrow> environment \<Rightarrow> call list \<Rightarrow> Volume list \<Rightarrow> call list \<times> string list" where
  "volume_walk sha h e hist [] = ([], [])"
| "volume_walk sha h e hist (v # vs) =
     (let shared = (if Shared v then share_calls sha h e hist (Path v) else []);
          seen = r_stat e (hist @ shared) (Stat (Path v));
          missing = (\<not> MountOnly v \<and> (case seen of Inl err \<Rightarrow> os_IsNotExist err | Inr _ \<Rightarrow> False));
          other_mode = (case seen of Inl _ \<Rightarrow> False | Inr fi \<Rightarrow> fi_IsDir fi \<and> fi_Mode fi \<noteq> word_of_nat perm_0700);
          made = shared @ (if MountOnly v then [] else Stat (Path v) # (if other_mode then [Chmod (Path v) perm_0700] else []));
          (rest, dirs) = volume_walk sha h e (hist @ made) vs
      in (made @ rest, (if missing then [Path v] else []) @ dirs))"

lemma makeShared_Ok:
  assumes "makeShared (program_adapter sha f h cg) v w = (Ok u, w')"
  shows "env w' = env w \<and> calls w' = calls w @ share_calls sha h (env w) (calls w) (Path v)"
  using assms
  by (auto simp: makeShared_def program_adapter_def NewRuncAdapter_def LockVolume_def flock_New_def flock_Lock_def
      flock_Unlock_def MakeShared_def share_calls_def io_simps res_of_def res_sum_def Let_def
      split: option.splits sum.splits if_splits)

lemma prepare_volumes_Ok:
  assumes "prepare_volumes (program_adapter sha f h cg) vols ds ps w = (Ok (ds', ps'), w')"
  shows "env w' = env w \<and> calls w' = calls w @ fst (volume_walk sha h (env w) (calls w) vols) \<and>
    ds' = ds @ snd (volume_walk sha h (env w) (calls w) vols) \<and>
    ps' = ps @ map Path [v \<leftarrow> vols. \<not> MountOnly v]"
  using assms
proof (induction vols arbitrary: ds ps w)
  case (Cons v vols)
  let ?a = "program_adapter sha f h cg"
  let ?shared = "if Shared v then share_calls sha h (env w) (calls w) (Path v) else []"
  from Cons.prems obtain u w0 where
    sh: "(if Shared v then makeShared ?a v else returnM ()) w = (Ok u, w0)"
    and rest: "(if MountOnly v then prepare_volumes ?a vols ds ps
      else bindM (attemptM (sys_stat (Stat (Path v)))) (\<lambda>r.
        case r of
          Inl err \<Rightarrow> if os_IsNotExist err then prepare_volumes ?a vols (ds @ [Path v]) (ps @ [Path v]) else throwM err
        | Inr fi \<Rightarrow>
            thenM (if fi_IsDir fi \<and> fi_Mode fi \<noteq> word_of_nat perm_0700
                   then sys_err (Chmod (Path v) perm_0700) else returnM ())
            (prepare_volumes ?a vols ds (ps @ [Path v])))) w0 = (Ok (ds', ps'), w')"
    unfolding prepare_volumes.simps thenM_eq_Ok by blast
  from sh have w0: "env w0 = env w \<and> calls w0 = calls w @ ?shared"
    by (auto simp: returnM_def dest: makeShared_Ok split: if_splits)
  show ?case
  proof (cases "MountOnly v")
    case True
    with rest Cons.IH w0 show ?thesis by (fastforce simp: Let_def split_beta)
  next
    case False
    let ?stat = "r_stat (env w) (calls w0) (Stat (Path v))"
    show ?thesis
    proof (cases ?stat)
      case (Inl err)
      with rest False w0 have e: "os_IsNotExist err" and
        r: "prepare_volumes ?a vols (ds @ [Path v]) (ps @ [Path v]) (record_call (Stat (Path v)) w0) = (Ok (ds', ps'), w')"
        by (auto simp: bindM_def attemptM_def sys_stat_def res_sum_def throwM_def split: if_splits)
      from Cons.IH [OF r] False Inl e w0 show ?thesis by (simp add: Let_def split_beta)
    next
      case (Inr fi)
      let ?mode = "if fi_IsDir fi \<and> fi_Mode fi \<noteq> word_of_nat perm_0700 then [Chmod (Path v) perm_0700] else []"
      from rest False w0 Inr obtain w1 where
        m: "(if fi_IsDir fi \<and> fi_Mode fi \<noteq> word_of_nat perm_0700 then sys_err (Chmod (Path v) perm_0700) else returnM ())
          (record_call (Stat (Path v)) w0) = (Ok (), w1)"
        and r: "prepare_volumes ?a vols ds (ps @ [Path v]) w1 = (Ok (ds', ps'), w')"
        by (auto simp: bindM_eq_Ok attemptM_def sys_stat_def res_sum_def thenM_eq_Ok)
      from m w0 have w1: "env w1 = env w" "calls w1 = calls w0 @ Stat (Path v) # ?mode"
        by (auto simp: sys_err_def returnM_def split: if_splits)
      from Cons.IH [OF r] False Inr w0 w1 show ?thesis by (simp add: Let_def split_beta)
    qed
  qed
qed (simp add: returnM_def)

lemma createDirs_calls:
  "succeeds_with (createDirs dirs u)
     (concat (map (\<lambda>d. [MkdirAll d perm_0700, Chown d (user_uid u) (user_gid u)]) dirs))"
  unfolding createDirs_def createDirFor_def
  using succeeds_with_forM [OF succeeds_with_thenM [OF succeeds_with_sys_err succeeds_with_sys_err]] by fastforce

lemma chownPaths_calls:
  "succeeds_with (chownPaths paths u) (map (\<lambda>q. Chown q (user_uid u) (user_gid u)) paths)"
  unfolding chownPaths_def
  using succeeds_with_forM [where tr = "\<lambda>q. [Chown q (user_uid u) (user_gid u)]", OF succeeds_with_sys_err, of paths]
  by (simp add: concat_map_singleton)

abbreviation append_flags :: "open_flag list" where
  "append_flags \<equiv> [O_RDWR, O_CREATE, O_APPEND, O_NOFOLLOW]"

lemma OpenAppendChown_Ok:
  "OpenAppendChown path uid gid perm w = (Ok f, w') \<Longrightarrow>
    calls w' = calls w @ [OpenFile path append_flags perm, FChown f uid gid]"
  by (auto simp: OpenAppendChown_def io_simps res_of_def res_sum_def split: option.splits sum.splits if_splits)

lemma createLogFiles_Ok:
  assumes "createLogFiles c u w = (Ok (out, err), w')"
  shows "calls w' = calls w @
    [OpenFile (Path_External (cfg_Stdout c)) append_flags perm_0600, FChown out (user_uid u) (user_gid u),
     OpenFile (Path_External (cfg_Stderr c)) append_flags perm_0600, FChown err (user_uid u) (user_gid u)]"
proof -
  have attempt: "(\<exists>a w1. attemptM m w = (Ok a, w1) \<and> (case a of Inl e \<Rightarrow> thenM d (throwM e) | Inr x \<Rightarrow> k x) w1 = (Ok b, w2)) \<longleftrightarrow>
      (\<exists>x w1. m w = (Ok x, w1) \<and> k x w1 = (Ok b, w2))" for m :: "nat io" and d :: "unit io" and k :: "nat \<Rightarrow> nat list io" and w b w2
    by (auto simp: attemptM_def thenM_eq_Ok throwM_def split: prod.splits res.splits sum.splits)
  from assms obtain w1 where
    "OpenAppendChown (Path_External (cfg_Stdout c)) (user_uid u) (user_gid u) perm_0600 w = (Ok out, w1)"
    "OpenAppendChown (Path_External (cfg_Stderr c)) (user_uid u) (user_gid u) perm_0600 w1 = (Ok err, w')"
    by (auto simp: createLogFiles_def bindM_eq_Ok attempt returnM_def)
  from this [THEN OpenAppendChown_Ok] show ?thesis by simp
qed

text \<open>The step that insists on the persistent disk, when one is asked for.\<close>

definition store_step :: "bpm_config \<Rightarrow> ProcessConfig \<Rightarrow> string list \<Rightarrow> string list io" where
  "store_step c p dirs =
     (if PersistentDisk p
      then bindM (checkDirExists (filepath_Dir (Path_External (cfg_StoreDir c)))) (\<lambda>storeExists.
        if \<not> storeExists then throwM (Errorf ''requested persistent disk does not exist'' [])
        else returnM (dirs @ [Path_External (cfg_StoreDir c)]))
      else returnM dirs)"

lemma CreateJobPrerequisites_steps:
  "CreateJobPrerequisites a c p u =
     thenM (sys_err (MkdirAll (Path_External (cfg_PidDir c)) perm_0700))
     (bindM (prepare_volumes a (AdditionalVolumes p) [] []) (\<lambda>(dirs, chowns).
      bindM (store_step c p (dirs @ own_dirs c (p\<lparr>PersistentDisk := False\<rparr>))) (\<lambda>dirsToCreate.
      thenM (createDirs dirsToCreate u) (thenM (chownPaths chowns u) (createLogFiles c u)))))"
  by (cases "EphemeralDisk p") (simp_all add: CreateJobPrerequisites_def store_step_def own_dirs_def Let_def cong: if_cong)

lemma store_step_Ok:
  assumes "store_step c p dirs w = (Ok ds, w')"
  shows "ds = dirs @ (if PersistentDisk p then [Path_External (cfg_StoreDir c)] else []) \<and>
    calls w' = calls w @ (if PersistentDisk p then [Stat (filepath_Dir (Path_External (cfg_StoreDir c)))] else [])"
  using assms
  by (auto simp: store_step_def checkDirExists_def io_simps res_sum_def split: if_splits sum.splits)

text \<open>C22: when the prerequisites of a job could be made, the calls were exactly these, in this
  order: the pid directory; the look at the volumes (\<open>volume_walk\<close>); the check for the persistent disk
  when it is asked for; each volume directory that the look found missing, the log, socket and
  temporary directory, and the data and store directory when asked for, created with mode 0700 and
  given to the job's user; the ownership of every volume that is not mount-only; and the two log
  files, opened without following a symbolic link and given to the same user.\<close>

theorem prerequisites_calls:
  assumes "CreateJobPrerequisites (program_adapter sha f h cg) c p u w = (Ok (out, err), w')"
  shows "case volume_walk sha h (env w) (calls w @ [MkdirAll (Path_External (cfg_PidDir c)) perm_0700]) (AdditionalVolumes p) of
    (look, missing) \<Rightarrow>
    calls w' = calls w @ [MkdirAll (Path_External (cfg_PidDir c)) perm_0700] @ look @
      (if PersistentDisk p then [Stat (filepath_Dir (Path_External (cfg_StoreDir c)))] else []) @
      concat (map (\<lambda>d. [MkdirAll d perm_0700, Chown d (user_uid u) (user_gid u)]) (missing @ own_dirs c p)) @
      map (\<lambda>q. Chown q (user_uid u) (user_gid u)) (volume_paths p) @
      [OpenFile (Path_External (cfg_Stdout c)) append_flags perm_0600, FChown out (user_uid u) (user_gid u),
       OpenFile (Path_External (cfg_Stderr c)) append_flags perm_0600, FChown err (user_uid u) (user_gid u)]"
proof -
  let ?a = "program_adapter sha f h cg"
  from assms obtain w1 w2 w3 w4 w5 dirs chowns ds where
    1: "sys_err (MkdirAll (Path_External (cfg_PidDir c)) perm_0700) w = (Ok (), w1)"
    and 2: "prepare_volumes ?a (AdditionalVolumes p) [] [] w1 = (Ok (dirs, chowns), w2)"
    and 3: "store_step c p (dirs @ own_dirs c (p\<lparr>PersistentDisk := False\<rparr>)) w2 = (Ok ds, w3)"
    and 4: "createDirs ds u w3 = (Ok (), w4)" and 5: "chownPaths chowns u w4 = (Ok (), w5)"
    and 6: "createLogFiles c u w5 = (Ok (out, err), w')"
    unfolding CreateJobPrerequisites_steps by (auto simp: thenM_eq_Ok bindM_eq_Ok)
  note vol = prepare_volumes_Ok [OF 2] and store = store_step_Ok [OF 3]
  have ds: "ds = dirs @ own_dirs c p" using store by (simp add: own_dirs_def)
  from 1 have "calls w1 = calls w @ [MkdirAll (Path_External (cfg_PidDir c)) perm_0700]" "env w1 = env w"
    by (auto simp: sys_err_def)
  moreover note vol conjunct2 [OF store]
    succeeds_withD [OF createDirs_calls 4] succeeds_withD [OF chownPaths_calls 5] createLogFiles_Ok [OF 6]
  ultimately show ?thesis
    using ds by (simp add: split_beta volume_paths_def)
qed

lemma example_prerequisites_calm:
  "env w = calm_env \<Longrightarrow>
    \<exists>out err w'. CreateJobPrerequisites example_adapter c example_job u w = (Ok (out, err), w') \<and> env w' = calm_env"
  by (simp add: CreateJobPrerequisites_def example_job_def example_process_def checkDirExists_def createDirs_def createDirFor_def
      chownPaths_def createLogFiles_def OpenAppendChown_def calm_env_def Let_def io_simps res_sum_def res_of_def)

lemma example_prerequisites:
  "\<exists>out err w'. CreateJobPrerequisites example_adapter (example_cfg ''web'' ''web'') example_job example_user calm_world
     = (Ok (out, err), w')"
  using example_prerequisites_calm [of calm_world] by (simp add: calm_world_def) blast

text \<open>A host on which nothing is there yet, and one on which the configured volume is missing.\<close>

definition bare_env :: environment where
  "bare_env = calm_env\<lparr>r_stat := (\<lambda>h x. Inl (OsErr ENOENT ''no such file''))\<rparr>"

definition diskless_world :: world where
  "diskless_world = \<lparr>calls = [], env = bare_env\<rparr>"

lemma example_prerequisites_bare:
  "\<exists>out err w'. CreateJobPrerequisites example_adapter c example_job u diskless_world = (Ok (out, err), w')"
  by (simp add: CreateJobPrerequisites_def example_job_def example_process_def checkDirExists_def createDirs_def createDirFor_def
      chownPaths_def createLogFiles_def OpenAppendChown_def calm_env_def bare_env_def diskless_world_def Let_def io_simps res_sum_def res_of_def)

theorem prerequisites_calls_witness:
  "case CreateJobPrerequisites example_adapter (example_cfg ''web'' ''web'') example_job example_user diskless_world of
     (Ok _, w') \<Rightarrow> {MkdirAll ''/var/vcap/data/shared'' perm_0700, Chown ''/var/vcap/data/shared'' 1000 1000} \<subseteq> set (calls w')
   | _ \<Rightarrow> False"
proof -
  obtain out err w' where b: "CreateJobPrerequisites example_adapter (example_cfg ''web'' ''web'') example_job example_user
      diskless_world = (Ok (out, err), w')"
    using example_prerequisites_bare by blast
  have a: "example_adapter = program_adapter (\<lambda>s. s) \<lparr>SwapLimitSupported = True, SeccompSupported = True\<rparr>
      (NewHandle ''/var/vcap/data/bpm/locks'') None"
    by (simp add: example_adapter_def program_adapter_def)
  have "snd (volume_walk sha h (env diskless_world) hist (AdditionalVolumes example_job)) = [''/var/vcap/data/shared'']" for sha h hist
    by (simp add: example_job_def example_process_def diskless_world_def bare_env_def)
  with prerequisites_calls [OF b [unfolded a]]
  have "{MkdirAll ''/var/vcap/data/shared'' perm_0700,
      Chown ''/var/vcap/data/shared'' (user_uid example_user) (user_gid example_user)} \<subseteq> set (calls w')"
    by (auto simp: split_beta)
  with b show ?thesis by (simp add: user_uid_def user_gid_def example_user_def)
qed

lemma emits_store_step:
  "P (Stat (filepath_Dir (Path_External (cfg_StoreDir c)))) \<Longrightarrow> emits P (store_step c p dirs)"
  by (auto simp: store_step_def checkDirExists_def intro!: emits_intros)

text \<open>The calls that the look at the volumes may make, whatever the environment answers.\<close>

definition looks_at_volumes :: "(string \<Rightarrow> string) \<Rightarrow> Handle \<Rightarrow> Volume list \<Rightarrow> call \<Rightarrow> bool" where
  "looks_at_volumes sha h vols x \<longleftrightarrow>
     (case x of
        Stat q \<Rightarrow> q \<in> Path ` set vols
      | Chmod q m \<Rightarrow> q \<in> Path ` set vols \<and> m = perm_0700
      | OpenFile q fl m \<Rightarrow> q \<in> (\<lambda>v. volume_lock_path sha h (Path v)) ` {v \<in> set vols. Shared v} \<and> fl = [O_CREATE, O_RDWR]
      | Flock _ _ \<Rightarrow> True
      | Mounted q \<Rightarrow> q \<in> Path ` {v \<in> set vols. Shared v}
      | Mount _ q _ _ _ \<Rightarrow> q \<in> Path ` {v \<in> set vols. Shared v}
      | Unmount q \<Rightarrow> q \<in> Path ` {v \<in> set vols. Shared v}
      | _ \<Rightarrow> False)"

lemma emits_prepare_volumes:
  assumes "set vols \<subseteq> set all"
  shows "emits (looks_at_volumes sha h all) (prepare_volumes (program_adapter sha f h cg) vols ds ps)"
  using assms
proof (induction vols arbitrary: ds ps)
  case (Cons v vols)
  have "emits (looks_at_volumes sha h all) (makeShared (program_adapter sha f h cg) v)" if "Shared v"
    using that Cons.prems
    by (auto simp: makeShared_def program_adapter_def NewRuncAdapter_def looks_at_volumes_def intro!: emits_intros)
  moreover have "looks_at_volumes sha h all (Stat (Path v))" "looks_at_volumes sha h all (Chmod (Path v) perm_0700)"
    using Cons.prems by (simp_all add: looks_at_volumes_def)
  moreover have "emits (looks_at_volumes sha h all) (prepare_volumes (program_adapter sha f h cg) vols ds' ps')" for ds' ps'
    using Cons by simp
  ultimately show ?case unfolding prepare_volumes.simps by (intro emits_intros) simp_all
qed (simp add: emits_intros)

text \<open>C25: when the persistent disk that a job asks for is not mounted, preparing the job fails before
  any of the job's directories is created, any owner is changed or a log file is opened: the only
  calls are the one for the pid directory, the look at the configured volumes (which may set the mode
  of a volume, and create the lock file of a shared volume and mount it), and the check itself.\<close>

theorem missing_persistent_disk:
  assumes "PersistentDisk p" and "os_IsNotExist e"
    and "\<forall>h. r_stat (env w) h (Stat (filepath_Dir (Path_External (cfg_StoreDir c)))) = Inl e"
  shows "\<not> is_ok (fst (CreateJobPrerequisites (program_adapter sha f h cg) c p u w)) \<and>
    list_all (\<lambda>x. x = MkdirAll (Path_External (cfg_PidDir c)) perm_0700 \<or>
        x = Stat (filepath_Dir (Path_External (cfg_StoreDir c))) \<or> looks_at_volumes sha h (AdditionalVolumes p) x)
      (new_calls (CreateJobPrerequisites (program_adapter sha f h cg) c p u) w)"
proof -
  let ?a = "program_adapter sha f h cg" and ?pid = "MkdirAll (Path_External (cfg_PidDir c)) perm_0700"
  let ?P = "\<lambda>x. x = ?pid \<or> x = Stat (filepath_Dir (Path_External (cfg_StoreDir c))) \<or> looks_at_volumes sha h (AdditionalVolumes p) x"
  have store: "store_step c p ds w1 = (Err (Errorf ''requested persistent disk does not exist'' []),
      record_call (Stat (filepath_Dir (Path_External (cfg_StoreDir c)))) w1)"
    if "env w1 = env w" for ds w1
    using assms that by (simp add: store_step_def checkDirExists_def io_simps res_sum_def)
  have vols: "emits ?P (prepare_volumes ?a (AdditionalVolumes p) [] [])"
    by (rule emits_mono [OF emits_prepare_volumes [OF subset_refl]]) simp
  obtain r2 w2 where 2: "prepare_volumes ?a (AdditionalVolumes p) [] [] (record_call ?pid w) = (r2, w2)"
    by (cases "prepare_volumes ?a (AdditionalVolumes p) [] [] (record_call ?pid w)")
  from vols 2 obtain tr where tr: "env w2 = env w" "calls w2 = calls w @ [?pid] @ tr" "list_all ?P tr"
    by (auto simp: emits_def dest: spec [of _ "record_call ?pid w"])
  show ?thesis
  proof (cases "r_err (env w) (calls w) ?pid")
    case (Some e)
    then show ?thesis
      by (simp add: CreateJobPrerequisites_steps new_calls_def thenM_def bindM_def sys_err_def res_of_def)
  next
    case None
    then show ?thesis
      using tr store [OF tr(1)] 2
      by (cases r2) (auto simp: CreateJobPrerequisites_steps new_calls_def thenM_def bindM_def sys_err_def res_of_def)
  qed
qed

theorem missing_persistent_disk_witness:
  "\<not> is_ok (fst (CreateJobPrerequisites
     (program_adapter (\<lambda>s. s) \<lparr>SwapLimitSupported = True, SeccompSupported = True\<rparr> (NewHandle ''/l'') None)
     (example_cfg ''web'' ''web'') (example_job\<lparr>PersistentDisk := True\<rparr>) example_user diskless_world))"
  using missing_persistent_disk [of "example_job\<lparr>PersistentDisk := True\<rparr>" "OsErr ENOENT ''no such file''" diskless_world
      "example_cfg ''web'' ''web''" "\<lambda>s. s" "\<lparr>SwapLimitSupported = True, SeccompSupported = True\<rparr>" "NewHandle ''/l''" None example_user]
  by (simp add: diskless_world_def bare_env_def)

section \<open>BuildSpec only reads\<close>

definition reads_only :: "call \<Rightarrow> bool" where
  "reads_only x \<longleftrightarrow> (case x of Stat _ \<Rightarrow> True | Lstat _ \<Rightarrow> True | Glob _ \<Rightarrow> True | ReadFile _ \<Rightarrow> True | ReadDir _ \<Rightarrow> True | _ \<Rightarrow> False)"

end
