(* ===== verification/Client.thy ===== *)
theory Client
  imports Adapter
begin

text \<open>
  Package \<open>client\<close> (\<open>src/bpm/runc/client/client.go\<close>): bundles on disk and the command lines bpm hands
  to runc. Encoding and decoding JSON is the Go library's work and a parameter of the operations that
  use it. The container operations promise, as a locale, that they touch one container only.
\<close>

section \<open>Data\<close>

record ContainerState =
  CS_ID :: string
  InitProcessPid :: int
  CS_Status :: string

text \<open>The fields of \<open>specs.State\<close> that bpm reads.\<close>

record State =
  St_ID :: string
  St_Status :: string
  St_Pid :: int

record RuncClient =
  runcPath :: string
  runcRoot :: string
  inSystemd :: bool

definition NewRuncClient :: "string \<Rightarrow> string \<Rightarrow> bool \<Rightarrow> RuncClient" where
  "NewRuncClient path rt systemd = \<lparr>runcPath = path, runcRoot = rt, inSystemd = systemd\<rparr>"

section \<open>Operations\<close>

definition buildCmd :: "RuncClient \<Rightarrow> string \<Rightarrow> string list \<Rightarrow> command" where
  "buildCmd c command extra =
     exec_Command (runcPath c)
       ([''--root'', runcRoot c] @ (if inSystemd c then [''--systemd-cgroup''] else []) @ [command] @ extra)"

definition perm_0755 :: nat where "perm_0755 = 493"

definition CreateBundle :: "(Spec \<Rightarrow> string) \<Rightarrow> string \<Rightarrow> Spec \<Rightarrow> User \<Rightarrow> unit io" where
  "CreateBundle encode bundlePath jobSpec user =
     thenM (sys_err (MkdirAll bundlePath perm_0700))
     (thenM (sys_err (MkdirAll (filepath_Join [bundlePath, ''rootfs'']) perm_0755))
     (bindM (sys_fd (OpenFile (filepath_Join [bundlePath, ''config.json'']) [O_RDWR, O_CREATE] perm_0600)) (\<lambda>f.
      deferM (sys_err (WriteFd f (encode jobSpec))) (sys_err (CloseFd f)))))"

text \<open>The exit status of a failed run comes from the process state, which is missing when the
  command could not be started at all; asking it for the status then panics.\<close>

definition RunContainer ::
  "RuncClient \<Rightarrow> string \<Rightarrow> string \<Rightarrow> string \<Rightarrow> bool \<Rightarrow> stream list \<Rightarrow> stream list \<Rightarrow> (int \<times> go_error option) io" where
  "RunContainer c pidFilePath bundlePath containerID detach stdout stderr =
     (let args = [''--bundle'', bundlePath] @
            (if detach then [''--pid-file'', pidFilePath, ''--detach''] else []) @ [containerID];
          runcCmd = (buildCmd c ''run'' args)\<lparr>cmd_stdout := stdout, cmd_stderr := stderr\<rparr>
      in bindM (sys_cmd (RunCmd runcCmd)) (\<lambda>r.
           case r of
             CmdOk \<Rightarrow> returnM (0, None)
           | CmdNotStarted err \<Rightarrow> abortM (Panic ''nil pointer dereference'')
           | CmdFailed (Some status) err \<Rightarrow> returnM (status, Some err)
           | CmdFailed None err \<Rightarrow> returnM (1, Some err)))"

definition Exec :: "RuncClient \<Rightarrow> string \<Rightarrow> string \<Rightarrow> stream list \<Rightarrow> stream list \<Rightarrow> stream list \<Rightarrow> unit io" where
  "Exec c containerID command stdin stdout stderr =
     bindM (sys_str (Getenv ''TERM'')) (\<lambda>term.
     run_cmd ((buildCmd c ''exec'' [''--tty'', ''--env'', ''TERM='' @ term, containerID, command])
       \<lparr>cmd_stdin := stdin, cmd_stdout := stdout, cmd_stderr := stderr\<rparr>))"

definition decodeContainerStateErr :: "(string \<Rightarrow> go_error + string) \<Rightarrow> string \<Rightarrow> go_error \<Rightarrow> go_error option" where
  "decodeContainerStateErr decodeMsg b err =
     (case decodeMsg b of
        Inl _ \<Rightarrow> Some err
      | Inr msg \<Rightarrow> if strings_Contains msg ''container does not exist'' then None else Some err)"

text \<open>A \<open>nil\<close> state with a \<open>nil\<close> error is \<open>Ok None\<close>.\<close>

definition ContainerState_op ::
  "(string \<Rightarrow> go_error + string) \<Rightarrow> (string \<Rightarrow> go_error + State) \<Rightarrow> RuncClient \<Rightarrow> string \<Rightarrow> State option io" where
  "ContainerState_op decodeMsg decodeState c containerID =
     bindM (sys_out (CombinedOutputCmd (buildCmd c ''--log-format'' [''json'', ''state'', containerID]))) (\<lambda>(data, r).
       case cmd_err r of
         Some err \<Rightarrow> (case decodeContainerStateErr decodeMsg data err of None \<Rightarrow> returnM None | Some e \<Rightarrow> throwM e)
       | None \<Rightarrow> bindM (liftM (res_sum (decodeState data))) (\<lambda>state. returnM (Some state)))"

definition ListContainers :: "(string \<Rightarrow> go_error + ContainerState list) \<Rightarrow> RuncClient \<Rightarrow> ContainerState list io" where
  "ListContainers decodeList c =
     bindM (sys_out (OutputCmd (buildCmd c ''list'' [''--format'', ''json'']))) (\<lambda>(data, r).
       case cmd_err r of
         Some err \<Rightarrow> throwM err
       | None \<Rightarrow> liftM (res_sum (decodeList data)))"

definition SignalContainer :: "RuncClient \<Rightarrow> string \<Rightarrow> Signal \<Rightarrow> unit io" where
  "SignalContainer c containerID signal = run_cmd (buildCmd c ''kill'' [containerID, Signal_String signal])"

definition DeleteContainer :: "RuncClient \<Rightarrow> string \<Rightarrow> unit io" where
  "DeleteContainer c containerID = run_cmd (buildCmd c ''delete'' [''--force'', containerID])"

definition DestroyBundle :: "string \<Rightarrow> unit io" where
  "DestroyBundle bundlePath = sys_err (RemoveAll bundlePath)"

section \<open>The client as the lifecycle sees it\<close>

text \<open>The JSON library, as the operations use it.\<close>

record json_codec =
  encodeSpec :: "Spec \<Rightarrow> string"
  decodeMsg :: "string \<Rightarrow> go_error + string"
  decodeState :: "string \<Rightarrow> go_error + State"
  decodeList :: "string \<Rightarrow> go_error + ContainerState list"

text \<open>The interface \<open>RuncClient\<close> of \<open>src/bpm/runc/lifecycle/lifecycle.go\<close>.\<close>

record runc_ops =
  op_CreateBundle :: "string \<Rightarrow> Spec \<Rightarrow> User \<Rightarrow> unit io"
  op_RunContainer :: "string \<Rightarrow> string \<Rightarrow> string \<Rightarrow> bool \<Rightarrow> stream list \<Rightarrow> stream list \<Rightarrow> (int \<times> go_error option) io"
  op_Exec :: "string \<Rightarrow> string \<Rightarrow> stream list \<Rightarrow> stream list \<Rightarrow> stream list \<Rightarrow> unit io"
  op_ContainerState :: "string \<Rightarrow> State option io"
  op_ListContainers :: "ContainerState list io"
  op_SignalContainer :: "string \<Rightarrow> Signal \<Rightarrow> unit io"
  op_DeleteContainer :: "string \<Rightarrow> unit io"
  op_DestroyBundle :: "string \<Rightarrow> unit io"

definition runc_client_ops :: "json_codec \<Rightarrow> RuncClient \<Rightarrow> runc_ops" where
  "runc_client_ops j c =
     \<lparr>op_CreateBundle = CreateBundle (encodeSpec j),
      op_RunContainer = RunContainer c,
      op_Exec = Exec c,
      op_ContainerState = ContainerState_op (decodeMsg j) (decodeState j) c,
      op_ListContainers = ListContainers (decodeList j) c,
      op_SignalContainer = SignalContainer c,
      op_DeleteContainer = DeleteContainer c,
      op_DestroyBundle = DestroyBundle\<rparr>"

text \<open>
  What the lifecycle relies on: the operations on a container make only calls that concern that
  container, which the model marks by \<open>mine\<close>, and asking for a state, sending a signal and deleting
  return, with a value or an error.
\<close>

locale runc_api =
  fixes ops :: runc_ops and mine :: "string \<Rightarrow> call \<Rightarrow> bool"
  assumes state_mine: "emits (mine cid) (op_ContainerState ops cid)"
    and signal_mine: "emits (mine cid) (op_SignalContainer ops cid s)"
    and delete_mine: "emits (mine cid) (op_DeleteContainer ops cid)"
    and run_mine: "emits (mine cid) (op_RunContainer ops pidfile bundle cid detach out err)"
    and state_total: "fst (op_ContainerState ops cid w) \<noteq> Abort x"
    and signal_total: "fst (op_SignalContainer ops cid s w) \<noteq> Abort x"
    and delete_total: "fst (op_DeleteContainer ops cid w) \<noteq> Abort x"
begin

lemmas api_emits = state_mine signal_mine delete_mine run_mine

text \<open>A state request ends in one of the three ways that its comment lists.\<close>

lemma state_cases:
  obtains (Running) st w' where "op_ContainerState ops cid w = (Ok (Some st), w')"
  | (Gone) w' where "op_ContainerState ops cid w = (Ok None, w')"
  | (Failed) e w' where "op_ContainerState ops cid w = (Err e, w')"
proof -
  obtain r w' where r: "op_ContainerState ops cid w = (r, w')" by (cases "op_ContainerState ops cid w")
  show thesis
  proof (cases r)
    case (Ok a)
    with r that(1,2) show thesis by (cases a) auto
  next
    case (Err e)
    with r that(3) show thesis by auto
  next
    case (Abort x)
    with r state_total [of cid w x] show thesis by simp
  qed
qed

lemma signal_cases:
  obtains (Sent) w' where "op_SignalContainer ops cid s w = (Ok (), w')"
  | (Failed) e w' where "op_SignalContainer ops cid s w = (Err e, w')"
proof -
  obtain r w' where r: "op_SignalContainer ops cid s w = (r, w')" by (cases "op_SignalContainer ops cid s w")
  show thesis
  proof (cases r)
    case (Abort x)
    with r signal_total [of cid s w x] show thesis by simp
  qed (use r that in auto)
qed

lemma state_env: "op_ContainerState ops cid w = (r, w') \<Longrightarrow> env w' = env w"
  using emits_env [OF state_mine, of cid w] by simp

lemma signal_env: "op_SignalContainer ops cid s w = (r, w') \<Longrightarrow> env w' = env w"
  using emits_env [OF signal_mine, of cid s w] by simp

end

section \<open>The runc client implements the interface\<close>

definition command_of :: "call \<Rightarrow> command option" where
  "command_of x = (case x of RunCmd k \<Rightarrow> Some k | OutputCmd k \<Rightarrow> Some k | CombinedOutputCmd k \<Rightarrow> Some k | StartCmd k \<Rightarrow> Some k | _ \<Rightarrow> None)"

text \<open>A runc command of this client, on its root directory, that names the container.\<close>

definition runc_on :: "RuncClient \<Rightarrow> string \<Rightarrow> call \<Rightarrow> bool" where
  "runc_on c cid x \<longleftrightarrow>
     (case command_of x of
        None \<Rightarrow> False
      | Some k \<Rightarrow> cmd_path k = runcPath c \<and> take 2 (cmd_args k) = [''--root'', runcRoot c] \<and> cid \<in> set (cmd_args k))"

lemma runc_on_buildCmd:
  assumes "cid \<in> set extra"
  shows "runc_on c cid (RunCmd (buildCmd c sub extra))"
    "runc_on c cid (CombinedOutputCmd (buildCmd c sub extra))"
    "runc_on c cid (RunCmd ((buildCmd c sub extra)\<lparr>cmd_stdout := out, cmd_stderr := err\<rparr>))"
  using assms by (simp_all add: runc_on_def command_of_def buildCmd_def exec_Command_def)

lemma emits_cmd_result [emits_intros]:
  "(r = CmdOk \<Longrightarrow> emits P a) \<Longrightarrow> (\<And>e. r = CmdNotStarted e \<Longrightarrow> emits P (b e)) \<Longrightarrow>
    (\<And>s e. r = CmdFailed s e \<Longrightarrow> emits P (d s e)) \<Longrightarrow>
    emits P (case r of CmdOk \<Rightarrow> a | CmdNotStarted e \<Rightarrow> b e | CmdFailed s e \<Rightarrow> d s e)"
  by (cases r) auto

lemma run_cmd_total: "fst (run_cmd k w) \<noteq> Abort x"
  by (auto simp: run_cmd_def io_simps res_of_def split: option.splits)

lemma emits_ContainerState [emits_intros]:
  "P (CombinedOutputCmd (buildCmd c ''--log-format'' [''json'', ''state'', cid])) \<Longrightarrow>
    emits P (ContainerState_op dm ds c cid)"
  by (auto simp: ContainerState_op_def intro!: emits_intros)

lemma ContainerState_total: "fst (ContainerState_op dm ds c cid w) \<noteq> Abort x"
  by (auto simp: ContainerState_op_def io_simps res_sum_def split: option.splits sum.splits)

lemma emits_RunContainer [emits_intros]:
  "(\<And>args. cid \<in> set args \<Longrightarrow> P (RunCmd ((buildCmd c ''run'' args)\<lparr>cmd_stdout := out, cmd_stderr := err\<rparr>))) \<Longrightarrow>
    emits P (RunContainer c pidfile bundle cid detach out err)"
  by (auto simp: RunContainer_def Let_def intro!: emits_intros)

interpretation runc: runc_api "runc_client_ops j c" "runc_on c"
proof (unfold_locales, goal_cases)
  case 1
  then show ?case by (simp add: runc_client_ops_def emits_intros runc_on_buildCmd)
next
  case 2
  then show ?case by (simp add: runc_client_ops_def SignalContainer_def emits_intros runc_on_buildCmd)
next
  case 3
  then show ?case by (simp add: runc_client_ops_def DeleteContainer_def emits_intros runc_on_buildCmd)
next
  case 4
  then show ?case by (simp add: runc_client_ops_def emits_intros runc_on_buildCmd)
qed (simp_all add: runc_client_ops_def ContainerState_total SignalContainer_def DeleteContainer_def run_cmd_total)

section \<open>Asking for the state of a container\<close>

text \<open>The one call of a state request, and what runc's answer after a history comes to: a state, no
  container, or an error.\<close>

abbreviation state_request :: "RuncClient \<Rightarrow> string \<Rightarrow> call" where
  "state_request c cid \<equiv> CombinedOutputCmd (buildCmd c ''--log-format'' [''json'', ''state'', cid])"

definition state_answer :: "json_codec \<Rightarrow> RuncClient \<Rightarrow> string \<Rightarrow> environment \<Rightarrow> call list \<Rightarrow> State option res" where
  "state_answer json c cid e h =
     (let out = r_out e h (state_request c cid) in
      case cmd_err (r_cmd e h (state_request c cid)) of
        Some err \<Rightarrow> (case decodeMsg json out of
            Inl _ \<Rightarrow> Err err
          | Inr msg \<Rightarrow> if strings_Contains msg ''container does not exist'' then Ok None else Err err)
      | None \<Rightarrow> (case decodeState json out of Inl err \<Rightarrow> Err err | Inr st \<Rightarrow> Ok (Some st)))"

lemma ContainerState_answer:
  "ContainerState_op (decodeMsg json) (decodeState json) c cid w =
     (state_answer json c cid (env w) (calls w), record_call (state_request c cid) w)"
  by (auto simp: ContainerState_op_def state_answer_def decodeContainerStateErr_def io_simps res_sum_def Let_def
      split: option.splits sum.splits)

lemma cmd_err_None [simp]: "cmd_err r = None \<longleftrightarrow> r = CmdOk"
  by (cases r) simp_all

lemma state_answer_total: "state_answer json c cid e h \<noteq> Abort x"
  by (simp add: state_answer_def Let_def split: option.split sum.split)

section \<open>Running a container\<close>

text \<open>\<open>RunContainer\<close> makes one call, \<open>runc run\<close> for the bundle and the container, with the pid file
  and \<open>--detach\<close> exactly when asked to detach. It reports status 0 without an error when runc
  succeeded, the exit status of runc together with the error when runc ran and failed, 1 when that
  status is not known, and panics when runc could not be started, where its comment promises a
  generic failure.\<close>

lemma run_container_outcome:
  "let k = (buildCmd c ''run'' ([''--bundle'', bundle] @
         (if detach then [''--pid-file'', pidfile, ''--detach''] else []) @ [cid]))\<lparr>cmd_stdout := out, cmd_stderr := err\<rparr>
   in RunContainer c pidfile bundle cid detach out err w =
        (case r_cmd (env w) (calls w) (RunCmd k) of
           CmdOk \<Rightarrow> Ok (0, None)
         | CmdFailed s e \<Rightarrow> Ok (case s of Some n \<Rightarrow> n | None \<Rightarrow> 1, Some e)
         | CmdNotStarted e \<Rightarrow> Abort (Panic ''nil pointer dereference''),
         record_call (RunCmd k) w)"
  by (auto simp: RunContainer_def Let_def io_simps split: cmd_result.splits option.splits)

end
