(* ===== verification/Lifecycle.thy ===== *)
theory Lifecycle
  imports Client
begin

text \<open>
  Package \<open>lifecycle\<close> (\<open>src/bpm/runc/lifecycle/lifecycle.go\<close>) with package \<open>models\<close>: starting, running,
  stopping and removing the process of a job. As in the source the lifecycle holds its client and its
  adapter as interfaces, here records of operations; the user finder, the command runner, the clock and
  the deletion of files are the ones that the commands pass in. The loop of \<open>StopProcess\<close> has no bound
  of its own and takes fuel, one unit per round of its \<open>select\<close>.
\<close>

section \<open>Data\<close>

definition ContainerSigQuitGracePeriod :: nat where "ContainerSigQuitGracePeriod = 2000000000"
definition ContainerStatePollInterval :: nat where "ContainerStatePollInterval = 1000000000"

definition ContainerStateRunning :: string where "ContainerStateRunning = ''running''"
definition ContainerStatePaused :: string where "ContainerStatePaused = ''paused''"
definition ContainerStateStopped :: string where "ContainerStateStopped = ''stopped''"

text \<open>\<open>src/bpm/models/models.go\<close>\<close>

definition ProcessStateFailed :: string where "ProcessStateFailed = ''failed''"
definition ProcessStateRunning :: string where "ProcessStateRunning = ''running''"
definition ProcessStateStopped :: string where "ProcessStateStopped = ''stopped''"
definition ProcessStateCreating :: string where "ProcessStateCreating = ''creating''"
definition ProcessStateCreated :: string where "ProcessStateCreated = ''created''"

record Process =
  P_Name :: string
  Pid :: int
  P_Status :: string

fun lifecycle_IsNotExist :: "go_error \<Rightarrow> bool" where
  "lifecycle_IsNotExist IsNotExistError = True"
| "lifecycle_IsNotExist _ = False"

text \<open>The interface \<open>RuncAdapter\<close> of the lifecycle.\<close>

record adapter_ops =
  op_CreateJobPrerequisites :: "bpm_config \<Rightarrow> ProcessConfig \<Rightarrow> User \<Rightarrow> (nat \<times> nat) io"
  op_BuildSpec :: "bpm_config \<Rightarrow> ProcessConfig \<Rightarrow> User \<Rightarrow> Spec io"

record RuncLifecycle =
  runcClient :: runc_ops
  runcAdapter :: adapter_ops

definition NewRuncLifecycle :: "runc_ops \<Rightarrow> adapter_ops \<Rightarrow> RuncLifecycle" where
  "NewRuncLifecycle client adapter = \<lparr>runcClient = client, runcAdapter = adapter\<rparr>"

section \<open>States\<close>

definition containerStateToString :: "string \<Rightarrow> string" where
  "containerStateToString cs =
     (if cs = ''creating'' then ProcessStateCreating
      else if cs = ''created'' then ProcessStateCreated
      else if cs = ''running'' then ProcessStateRunning
      else if cs = ''stopped'' then ProcessStateFailed
      else ProcessStateFailed)"

definition containerStateFromString :: "string \<Rightarrow> string" where
  "containerStateFromString status =
     (if status = ProcessStateCreating then ''creating''
      else if status = ProcessStateCreated then ''created''
      else if status = ProcessStateRunning then ''running''
      else if status = ProcessStateFailed then ''stopped''
      else ProcessStateFailed)"

definition newProcessFromContainerState :: "string \<Rightarrow> string \<Rightarrow> int \<Rightarrow> Process" where
  "newProcessFromContainerState cid status pid =
     \<lparr>P_Name = cid, Pid = pid, P_Status = containerStateToString status\<rparr>"

section \<open>Operations\<close>

definition setupProcess :: "RuncLifecycle \<Rightarrow> bpm_config \<Rightarrow> ProcessConfig \<Rightarrow> (nat \<times> nat) io" where
  "setupProcess j bpmCfg procCfg =
     bindM (Lookup VcapUser) (\<lambda>user.
     bindM (mapErrM (\<lambda>err. Errorf ''failed to create system files: %s'' [AErr err])
              (op_CreateJobPrerequisites (runcAdapter j) bpmCfg procCfg user)) (\<lambda>(stdout, stderr).
     bindM (op_BuildSpec (runcAdapter j) bpmCfg procCfg user) (\<lambda>spec.
     thenM (mapErrM (\<lambda>err. Errorf ''bundle build failure: %s'' [AErr err])
              (op_CreateBundle (runcClient j) (cfg_BundlePath bpmCfg) spec user))
     (thenM (case PHooks procCfg of
               None \<Rightarrow> returnM ()
             | Some hooks \<Rightarrow>
                 mapErrM (\<lambda>err. Errorf ''prestart hook failed: %s'' [AErr err])
                   (run_cmd ((exec_Command (PreStart hooks) [])
                      \<lparr>cmd_env := Some (SpEnv (SProcess spec)), cmd_stdout := [Fd stdout], cmd_stderr := [Fd stderr]\<rparr>)))
     (returnM (stdout, stderr))))))"

definition StartProcess :: "RuncLifecycle \<Rightarrow> bpm_config \<Rightarrow> ProcessConfig \<Rightarrow> unit io" where
  "StartProcess j bpmCfg procCfg =
     bindM (setupProcess j bpmCfg procCfg) (\<lambda>(stdout, stderr).
     deferM (deferM
       (bindM (op_RunContainer (runcClient j) (Path_External (cfg_PidFile bpmCfg)) (cfg_BundlePath bpmCfg)
                 (cfg_ContainerID bpmCfg) True [Fd stdout] [Fd stderr])
          (\<lambda>(status, err). liftM (res_of err)))
       (sys_err (CloseFd stderr))) (sys_err (CloseFd stdout)))"

text \<open>The status and the error are returned together.\<close>

definition RunProcess :: "RuncLifecycle \<Rightarrow> bpm_config \<Rightarrow> ProcessConfig \<Rightarrow> (int \<times> go_error option) io" where
  "RunProcess j bpmCfg procCfg =
     bindM (attemptM (setupProcess j bpmCfg procCfg)) (\<lambda>r.
       case r of
         Inl err \<Rightarrow> returnM (0, Some err)
       | Inr (stdout, stderr) \<Rightarrow>
           deferM (deferM
             (op_RunContainer (runcClient j) (Path_External (cfg_PidFile bpmCfg)) (cfg_BundlePath bpmCfg)
                (cfg_ContainerID bpmCfg) False [Fd stdout, StdOut] [Fd stderr, StdErr])
             (sys_err (CloseFd stderr))) (sys_err (CloseFd stdout)))"

definition StatProcess :: "RuncLifecycle \<Rightarrow> bpm_config \<Rightarrow> Process io" where
  "StatProcess j cfg =
     bindM (op_ContainerState (runcClient j) (cfg_ContainerID cfg)) (\<lambda>container.
       case container of
         None \<Rightarrow> throwM IsNotExistError
       | Some st \<Rightarrow> returnM (newProcessFromContainerState (St_ID st) (St_Status st) (St_Pid st)))"

definition OpenShell :: "RuncLifecycle \<Rightarrow> bpm_config \<Rightarrow> stream list \<Rightarrow> stream list \<Rightarrow> stream list \<Rightarrow> unit io" where
  "OpenShell j cfg stdin stdout stderr = op_Exec (runcClient j) (cfg_ContainerID cfg) ''/bin/bash'' stdin stdout stderr"

definition ListProcesses :: "RuncLifecycle \<Rightarrow> Process list io" where
  "ListProcesses j =
     bindM (op_ListContainers (runcClient j)) (\<lambda>containers.
     returnM (map (\<lambda>c. newProcessFromContainerState (CS_ID c) (containerStateFromString (CS_Status c)) (InitProcessPid c)) containers))"

text \<open>One look at the container: whether it has stopped. An error is logged and the wait goes on; a
  container that is gone has a \<open>nil\<close> state, whose status cannot be read.\<close>

definition container_stopped :: "RuncLifecycle \<Rightarrow> string \<Rightarrow> bool io" where
  "container_stopped j cid =
     bindM (attemptM (op_ContainerState (runcClient j) cid)) (\<lambda>r.
       case r of
         Inl err \<Rightarrow> returnM False
       | Inr None \<Rightarrow> abortM (Panic ''nil pointer dereference'')
       | Inr (Some st) \<Rightarrow> returnM (St_Status st = ContainerStateStopped))"

fun stop_loop :: "nat \<Rightarrow> RuncLifecycle \<Rightarrow> string \<Rightarrow> unit io" where
  "stop_loop 0 j cid = abortM NoFuel"
| "stop_loop (Suc fuel) j cid =
     bindM (sys_event Select) (\<lambda>ev.
       if ev = TimedOut
       then thenM (ignoreM (op_SignalContainer (runcClient j) cid Signal_Quit))
            (thenM (sys_do (Sleep ContainerSigQuitGracePeriod)) (throwM TimeoutError))
       else bindM (container_stopped j cid) (\<lambda>stopped.
            if stopped then returnM () else stop_loop fuel j cid))"

definition StopProcess :: "nat \<Rightarrow> RuncLifecycle \<Rightarrow> bpm_config \<Rightarrow> ProcessConfig \<Rightarrow> nat \<Rightarrow> unit io" where
  "StopProcess fuel j cfg procCfg exitTimeout =
     thenM (op_SignalContainer (runcClient j) (cfg_ContainerID cfg) (ParseShutdownSignal procCfg))
     (bindM (container_stopped j (cfg_ContainerID cfg)) (\<lambda>stopped.
      if stopped then returnM ()
      else thenM (sys_do (NewTimer exitTimeout))
        (thenM (sys_do (NewTicker ContainerStatePollInterval))
        (deferM (stop_loop fuel j (cfg_ContainerID cfg)) (sys_do StopTicker)))))"

definition RemoveProcess :: "RuncLifecycle \<Rightarrow> bpm_config \<Rightarrow> unit io" where
  "RemoveProcess j cfg =
     thenM (op_DeleteContainer (runcClient j) (cfg_ContainerID cfg))
     (thenM (op_DestroyBundle (runcClient j) (cfg_BundlePath cfg))
     (sys_err (RemoveAll (Path_External (cfg_PidFile cfg)))))"

section \<open>Waiting for a container to stop\<close>

text \<open>How the wait can end: with the container seen stopped; with the timeout, after a quit signal and
  the grace period; with the panic on a container that is gone; or out of fuel.\<close>

definition wait_result :: "runc_ops \<Rightarrow> string \<Rightarrow> unit res \<Rightarrow> world \<Rightarrow> bool" where
  "wait_result ops cid r w' \<longleftrightarrow>
     (case r of
        Ok _ \<Rightarrow> (\<exists>w1 st. op_ContainerState ops cid w1 = (Ok (Some st), w') \<and> St_Status st = ContainerStateStopped)
      | Err e \<Rightarrow> e = TimeoutError \<and>
          (\<exists>w1 r1 w2. op_SignalContainer ops cid Signal_Quit w1 = (r1, w2) \<and>
             w' = record_call (Sleep ContainerSigQuitGracePeriod) w2)
      | Abort x \<Rightarrow> x = NoFuel \<or>
          x = Panic ''nil pointer dereference'' \<and> (\<exists>w1. op_ContainerState ops cid w1 = (Ok None, w')))"

text \<open>The timer: once \<open>n\<close> more rounds of the loop have passed, the \<open>select\<close> receives the timeout. The ticker
  fires once a second, so a timer of \<open>t\<close> seconds leaves at most about \<open>t\<close> rounds before it.\<close>

definition selects :: "call list \<Rightarrow> nat" where
  "selects h = count_list h Select"

definition fires_within :: "nat \<Rightarrow> world \<Rightarrow> bool" where
  "fires_within n w \<longleftrightarrow> (\<forall>h. selects (calls w) + n \<le> selects h \<longrightarrow> r_event (env w) h Select = TimedOut)"

lemma selects_append [simp]: "selects (h @ h') = selects h + selects h'"
  by (simp add: selects_def)

lemma fires_within_later:
  assumes "fires_within n w" and "env w' = env w" and "calls w' = calls w @ tr"
  shows "fires_within n w'"
  using assms by (simp add: fires_within_def)

lemma fires_within_round:
  assumes "fires_within (Suc n) w" and "env w' = env w" and "calls w' = calls w @ Select # tr"
  shows "fires_within n w'"
  using assms by (simp add: fires_within_def selects_def)

definition clock_call :: "call \<Rightarrow> bool" where
  "clock_call x \<longleftrightarrow> (case x of Select \<Rightarrow> True | Sleep _ \<Rightarrow> True | NewTimer _ \<Rightarrow> True | NewTicker _ \<Rightarrow> True | StopTicker \<Rightarrow> True | _ \<Rightarrow> False)"

locale lifecycle_api =
  runc_api "runcClient j" mine for j :: RuncLifecycle and mine :: "string \<Rightarrow> call \<Rightarrow> bool"
begin

lemma container_stopped_cases:
  obtains (Stopped) st w' where "op_ContainerState (runcClient j) cid w = (Ok (Some st), w')"
      "St_Status st = ContainerStateStopped" "container_stopped j cid w = (Ok True, w')"
  | (Waiting) w' where "container_stopped j cid w = (Ok False, w')"
  | (Gone) w' where "op_ContainerState (runcClient j) cid w = (Ok None, w')"
      "container_stopped j cid w = (Abort (Panic ''nil pointer dereference''), w')"
proof (cases rule: state_cases [of cid w])
  case (Running st w')
  then show thesis
    using that(1) [of st w'] that(2) [of w']
    by (cases "St_Status st = ContainerStateStopped") (auto simp: container_stopped_def io_simps)
next
  case (Gone w')
  then show thesis using that(3) [of w'] by (simp add: container_stopped_def io_simps)
next
  case (Failed e w')
  then show thesis using that(2) [of w'] by (simp add: container_stopped_def io_simps)
qed

lemma emits_container_stopped: "emits (mine cid) (container_stopped j cid)"
  unfolding container_stopped_def by (intro emits_intros state_mine)

lemma container_stopped_world:
  assumes "container_stopped j cid w = (r, w')"
  shows "env w' = env w" and "\<exists>tr. calls w' = calls w @ tr"
proof -
  have "env (snd (container_stopped j cid w)) = env w \<and>
      (\<exists>tr. calls (snd (container_stopped j cid w)) = calls w @ tr \<and> list_all (mine cid) tr)"
    using emits_container_stopped unfolding emits_def by blast
  with assms show "env w' = env w" and "\<exists>tr. calls w' = calls w @ tr" by auto
qed

text \<open>One round of the loop.\<close>

lemma stop_loop_timeout:
  assumes "r_event (env w) (calls w) Select = TimedOut"
  shows "\<exists>r1 w2. op_SignalContainer (runcClient j) cid Signal_Quit (record_call Select w) = (r1, w2) \<and>
    (\<forall>fuel. stop_loop (Suc fuel) j cid w = (Err TimeoutError, record_call (Sleep ContainerSigQuitGracePeriod) w2))"
  using assms
  by (cases rule: signal_cases [of cid Signal_Quit "record_call Select w"]) (auto simp: io_simps)

lemma stop_loop_tick:
  assumes "r_event (env w) (calls w) Select \<noteq> TimedOut"
  shows "stop_loop (Suc fuel) j cid w =
    (case container_stopped j cid (record_call Select w) of
       (Ok True, w1) \<Rightarrow> (Ok (), w1) | (Ok False, w1) \<Rightarrow> stop_loop fuel j cid w1
     | (Err e, w1) \<Rightarrow> (Err e, w1) | (Abort x, w1) \<Rightarrow> (Abort x, w1))"
  using assms by (auto simp: sys_event_def bindM_def returnM_def split: prod.splits res.splits bool.splits)

lemma stop_loop_result: "wait_result (runcClient j) cid (fst (stop_loop fuel j cid w)) (snd (stop_loop fuel j cid w))"
proof (induction fuel arbitrary: w)
  case 0
  then show ?case by (simp add: abortM_def wait_result_def)
next
  case (Suc fuel)
  show ?case
  proof (cases "r_event (env w) (calls w) Select = TimedOut")
    case True
    from stop_loop_timeout [OF this, of cid] obtain r1 w2 where
      "op_SignalContainer (runcClient j) cid Signal_Quit (record_call Select w) = (r1, w2)"
      "stop_loop (Suc fuel) j cid w = (Err TimeoutError, record_call (Sleep ContainerSigQuitGracePeriod) w2)"
      by blast
    then show ?thesis by (auto simp: wait_result_def simp del: stop_loop.simps)
  next
    case False
    show ?thesis
    proof (cases rule: container_stopped_cases [of cid "record_call Select w"])
      case (Waiting w')
      with Suc.IH show ?thesis by (simp add: stop_loop_tick [OF False] del: stop_loop.simps)
    qed (auto simp: stop_loop_tick [OF False] wait_result_def simp del: stop_loop.simps)
  qed
qed

lemma stop_loop_terminates:
  "fires_within n w \<Longrightarrow> n < fuel \<Longrightarrow>
    fst (stop_loop fuel j cid w) \<noteq> Abort NoFuel \<and> stop_loop fuel j cid w = stop_loop (Suc n) j cid w"
proof (induction n arbitrary: fuel w)
  case 0
  then obtain k where k: "fuel = Suc k" by (cases fuel) auto
  have "r_event (env w) (calls w) Select = TimedOut" using 0(1) by (simp add: fires_within_def)
  from stop_loop_timeout [OF this, of cid] show ?case unfolding k by (auto simp del: stop_loop.simps)
next
  case (Suc n)
  then obtain k where k: "fuel = Suc k" "n < k" by (cases fuel) auto
  show ?case
  proof (cases "r_event (env w) (calls w) Select = TimedOut")
    case True
    from stop_loop_timeout [OF this, of cid] show ?thesis unfolding k by (auto simp del: stop_loop.simps)
  next
    case False
    show ?thesis
    proof (cases rule: container_stopped_cases [of cid "record_call Select w"])
      case (Waiting w1)
      obtain tr where "calls w1 = calls w @ Select # tr" "env w1 = env w"
        using container_stopped_world [OF Waiting] by auto
      then have "fires_within n w1" using fires_within_round [OF Suc.prems(1)] by blast
      from Suc.IH [OF this k(2)] show ?thesis
        unfolding k(1) by (auto simp: stop_loop_tick [OF False] Waiting simp del: stop_loop.simps)
    qed (simp_all add: k(1) stop_loop_tick [OF False] del: stop_loop.simps)
  qed
qed

text \<open>Stopping makes only calls on the container and on the clock.\<close>

lemma emits_stop_loop: "emits (\<lambda>x. mine cid x \<or> clock_call x) (stop_loop fuel j cid)"
proof (induction fuel)
  case (Suc fuel)
  have ops: "emits (\<lambda>x. mine cid x \<or> clock_call x) (op_SignalContainer (runcClient j) cid s)"
    "emits (\<lambda>x. mine cid x \<or> clock_call x) (container_stopped j cid)" for s
    by (rule emits_mono [OF signal_mine] emits_mono [OF emits_container_stopped], simp)+
  show ?case unfolding stop_loop.simps by (intro emits_intros ops Suc.IH) (simp_all add: clock_call_def)
qed (simp add: emits_intros)

lemma emits_StopProcess: "emits (\<lambda>x. mine (cfg_ContainerID c) x \<or> clock_call x) (StopProcess fuel j c p t)"
proof -
  have ops: "emits (\<lambda>x. mine cid x \<or> clock_call x) (op_SignalContainer (runcClient j) cid s)"
    "emits (\<lambda>x. mine cid x \<or> clock_call x) (container_stopped j cid)" for s cid
    by (rule emits_mono [OF signal_mine] emits_mono [OF emits_container_stopped], simp)+
  show ?thesis
    unfolding StopProcess_def by (intro emits_intros ops emits_stop_loop) (simp_all add: clock_call_def)
qed

text \<open>The whole of \<open>StopProcess\<close>, by what its first two requests answer.\<close>

lemma StopProcess_cases:
  obtains (NotSignalled) e w1 where
    "op_SignalContainer (runcClient j) (cfg_ContainerID c) (ParseShutdownSignal p) w = (Err e, w1)"
    "\<And>fuel. StopProcess fuel j c p t w = (Err e, w1)"
  | (AtOnce) w1 st w2 where
    "op_ContainerState (runcClient j) (cfg_ContainerID c) w1 = (Ok (Some st), w2)"
    "St_Status st = ContainerStateStopped" "\<And>fuel. StopProcess fuel j c p t w = (Ok (), w2)"
  | (Gone) w1 w2 where
    "op_ContainerState (runcClient j) (cfg_ContainerID c) w1 = (Ok None, w2)"
    "\<And>fuel. StopProcess fuel j c p t w = (Abort (Panic ''nil pointer dereference''), w2)"
  | (Wait) w3 tr where
    "env w3 = env w" "calls w3 = calls w @ tr"
    "\<And>fuel. StopProcess fuel j c p t w =
      (fst (stop_loop fuel j (cfg_ContainerID c) w3),
       record_call StopTicker (snd (stop_loop fuel j (cfg_ContainerID c) w3)))"
proof (cases rule: signal_cases [of "cfg_ContainerID c" "ParseShutdownSignal p" w])
  case (Failed e w1)
  then show thesis using that(1) [of e w1] by (simp add: StopProcess_def thenM_def bindM_def)
next
  case (Sent w1)
  have w1: "env w1 = env w" "\<exists>tr. calls w1 = calls w @ tr"
    using signal_mine [unfolded emits_def, rule_format, of "cfg_ContainerID c" "ParseShutdownSignal p" w] Sent by auto
  show thesis
  proof (cases rule: container_stopped_cases [of "cfg_ContainerID c" w1])
    case (Stopped st w2)
    then show thesis using that(2) [of w1 st w2] Sent by (simp add: StopProcess_def thenM_def bindM_def returnM_def)
  next
    case (Waiting w2)
    let ?w3 = "record_call (NewTicker ContainerStatePollInterval) (record_call (NewTimer t) w2)"
    have "StopProcess fuel j c p t w =
      (fst (stop_loop fuel j (cfg_ContainerID c) ?w3),
       record_call StopTicker (snd (stop_loop fuel j (cfg_ContainerID c) ?w3)))" for fuel
      using Sent Waiting by (simp add: StopProcess_def thenM_def bindM_def sys_do_def deferM_def split: prod.splits)
    moreover obtain tr where "env ?w3 = env w" "calls ?w3 = calls w @ tr"
      using w1 container_stopped_world [OF Waiting] by auto
    ultimately show thesis using that(4) by blast
  next
    case (Gone w2)
    then show thesis using that(3) [of w1 w2] Sent by (simp add: StopProcess_def thenM_def bindM_def)
  qed
qed

lemma StopProcess_terminates:
  assumes "fires_within n w" and "n < fuel"
  shows "fst (StopProcess fuel j c p t w) \<noteq> Abort NoFuel \<and>
    StopProcess fuel j c p t w = StopProcess (Suc n) j c p t w"
proof (cases rule: StopProcess_cases [of c p w t])
  case (Wait w3 tr)
  have "fires_within n w3" by (rule fires_within_later [OF assms(1) Wait(1,2)])
  from stop_loop_terminates [OF this assms(2), of "cfg_ContainerID c"] show ?thesis
    unfolding Wait(3) by (auto simp del: stop_loop.simps)
qed simp_all

end

section \<open>The lifecycle of the program\<close>

text \<open>The lifecycle as \<open>newRuncLifecycle\<close> builds it, over the runc client and the adapter.\<close>

definition lifecycle_of ::
  "json_codec \<Rightarrow> (SpecMount list \<Rightarrow> SpecMount list) \<Rightarrow> (string \<Rightarrow> go_error + 64 word) \<Rightarrow> RuncClient \<Rightarrow> RuncAdapter \<Rightarrow> RuncLifecycle" where
  "lifecycle_of json ord toBytes client adapter =
     NewRuncLifecycle (runc_client_ops json client)
       \<lparr>op_CreateJobPrerequisites = CreateJobPrerequisites adapter, op_BuildSpec = BuildSpec ord toBytes adapter\<rparr>"

lemma lifecycle_of_sel [simp]:
  "runcClient (lifecycle_of json ord toBytes client a) = runc_client_ops json client"
  "op_CreateJobPrerequisites (runcAdapter (lifecycle_of json ord toBytes client a)) = CreateJobPrerequisites a"
  "op_BuildSpec (runcAdapter (lifecycle_of json ord toBytes client a)) = BuildSpec ord toBytes a"
  by (simp_all add: lifecycle_of_def NewRuncLifecycle_def)

interpretation lc: lifecycle_api "lifecycle_of json ord toBytes client a" "runc_on client"
proof -
  show "lifecycle_api (lifecycle_of json ord toBytes client a) (runc_on client)"
    unfolding lifecycle_api_def lifecycle_of_sel by (rule runc.runc_api_axioms)
qed

lemma runc_ops_sel [simp]:
  "op_ContainerState (runc_client_ops j c) = ContainerState_op (decodeMsg j) (decodeState j) c"
  "op_SignalContainer (runc_client_ops j c) = SignalContainer c"
  "op_DeleteContainer (runc_client_ops j c) = DeleteContainer c"
  "op_DestroyBundle (runc_client_ops j c) = DestroyBundle"
  "op_RunContainer (runc_client_ops j c) = RunContainer c"
  "op_CreateBundle (runc_client_ops j c) = CreateBundle (encodeSpec j)"
  "op_Exec (runc_client_ops j c) = Exec c"
  "op_ListContainers (runc_client_ops j c) = ListContainers (decodeList j) c"
  by (simp_all add: runc_client_ops_def)

text \<open>Stopping a process returns: when the timer fires within \<open>n\<close> rounds of the wait, any fuel above
  \<open>n\<close> is enough, and the outcome does not depend on how much more there is.\<close>

lemma stop_process_terminates:
  assumes "fires_within n w" and "n < fuel"
  shows "fst (StopProcess fuel (lifecycle_of json ord toBytes client a) c p t w) \<noteq> Abort NoFuel \<and>
    StopProcess fuel (lifecycle_of json ord toBytes client a) c p t w =
    StopProcess (Suc n) (lifecycle_of json ord toBytes client a) c p t w"
  by (rule lc.StopProcess_terminates [OF assms])

text \<open>A JSON library that knows one running container.\<close>

definition example_json :: json_codec where
  "example_json = \<lparr>encodeSpec = (\<lambda>s. ''{}''), decodeMsg = (\<lambda>s. Inl (Errorf ''json'' [])),
     decodeState = (\<lambda>s. Inr \<lparr>St_ID = ''bpm-web'', St_Status = ''running'', St_Pid = 7\<rparr>), decodeList = (\<lambda>s. Inr [])\<rparr>"

definition example_client :: RuncClient where
  "example_client = NewRuncClient ''/var/vcap/packages/bpm/bin/runc'' ''/var/vcap/data/bpm/runc'' False"

abbreviation example_lifecycle :: RuncLifecycle where
  "example_lifecycle \<equiv> lifecycle_of example_json (\<lambda>ms. ms) example_toBytes example_client example_adapter"

lemma SignalContainer_calls:
  "SignalContainer k cid s w = (r, w') \<Longrightarrow>
    w' = record_call (RunCmd (buildCmd k ''kill'' [cid, Signal_String s])) w"
  by (simp add: SignalContainer_def run_cmd_def io_simps)

text \<open>Every look at the container counts: when, anywhere in a run, runc answers that the container has
  stopped, the run succeeds, and when it answers that there is no container, the run panics; in both
  cases nothing but stopping the ticker follows.\<close>

definition heeds_states :: "json_codec \<Rightarrow> RuncClient \<Rightarrow> string \<Rightarrow> world \<Rightarrow> unit res \<Rightarrow> world \<Rightarrow> bool" where
  "heeds_states json client cid w r w' \<longleftrightarrow>
     (\<forall>pre post. calls w' = calls w @ pre @ state_request client cid # post \<longrightarrow>
        (case state_answer json client cid (env w) (calls w @ pre) of
           Ok None \<Rightarrow> r = Abort (Panic ''nil pointer dereference'') \<and> set post \<subseteq> {StopTicker}
         | Ok (Some st) \<Rightarrow> St_Status st = ''stopped'' \<longrightarrow> r = Ok () \<and> set post \<subseteq> {StopTicker}
         | _ \<Rightarrow> True))"

definition goes_on :: "State option res \<Rightarrow> bool" where
  "goes_on s \<longleftrightarrow> (case s of Ok None \<Rightarrow> False | Ok (Some st) \<Rightarrow> St_Status st \<noteq> ''stopped'' | _ \<Rightarrow> True)"

lemma heeds_skip:
  assumes "calls w1 = calls w @ tr" and "env w1 = env w" and "state_request client cid \<notin> set tr"
    and "calls w' = calls w1 @ tr'" and "heeds_states json client cid w1 r w'"
  shows "heeds_states json client cid w r w'"
  unfolding heeds_states_def
proof (intro allI impI)
  fix pre post
  let ?x = "state_request client cid"
  assume "calls w' = calls w @ pre @ ?x # post"
  with assms(1,4) have "tr @ tr' = pre @ ?x # post" by simp
  with assms(3) obtain pre' where pre: "pre = tr @ pre'" "tr' = pre' @ ?x # post"
    by (auto simp: append_eq_append_conv2 append_eq_Cons_conv)
  with assms(4) have "calls w' = calls w1 @ pre' @ ?x # post" by simp
  with assms(1,2,5) pre show "case state_answer json client cid (env w) (calls w @ pre) of
           Ok None \<Rightarrow> r = Abort (Panic ''nil pointer dereference'') \<and> set post \<subseteq> {StopTicker}
         | Ok (Some st) \<Rightarrow> St_Status st = ''stopped'' \<longrightarrow> r = Ok () \<and> set post \<subseteq> {StopTicker}
         | _ \<Rightarrow> True"
    unfolding heeds_states_def by (metis append.assoc)
qed

lemma heeds_look:
  assumes "goes_on (state_answer json client cid (env w) (calls w))"
    and "calls w' = calls w @ state_request client cid # tr'"
    and "heeds_states json client cid (record_call (state_request client cid) w) r w'"
  shows "heeds_states json client cid w r w'"
  unfolding heeds_states_def
proof (intro allI impI)
  fix pre post
  let ?x = "state_request client cid"
  assume eq: "calls w' = calls w @ pre @ ?x # post"
  show "case state_answer json client cid (env w) (calls w @ pre) of
           Ok None \<Rightarrow> r = Abort (Panic ''nil pointer dereference'') \<and> set post \<subseteq> {StopTicker}
         | Ok (Some st) \<Rightarrow> St_Status st = ''stopped'' \<longrightarrow> r = Ok () \<and> set post \<subseteq> {StopTicker}
         | _ \<Rightarrow> True"
  proof (cases pre)
    case Nil
    with assms(1) show ?thesis by (auto simp: goes_on_def split: res.splits option.splits)
  next
    case (Cons y pre')
    with eq assms(2) have "y = ?x" by simp
    with Cons eq assms(3) show ?thesis unfolding heeds_states_def by simp
  qed
qed

lemma heeds_quiet:
  assumes "calls w' = calls w @ tr" and "state_request client cid \<notin> set tr"
  shows "heeds_states json client cid w r w'"
  using assms by (auto simp: heeds_states_def)

lemma heeds_last:
  assumes "calls w' = calls w @ [state_request client cid]"
    and "case state_answer json client cid (env w) (calls w) of
      Ok None \<Rightarrow> r = Abort (Panic ''nil pointer dereference'') | Ok (Some st) \<Rightarrow> St_Status st = ''stopped'' \<longrightarrow> r = Ok () | _ \<Rightarrow> True"
  shows "heeds_states json client cid w r w'"
  using assms by (auto simp: heeds_states_def Cons_eq_append_conv split: res.splits option.splits)

lemma heeds_StopTicker:
  assumes "heeds_states json client cid w r w'"
  shows "heeds_states json client cid w r (record_call StopTicker w')"
  unfolding heeds_states_def
proof (intro allI impI)
  fix pre post
  assume eq: "calls (record_call StopTicker w') = calls w @ pre @ state_request client cid # post"
  then obtain post' where post: "post = post' @ [StopTicker]"
    by (cases post rule: rev_cases) (auto simp flip: append_assoc)
  with eq have "calls w' = calls w @ pre @ state_request client cid # post'" by simp
  with assms show "case state_answer json client cid (env w) (calls w @ pre) of
           Ok None \<Rightarrow> r = Abort (Panic ''nil pointer dereference'') \<and> set post \<subseteq> {StopTicker}
         | Ok (Some st) \<Rightarrow> St_Status st = ''stopped'' \<longrightarrow> r = Ok () \<and> set post \<subseteq> {StopTicker}
         | _ \<Rightarrow> True"
    unfolding heeds_states_def post by (fastforce split: res.splits option.splits)
qed

lemma container_stopped_answer:
  "container_stopped (lifecycle_of json ord toBytes client a) cid w =
     (case state_answer json client cid (env w) (calls w) of
        Ok None \<Rightarrow> Abort (Panic ''nil pointer dereference'') | Ok (Some st) \<Rightarrow> Ok (St_Status st = ''stopped'') | _ \<Rightarrow> Ok False,
      record_call (state_request client cid) w)"
  by (auto simp: container_stopped_def ContainerState_answer io_simps ContainerStateStopped_def ContainerState_total
      split: res.splits option.splits)
    (metis ContainerState_answer ContainerState_total fst_conv)+

lemma emits_stop_loop_any: "\<exists>tr. calls (snd (stop_loop fuel (lifecycle_of json ord toBytes client a) cid w)) = calls w @ tr"
  using emits_calls [OF lc.emits_stop_loop] by blast

lemma stop_loop_heeds:
  "case stop_loop fuel (lifecycle_of json ord toBytes client a) cid w of (r, w') \<Rightarrow> heeds_states json client cid w r w'"
proof (induction fuel arbitrary: w)
  case 0
  then show ?case by (simp add: abortM_def heeds_quiet)
next
  case (Suc fuel)
  let ?lc = "lifecycle_of json ord toBytes client a" and ?w1 = "record_call Select w" and ?x = "state_request client cid"
  show ?case
  proof (cases "r_event (env w) (calls w) Select = TimedOut")
    case True
    then show ?thesis
      by (auto simp: bindM_def sys_event_def thenM_def ignoreM_def sys_do_def throwM_def Let_def
          split: prod.splits res.splits dest!: SignalContainer_calls intro!: heeds_quiet)
  next
    case False
    note tick = lc.stop_loop_tick [OF this, where json = json and ord = ord and toBytes = toBytes and client = client and a = a]
    show ?thesis
    proof (cases "goes_on (state_answer json client cid (env w) (calls ?w1))")
      case True
      then have go: "stop_loop (Suc fuel) ?lc cid w = stop_loop fuel ?lc cid (record_call ?x ?w1)"
        by (auto simp: tick container_stopped_answer goes_on_def split: res.splits option.splits simp del: stop_loop.simps)
      obtain r w' where l: "stop_loop fuel ?lc cid (record_call ?x ?w1) = (r, w')" by fastforce
      obtain tr where "calls w' = calls (record_call ?x ?w1) @ tr"
        using emits_stop_loop_any [of fuel json ord toBytes client a cid "record_call ?x ?w1"] l by auto
      then have ext: "calls w' = calls ?w1 @ ?x # tr" by simp
      have "heeds_states json client cid (record_call ?x ?w1) r w'" using Suc.IH [of "record_call ?x ?w1"] l by simp
      then have "heeds_states json client cid ?w1 r w'" using True by (intro heeds_look [OF _ ext]) simp_all
      then have "heeds_states json client cid w r w'" by (intro heeds_skip [of ?w1 w "[Select]" client cid w', OF _ _ _ ext]) simp_all
      then show ?thesis by (simp add: go l del: stop_loop.simps)
    next
      case False
      obtain r w' where l: "stop_loop (Suc fuel) ?lc cid w = (r, w')" by fastforce
      with False have w': "calls w' = calls ?w1 @ [?x]" and r: "case state_answer json client cid (env ?w1) (calls ?w1) of
          Ok None \<Rightarrow> r = Abort (Panic ''nil pointer dereference'') | Ok (Some st) \<Rightarrow> St_Status st = ''stopped'' \<longrightarrow> r = Ok () | _ \<Rightarrow> True"
        by (auto simp: tick container_stopped_answer goes_on_def split: res.splits option.splits if_splits simp del: stop_loop.simps)
      have "heeds_states json client cid ?w1 r w'" by (rule heeds_last [OF w' r])
      then have "heeds_states json client cid w r w'" by (intro heeds_skip [of ?w1 w "[Select]" client cid w', OF _ _ _ w']) simp_all
      then show ?thesis by (simp only: l prod.case)
    qed
  qed
qed

lemma StopProcess_heeds:
  "case StopProcess fuel (lifecycle_of json ord toBytes client a) c p t w of (r, w') \<Rightarrow>
     heeds_states json client (cfg_ContainerID c) w r w'"
proof -
  let ?lc = "lifecycle_of json ord toBytes client a" and ?id = "cfg_ContainerID c"
  let ?k = "RunCmd (buildCmd client ''kill'' [?id, Signal_String (ParseShutdownSignal p)])" and ?x = "state_request client ?id"
  let ?w1 = "record_call ?k w" and ?w2 = "record_call ?x (record_call ?k w)"
  let ?w3 = "record_call (NewTicker ContainerStatePollInterval) (record_call (NewTimer t) ?w2)"
  let ?s = "state_answer json client ?id (env w) (calls ?w1)"
  obtain r w' where run: "StopProcess fuel ?lc c p t w = (r, w')" by fastforce
  show ?thesis
  proof (cases "cmd_err (r_cmd (env w) (calls w) ?k)")
    case (Some e)
    with run have "w' = ?w1"
      by (auto simp: StopProcess_def SignalContainer_def thenM_def bindM_def run_cmd_def sys_cmd_def liftM_def res_of_def)
    then show ?thesis by (simp add: run heeds_quiet)
  next
    case None
    then have k: "StopProcess fuel ?lc c p t w = (bindM (container_stopped ?lc ?id) (\<lambda>stopped.
      if stopped then returnM ()
      else thenM (sys_do (NewTimer t)) (thenM (sys_do (NewTicker ContainerStatePollInterval))
        (deferM (stop_loop fuel ?lc ?id) (sys_do StopTicker))))) ?w1"
      by (simp add: StopProcess_def SignalContainer_def thenM_def bindM_def run_cmd_def sys_cmd_def liftM_def res_of_def)
    have "heeds_states json client ?id ?w1 r w' \<and> (\<exists>tr. calls w' = calls ?w1 @ tr)"
    proof (cases "goes_on ?s")
      case True
      obtain r4 w4 where l: "stop_loop fuel ?lc ?id ?w3 = (r4, w4)" by fastforce
      with True run have rw: "r = r4" "w' = record_call StopTicker w4"
        by (auto simp: k container_stopped_answer goes_on_def bindM_def thenM_def sys_do_def deferM_def
            split: res.splits option.splits)
      obtain tr where tr: "calls w4 = calls ?w3 @ tr"
        using emits_stop_loop_any [of fuel json ord toBytes client a ?id ?w3] l by auto
      have "heeds_states json client ?id ?w3 r w'"
        using stop_loop_heeds [where fuel = fuel and json = json and ord = ord and toBytes = toBytes and client = client and a = a and cid = ?id and w = ?w3] l by (simp add: rw heeds_StopTicker)
      moreover have ext: "calls w' = calls ?w3 @ tr @ [StopTicker]" using tr by (simp add: rw)
      ultimately have "heeds_states json client ?id ?w2 r w'"
        by (intro heeds_skip [of ?w3 ?w2 "[NewTimer t, NewTicker ContainerStatePollInterval]" client ?id w', OF _ _ _ ext]) simp_all
      then have "heeds_states json client ?id ?w1 r w'"
        using True ext by (intro heeds_look [of json client ?id ?w1 w']) simp_all
      with ext show ?thesis by simp
    next
      case False
      with run have w': "calls w' = calls ?w1 @ [?x]" and "case state_answer json client ?id (env ?w1) (calls ?w1) of
          Ok None \<Rightarrow> r = Abort (Panic ''nil pointer dereference'') | Ok (Some st) \<Rightarrow> St_Status st = ''stopped'' \<longrightarrow> r = Ok () | _ \<Rightarrow> True"
        by (auto simp: k container_stopped_answer goes_on_def bindM_def returnM_def split: res.splits option.splits if_splits)
      with heeds_last [OF this] show ?thesis by blast
    qed
    then obtain tr where "heeds_states json client ?id ?w1 r w'" "calls w' = calls ?w1 @ tr" by blast
    then have "heeds_states json client ?id w r w'"
      by (intro heeds_skip [of ?w1 w "[?k]" client ?id w']) simp_all
    then show ?thesis by (simp add: run)
  qed
qed

text \<open>C12: how stopping a process ends. It succeeds only when the last answer of runc was that the
  container has stopped. It fails with the timeout only after a quit signal to the container and the
  grace period, and with any other error only when the first signal could not be sent, with the error
  of that attempt and before anything else was done. It panics only when runc answers that there is
  no container. And conversely (\<open>heeds_states\<close>) the first answer that the container has stopped makes it
  succeed, and the first answer that there is no container makes it panic, wherever in the run
  it comes.\<close>

theorem stop_process_outcome:
  "case StopProcess fuel (lifecycle_of json ord toBytes client a) c p t w of (r, w') \<Rightarrow>
     heeds_states json client (cfg_ContainerID c) w r w' \<and>
     (case r of
        Ok _ \<Rightarrow> \<exists>w1 st w2. ContainerState_op (decodeMsg json) (decodeState json) client (cfg_ContainerID c) w1 = (Ok (Some st), w2) \<and>
           St_Status st = ''stopped'' \<and> w' \<in> {w2, record_call StopTicker w2}
      | Err e \<Rightarrow>
           e = TimeoutError \<and> (\<exists>pre. calls w' =
             pre @ [RunCmd (buildCmd client ''kill'' [cfg_ContainerID c, ''QUIT'']), Sleep 2000000000, StopTicker]) \<or>
           (let k = RunCmd (buildCmd client ''kill'' [cfg_ContainerID c, Signal_String (ParseShutdownSignal p)])
            in calls w' = calls w @ [k] \<and> cmd_err (r_cmd (env w) (calls w) k) = Some e)
      | Abort x \<Rightarrow> x = NoFuel \<or> x = Panic ''nil pointer dereference'' \<and>
           (\<exists>w1 w2. ContainerState_op (decodeMsg json) (decodeState json) client (cfg_ContainerID c) w1 = (Ok None, w2) \<and>
              w' \<in> {w2, record_call StopTicker w2}))"
proof -
  note h = StopProcess_heeds [where fuel = fuel and json = json and ord = ord and toBytes = toBytes and client = client
      and a = a and c = c and p = p and t = t and w = w]
  show ?thesis
  proof (cases rule: lc.StopProcess_cases [of json ord toBytes client a c p w t])
    case (NotSignalled e w1)
    then show ?thesis
      using h
      by (auto simp: SignalContainer_def run_cmd_def sys_cmd_def bindM_def liftM_def res_of_def Let_def split: option.splits)
  next
    case (AtOnce w1 st w2)
    then show ?thesis
      using h by (auto simp: ContainerStateStopped_def)
  next
    case (Gone w1 w2)
    then show ?thesis using h by auto
  next
    case (Wait w3 tr)
    obtain r w4 where l: "stop_loop fuel (lifecycle_of json ord toBytes client a) (cfg_ContainerID c) w3 = (r, w4)"
      by (cases "stop_loop fuel (lifecycle_of json ord toBytes client a) (cfg_ContainerID c) w3")
    have "wait_result (runc_client_ops json client) (cfg_ContainerID c) r w4"
      using lc.stop_loop_result [of json ord toBytes client a "cfg_ContainerID c" fuel w3] l by simp
    moreover have "heeds_states json client (cfg_ContainerID c) w r (record_call StopTicker w4)"
      using h unfolding Wait(3) l by simp
    ultimately show ?thesis
      unfolding Wait(3) l
      by (auto simp: wait_result_def ContainerStateStopped_def ContainerSigQuitGracePeriod_def Signal_String.simps
          dest!: SignalContainer_calls split: res.splits)
  qed
qed

section \<open>Starting and removing\<close>

lemma run_cmd_cases:
  "run_cmd k w = (case cmd_err (r_cmd (env w) (calls w) (RunCmd k)) of None \<Rightarrow> Ok () | Some e \<Rightarrow> Err e, record_call (RunCmd k) w)"
  by (simp add: run_cmd_def io_simps res_of_def split: option.splits)

text \<open>The calls that remove a process, in order.\<close>

definition removal :: "RuncClient \<Rightarrow> bpm_config \<Rightarrow> call list" where
  "removal client c =
     [RunCmd (buildCmd client ''delete'' [''--force'', cfg_ContainerID c]),
      RemoveAll (cfg_BundlePath c), RemoveAll (Path_External (cfg_PidFile c))]"

text \<open>The error that the environment answers the \<open>n\<close>-th of these calls with, after those before it.\<close>

definition removal_error :: "RuncClient \<Rightarrow> bpm_config \<Rightarrow> world \<Rightarrow> nat \<Rightarrow> go_error option" where
  "removal_error client c w n =
     (let x = removal client c ! n; h = calls w @ take n (removal client c) in
      if n = 0 then cmd_err (r_cmd (env w) h x) else r_err (env w) h x)"

text \<open>C13: removing a process deletes the container, then its bundle, then its pid file, and stops at the
  first of these that fails, returning its error: the bundle and the pid file of a container that runc
  could not delete are kept. It succeeds only when all three were done and succeeded, and never panics.\<close>

theorem remove_process_calls:
  "case RemoveProcess (lifecycle_of json ord toBytes client a) c w of
     (Ok _, w') \<Rightarrow> calls w' = calls w @ removal client c \<and> list_all (\<lambda>m. removal_error client c w m = None) [0, 1, 2]
   | (Err e, w') \<Rightarrow> (\<exists>n. n \<le> 2 \<and> calls w' = calls w @ take (Suc n) (removal client c) \<and>
       list_all (\<lambda>m. removal_error client c w m = None) [0..<n] \<and> removal_error client c w n = Some e)
   | (Abort x, w') \<Rightarrow> False"
proof -
  let ?err = "removal_error client c w"
  define x0 where "x0 = removal client c ! 0"
  define x1 where "x1 = removal client c ! 1"
  define x2 where "x2 = removal client c ! 2"
  have calls: "removal client c = [x0, x1, x2]" by (simp add: removal_def x0_def x1_def x2_def)
  have err: "?err 0 = cmd_err (r_cmd (env w) (calls w) x0)" "?err (Suc 0) = r_err (env w) (calls w @ [x0]) x1"
    "?err 2 = r_err (env w) (calls w @ [x0, x1]) x2"
    by (simp_all add: removal_error_def calls)
  have rem: "RemoveProcess (lifecycle_of json ord toBytes client a) c w =
      (case ?err 0 of
         Some e \<Rightarrow> (Err e, record_call x0 w)
       | None \<Rightarrow> thenM (sys_err x1) (sys_err x2) (record_call x0 w))"
    unfolding err
    by (simp add: RemoveProcess_def DeleteContainer_def DestroyBundle_def thenM_def bindM_def run_cmd_cases removal_def
        x0_def x1_def x2_def split: option.splits)
  consider (first) e where "?err 0 = Some e" | (second) e where "?err 0 = None" "?err (Suc 0) = Some e"
    | (third) e where "?err 0 = None" "?err (Suc 0) = None" "?err 2 = Some e" | (all) "?err 0 = None" "?err (Suc 0) = None" "?err 2 = None"
    by fastforce
  then show ?thesis
  proof cases
    case first
    then show ?thesis unfolding rem calls by (auto intro!: exI [of _ "0::nat"])
  next
    case second
    then show ?thesis
      unfolding rem calls by (auto simp: thenM_def bindM_def sys_err_def res_of_def err intro!: exI [of _ "1::nat"])
  next
    case third
    then show ?thesis
      unfolding rem calls by (auto simp: thenM_def bindM_def sys_err_def res_of_def err upt_rec intro!: exI [of _ "2::nat"])
  next
    case all
    then show ?thesis unfolding rem calls by (auto simp: thenM_def bindM_def sys_err_def res_of_def err)
  qed
qed

text \<open>\<open>bpm list\<close> and the state that the other commands act on agree: the list builds a process from
  the status that runc reports for its container exactly as a state request does, although it
  translates the status twice.\<close>

lemma list_agrees_with_stat:
  "ListProcesses j = bindM (op_ListContainers (runcClient j)) (\<lambda>cs.
     returnM (map (\<lambda>x. newProcessFromContainerState (CS_ID x) (CS_Status x) (InitProcessPid x)) cs))"
proof -
  have "containerStateToString (containerStateFromString s) = containerStateToString s" for s
    by (simp add: containerStateToString_def containerStateFromString_def ProcessStateFailed_def ProcessStateRunning_def
        ProcessStateCreating_def ProcessStateCreated_def)
  then show ?thesis by (simp add: ListProcesses_def newProcessFromContainerState_def)
qed

text \<open>A call of the setup: it runs no command other than a hook, which has no arguments, and deletes nothing.\<close>

definition sets_up :: "call \<Rightarrow> bool" where
  "sets_up x \<longleftrightarrow>
     (case command_of x of None \<Rightarrow> (case x of RemoveAll _ \<Rightarrow> False | _ \<Rightarrow> True) | Some k \<Rightarrow> cmd_args k = [])"

lemma sets_up_sys [simp]:
  "sets_up (MkdirAll d m)" "sets_up (Stat d)" "sets_up (Lstat d)" "sets_up (Chmod d m)" "sets_up (Chown d u g)"
  "sets_up (OpenFile d fs m)" "sets_up (FChown n u g)" "sets_up (CloseFd n)" "sets_up (WriteFd n s)" "sets_up (Glob d)"
  "sets_up (Mounted d)" "sets_up (Mount s d t mf x)" "sets_up (Unmount d)" "sets_up (Flock n lo)" "sets_up (LookupUser d)"
  "sets_up (ScanLines n)"
  by (simp_all add: sets_up_def command_of_def)

lemma sets_up_hook [simp]: "sets_up (RunCmd (exec_Command h []\<lparr>cmd_env := e, cmd_stdout := out, cmd_stderr := err\<rparr>))"
  by (simp add: sets_up_def command_of_def exec_Command_def)

text \<open>A call of the adapter: besides that it writes to no file, and opens none for truncating.\<close>

definition arranges :: "call \<Rightarrow> bool" where
  "arranges x \<longleftrightarrow>
     command_of x = None \<and>
     (case x of RemoveAll _ \<Rightarrow> False | WriteFd _ _ \<Rightarrow> False | OpenFile _ fl _ \<Rightarrow> O_TRUNC \<notin> set fl | _ \<Rightarrow> True)"

lemma arranges_sys [simp]:
  "arranges (MkdirAll d m)" "arranges (Stat d)" "arranges (Lstat d)" "arranges (Chmod d m)" "arranges (Chown d u g)"
  "arranges (OpenFile d fl m) \<longleftrightarrow> O_TRUNC \<notin> set fl" "arranges (FChown n u g)" "arranges (CloseFd n)" "arranges (Glob d)"
  "arranges (Mounted d)" "arranges (Mount s d t mf x)" "arranges (Unmount d)" "arranges (Flock n lo)" "arranges (LookupUser d)"
  "arranges (ScanLines n)"
  by (simp_all add: arranges_def command_of_def)

lemma arranges_sets_up: "arranges x \<Longrightarrow> sets_up x"
  by (cases x) (simp_all add: arranges_def sets_up_def command_of_def)

lemma emits_open_log_files: "emits arranges (open_log_files paths u files)"
proof (induction paths arbitrary: files)
  case (Cons path paths)
  show ?case unfolding open_log_files.simps by (intro emits_intros Cons.IH) simp_all
qed (simp add: emits_intros)

lemma emits_prepare_volumes_arranges: "emits arranges (prepare_volumes (program_adapter sha f h cg) vols ds ps)"
proof (induction vols arbitrary: ds ps)
  case (Cons v vols)
  have "emits arranges (makeShared (program_adapter sha f h cg) v)"
    unfolding makeShared_def program_adapter_def NewRuncAdapter_def RuncAdapter.simps
    by (intro emits_intros) simp_all
  then show ?case unfolding prepare_volumes.simps by (intro emits_intros Cons.IH) simp_all
qed (simp add: emits_intros)

lemma emits_CreateJobPrerequisites: "emits arranges (CreateJobPrerequisites (program_adapter sha f h cg) c p u)"
  unfolding CreateJobPrerequisites_steps createDirs_def createDirFor_def chownPaths_def createLogFiles_def
  by (intro emits_intros emits_prepare_volumes_arranges emits_store_step emits_open_log_files) simp_all

lemma emits_globExpand:
  "emits arranges (globExpandVolumes (program_adapter sha f h cg) vols)"
proof (induction vols)
  case (Cons v vols)
  then show ?case
    by (auto simp: program_adapter_def NewRuncAdapter_def intro!: emits_intros)
qed (simp add: emits_intros)

lemma emits_BuildSpec:
  assumes "\<And>g cid. cg = Some g \<Longrightarrow> emits arranges (g cid)"
  shows "emits arranges (BuildSpec ord toBytes (program_adapter sha f h cg) c p u)"
proof -
  have "emits arranges (cgroup_options (program_adapter sha f h cg) c)"
    using assms by (auto simp: cgroup_options_def program_adapter_def NewRuncAdapter_def intro!: emits_intros)
  then show ?thesis
    unfolding BuildSpec_def optional_mount_def checkDirExists_def unrestricted_mounts_def Let_def
    by (intro emits_intros emits_globExpand) simp_all
qed

text \<open>
  The interface \<open>RuncAdapter\<close>, as the lifecycle relies on it, with the client's operation that writes bundles: preparing a
  process runs no command, deletes nothing and writes nothing but the bundle. With the interface of the client this bounds what starting and running
  a process can do.
\<close>

locale adapter_api =
  fixes j :: RuncLifecycle
  assumes prerequisites_arrange: "emits arranges (op_CreateJobPrerequisites (runcAdapter j) c p u)"
    and spec_arranges: "emits arranges (op_BuildSpec (runcAdapter j) c p u)"
    and bundle_sets_up: "emits sets_up (op_CreateBundle (runcClient j) path spec u)"

locale process_api = lifecycle_api j mine + adapter_api j for j :: RuncLifecycle and mine :: "string \<Rightarrow> call \<Rightarrow> bool"
begin

lemma emits_setupProcess: "emits sets_up (setupProcess j c p)"
  unfolding setupProcess_def
  by (intro emits_intros bundle_sets_up emits_mono [OF prerequisites_arrange arranges_sets_up] emits_mono [OF spec_arranges arranges_sets_up])
    simp_all

lemma emits_starting:
  "emits (\<lambda>x. sets_up x \<or> mine (cfg_ContainerID c) x) (StartProcess j c p)"
  "emits (\<lambda>x. sets_up x \<or> mine (cfg_ContainerID c) x) (RunProcess j c p)"
proof -
  let ?P = "\<lambda>x. sets_up x \<or> mine (cfg_ContainerID c) x"
  have "emits ?P (setupProcess j c p)" by (rule emits_mono [OF emits_setupProcess]) simp
  moreover have "emits ?P (op_RunContainer (runcClient j) pf b (cfg_ContainerID c) d out err)" for pf b d out err
    by (rule emits_mono [OF run_mine]) simp
  ultimately show "emits ?P (StartProcess j c p)" "emits ?P (RunProcess j c p)"
    unfolding StartProcess_def RunProcess_def by (intro emits_intros; simp)+
qed

end

lemma program_adapter_api:
  assumes "\<And>g cid. cg = Some g \<Longrightarrow> emits arranges (g cid)"
  shows "adapter_api (lifecycle_of json ord toBytes client (program_adapter sha f h cg))"
  by unfold_locales
    (simp add: emits_CreateJobPrerequisites, simp add: emits_BuildSpec assms, auto simp: CreateBundle_def intro!: emits_intros)

text \<open>The command that starts a process.\<close>

definition run_command :: "RuncClient \<Rightarrow> bpm_config \<Rightarrow> nat \<Rightarrow> nat \<Rightarrow> call" where
  "run_command client c out err =
     RunCmd ((buildCmd client ''run'' [''--bundle'', cfg_BundlePath c, ''--pid-file'', Path_External (cfg_PidFile c), ''--detach'',
        cfg_ContainerID c])\<lparr>cmd_stdout := [Fd out], cmd_stderr := [Fd err]\<rparr>)"

lemma StartProcess_calls:
  "calls (snd (StartProcess (lifecycle_of json ord toBytes client a) c p w)) =
     (case setupProcess (lifecycle_of json ord toBytes client a) c p w of
        (Ok (out, err), w1) \<Rightarrow> calls w1 @ [run_command client c out err, CloseFd err, CloseFd out]
      | (_, w1) \<Rightarrow> calls w1)"
  by (auto simp: StartProcess_def bindM_def deferM_def sys_err_def RunContainer_def sys_cmd_def run_command_def Let_def
      liftM_def returnM_def abortM_def res_of_def
      split: prod.splits res.splits cmd_result.splits option.splits)

text \<open>The calls that write the bundle and those of the pre-start hook.\<close>

definition bundle_calls :: "json_codec \<Rightarrow> bpm_config \<Rightarrow> Spec \<Rightarrow> nat \<Rightarrow> call list" where
  "bundle_calls json c spec f =
     [MkdirAll (cfg_BundlePath c) perm_0700, MkdirAll (filepath_Join [cfg_BundlePath c, ''rootfs'']) perm_0755,
      OpenFile (filepath_Join [cfg_BundlePath c, ''config.json'']) [O_RDWR, O_CREATE] perm_0600,
      WriteFd f (encodeSpec json spec), CloseFd f]"

definition hook_calls :: "ProcessConfig \<Rightarrow> Spec \<Rightarrow> nat \<Rightarrow> nat \<Rightarrow> call list" where
  "hook_calls p spec out err =
     (case PHooks p of
        None \<Rightarrow> []
      | Some hooks \<Rightarrow> [RunCmd ((exec_Command (PreStart hooks) [])
          \<lparr>cmd_env := Some (SpEnv (SProcess spec)), cmd_stdout := [Fd out], cmd_stderr := [Fd err]\<rparr>)])"

lemma CreateBundle_Ok:
  assumes "CreateBundle (encodeSpec json) (cfg_BundlePath c) spec u w = (Ok (), w')"
  obtains f where "calls w' = calls w @ bundle_calls json c spec f"
  using assms
  by (auto simp: CreateBundle_def thenM_eq_Ok bindM_eq_Ok sys_err_def sys_fd_def deferM_def bundle_calls_def)

lemma setupProcess_stages:
  assumes "setupProcess (lifecycle_of json ord toBytes client a) c p w = (Ok (out, err), w')"
  obtains u w1 w2 spec w3 w4 where "Lookup VcapUser w = (Ok u, w1)"
    and "CreateJobPrerequisites a c p u w1 = (Ok (out, err), w2)" and "BuildSpec ord toBytes a c p u w2 = (Ok spec, w3)"
    and "CreateBundle (encodeSpec json) (cfg_BundlePath c) spec u w3 = (Ok (), w4)" and "calls w' = calls w4 @ hook_calls p spec out err"
proof -
  from assms obtain u w1 w2 spec w3 w4 where
    1: "Lookup VcapUser w = (Ok u, w1)" "CreateJobPrerequisites a c p u w1 = (Ok (out, err), w2)"
      "BuildSpec ord toBytes a c p u w2 = (Ok spec, w3)" "CreateBundle (encodeSpec json) (cfg_BundlePath c) spec u w3 = (Ok (), w4)"
    and h: "(case PHooks p of None \<Rightarrow> returnM ()
       | Some hooks \<Rightarrow> mapErrM (\<lambda>err. Errorf ''prestart hook failed: %s'' [AErr err])
           (run_cmd ((exec_Command (PreStart hooks) [])
              \<lparr>cmd_env := Some (SpEnv (SProcess spec)), cmd_stdout := [Fd out], cmd_stderr := [Fd err]\<rparr>))) w4 = (Ok (), w')"
    by (auto simp: setupProcess_def bindM_eq_Ok thenM_eq_Ok mapErrM_eq_Ok returnM_def)
  moreover have "calls w' = calls w4 @ hook_calls p spec out err"
    using h by (auto simp: hook_calls_def returnM_def mapErrM_eq_Ok run_cmd_cases split: option.splits)
  ultimately show thesis using that by blast
qed

lemma setupProcess_Ok:
  assumes "setupProcess (lifecycle_of json ord toBytes client a) c p w = (Ok (out, err), w')"
  obtains u w1 w2 spec w3 f where "Lookup VcapUser w = (Ok u, w1)"
    and "CreateJobPrerequisites a c p u w1 = (Ok (out, err), w2)" and "BuildSpec ord toBytes a c p u w2 = (Ok spec, w3)"
    and "calls w' = calls w3 @ bundle_calls json c spec f @ hook_calls p spec out err"
proof -
  from setupProcess_stages [OF assms] obtain u w1 w2 spec w3 w4 where
    1: "Lookup VcapUser w = (Ok u, w1)" "CreateJobPrerequisites a c p u w1 = (Ok (out, err), w2)"
      "BuildSpec ord toBytes a c p u w2 = (Ok spec, w3)"
    and b: "CreateBundle (encodeSpec json) (cfg_BundlePath c) spec u w3 = (Ok (), w4)" "calls w' = calls w4 @ hook_calls p spec out err" .
  from CreateBundle_Ok [OF b(1)] obtain f where "calls w4 = calls w3 @ bundle_calls json c spec f" .
  with that 1 b(2) show thesis by simp
qed

lemma StartProcess_Ok:
  assumes "StartProcess (lifecycle_of json ord toBytes client a) c p w = (Ok (), w')"
  obtains out err w1 where "setupProcess (lifecycle_of json ord toBytes client a) c p w = (Ok (out, err), w1)"
    and "calls w' = calls w1 @ [run_command client c out err, CloseFd err, CloseFd out]"
proof -
  from assms obtain out err w1 where s: "setupProcess (lifecycle_of json ord toBytes client a) c p w = (Ok (out, err), w1)"
    by (auto simp: StartProcess_def bindM_eq_Ok)
  with StartProcess_calls [of json ord toBytes client a c p w] assms that show thesis by simp
qed

end
