(* ===== verification/Cgroups.thy ===== *)
theory Cgroups
  imports World
begin

text \<open>
  Package \<open>cgroups\<close> (\<open>src/bpm/cgroups/cgroup.go\<close>): mounting the cgroup hierarchies of a host without
  systemd, and the cgroup path of a container. \<open>normalizeForSystemdName\<close> ranges over the runes
  of a string, so the model decodes UTF-8 as the Go language does.
\<close>

definition cgroupRoot :: string where "cgroupRoot = ''/sys/fs/cgroup''"

section \<open>Groupings and the unified path\<close>

fun grouping_of_lines :: "string list \<Rightarrow> string \<Rightarrow> string option res" where
  "grouping_of_lines [] subsystem = Ok None"
| "grouping_of_lines (line # ls) subsystem =
     (let fields = strings_Split line CHR '':'' in
      if length fields < 2 then Abort (Panic ''index out of range'')
      else (let grouping = fields ! 1 in
            if subsystem \<in> set (strings_Split grouping CHR '','') then Ok (Some grouping)
            else grouping_of_lines ls subsystem))"

definition subsystemGroupingFromProcCgroup :: "string list \<times> go_error option \<Rightarrow> string \<Rightarrow> string res" where
  "subsystemGroupingFromProcCgroup f subsystem =
     bind_res (grouping_of_lines (fst f) subsystem) (\<lambda>found.
       case found of
         Some grouping \<Rightarrow> Ok grouping
       | None \<Rightarrow> (case snd f of Some err \<Rightarrow> Err err | None \<Rightarrow> Ok subsystem))"

definition subsystemGrouping :: "string \<Rightarrow> string io" where
  "subsystemGrouping subsystem =
     bindM (attemptM (sys_fd (OpenFile ''/proc/self/cgroup'' [] 0))) (\<lambda>r.
       case r of
         Inl err \<Rightarrow> if os_IsNotExist err then returnM subsystem else throwM err
       | Inr f \<Rightarrow>
           deferM (bindM (sys_scan (ScanLines f)) (\<lambda>scanned. liftM (subsystemGroupingFromProcCgroup scanned subsystem)))
             (sys_err (CloseFd f)))"

definition unified_prefix :: string where "unified_prefix = ''0::''"

fun selfCgroupPathFromReader :: "string list \<Rightarrow> go_error option \<Rightarrow> string res" where
  "selfCgroupPathFromReader [] err =
     (case err of
        Some e \<Rightarrow> Err (Errorf ''reading /proc/self/cgroup: %w'' [AWrap e])
      | None \<Rightarrow> Err (Errorf ''no cgroup v2 entry found in /proc/self/cgroup'' []))"
| "selfCgroupPathFromReader (line # ls) err =
     (if strings_HasPrefix line unified_prefix
      then Ok (strings_TrimRight (strings_TrimPrefix line unified_prefix) [CHR 0x0D, CHR 0x0A])
      else selfCgroupPathFromReader ls err)"

definition SelfCgroupPath :: "string io" where
  "SelfCgroupPath =
     bindM (mapErrM (\<lambda>err. Errorf ''opening /proc/self/cgroup: %w'' [AWrap err])
              (sys_fd (OpenFile ''/proc/self/cgroup'' [] 0))) (\<lambda>f.
     deferM (bindM (sys_scan (ScanLines f)) (\<lambda>(ls, err). liftM (selfCgroupPathFromReader ls err)))
       (sys_err (CloseFd f)))"

section \<open>Names for systemd\<close>

definition systemd_char :: "char \<Rightarrow> bool" where
  "systemd_char c \<longleftrightarrow> byte_in 97 122 c \<or> byte_in 65 90 c \<or> byte_in 48 57 c \<or> c = CHR ''-'' \<or> c = CHR ''_''"

function normalizeForSystemdName :: "string \<Rightarrow> string" where
  "normalizeForSystemdName [] = []"
| "normalizeForSystemdName (c # cs) =
     (if systemd_char c then c # normalizeForSystemdName cs
      else CHR ''-'' # normalizeForSystemdName (drop (rune_width (c # cs)) (c # cs)))"
  by pat_completeness auto
termination
  by (relation "measure length") (use length_drop_rune in \<open>simp_all\<close>)

fun slice_of_parts :: "string list \<Rightarrow> (string \<times> string) option" where
  "slice_of_parts [] = None"
| "slice_of_parts (part # parts) =
     (if strings_HasSuffix part ''.slice''
      then Some (part, case parts of [] \<Rightarrow> []
                       | nxt # _ \<Rightarrow> (let normalized = normalizeForSystemdName nxt in
                                      if normalized \<noteq> [] then normalized @ ''-'' else []))
      else slice_of_parts parts)"

fun first_anchor :: "string list \<Rightarrow> string" where
  "first_anchor [] = []"
| "first_anchor (part # parts) =
     (let normalized = normalizeForSystemdName part in
      if normalized \<noteq> [] then normalized @ ''-'' else first_anchor parts)"

definition ToSystemdCgroupsPath :: "string \<Rightarrow> string \<Rightarrow> string" where
  "ToSystemdCgroupsPath selfPath containerID =
     (let parts = strings_Split (strings_TrimLeft selfPath [CHR ''/'']) CHR ''/'';
          (slc, u) = (case slice_of_parts parts of Some x \<Rightarrow> x | None \<Rightarrow> (''system.slice'', []));
          uniquePart = (if u = [] then first_anchor parts else u)
      in slc @ '':'' @ uniquePart @ ''bpm:'' @ containerID)"

section \<open>Mounting the hierarchies\<close>

definition mountCgroupTmpfsIfNotPresent :: "string list \<Rightarrow> unit io" where
  "mountCgroupTmpfsIfNotPresent mountpoints =
     (if cgroupRoot \<in> set mountpoints then returnM ()
      else thenM (sys_err (MkdirAll cgroupRoot 493))
             (sys_err (Mount ''tmpfs'' cgroupRoot ''tmpfs'' [MS_NOSUID, MS_NOEXEC, MS_NODEV] ''mode=755'')))"

text \<open>Any error of \<open>Stat\<close> other than a missing file is ignored, as in the source.\<close>

definition mountCgroupSubsystem :: "string \<Rightarrow> unit io" where
  "mountCgroupSubsystem subsystem =
     (let mountpoint = filepath_Join [cgroupRoot, subsystem] in
      bindM (attemptM (sys_stat (Stat mountpoint))) (\<lambda>st.
      thenM (case st of
               Inl err \<Rightarrow> if os_IsNotExist err
                           then thenM (sys_err (MkdirAll mountpoint 493)) (sys_err (Chmod mountpoint 493)) else returnM ()
             | Inr _ \<Rightarrow> returnM ())
      (bindM (attemptM (sys_err (Mount ''cgroup'' mountpoint ''cgroup'' [] subsystem))) (\<lambda>r.
         case r of
           Inr _ \<Rightarrow> returnM ()
         | Inl err \<Rightarrow> (case err of
             OsErr EBUSY _ \<Rightarrow> returnM ()
           | _ \<Rightarrow> throwM (Errorf ''unable to mount %s: %w'' [AStr mountpoint, AWrap err]))))))"

definition Setup :: "unit io" where
  "Setup =
     bindM (sys_flag IsCgroup2UnifiedMode) (\<lambda>unified.
     if unified then returnM ()
     else bindM (mapErrM (\<lambda>err. Errorf ''unable to retrieve mounts: %s'' [AErr err]) (sys_texts (GetMounts cgroupRoot))) (\<lambda>mounts.
       thenM (mapErrM (\<lambda>err. Errorf ''unable to mount cgroup tmpfs: %s'' [AErr err]) (mountCgroupTmpfsIfNotPresent mounts))
       (bindM (mapErrM (\<lambda>err. Errorf ''unable to retrieve cgroup subsystems: %s'' [AErr err]) (sys_texts GetAllSubsystems)) (\<lambda>subsystems.
        forM subsystems (\<lambda>sub.
          bindM (mapErrM (\<lambda>err. Errorf ''unable to retrieve subsystem grouping for %s: %s'' [AStr sub, AErr err]) (subsystemGrouping sub)) (\<lambda>group.
          mapErrM (\<lambda>err. Errorf ''unable to mount subsystem for %s: %s'' [AStr sub, AErr err]) (mountCgroupSubsystem group)))))))"

section \<open>The path of a container\<close>

lemma normalize_chars: "list_all systemd_char (normalizeForSystemdName s)"
  by (induction s rule: normalizeForSystemdName.induct) (auto simp: systemd_char_def)

lemma systemd_char_no_colon: "list_all systemd_char s \<Longrightarrow> CHR '':'' \<notin> set s"
  by (auto simp: list_all_iff systemd_char_def byte_in_def)

lemma systemd_char_dash [simp]: "systemd_char CHR ''-''"
  by (simp add: systemd_char_def)

lemma slice_of_parts_Some:
  "slice_of_parts parts = Some (slc, u) \<Longrightarrow>
    slc \<in> set parts \<and> strings_HasSuffix slc ''.slice'' \<and> list_all systemd_char u"
proof (induction parts)
  case (Cons part parts)
  show ?case
  proof (cases "strings_HasSuffix part ''.slice''")
    case True
    with Cons.prems show ?thesis by (cases parts) (auto simp: normalize_chars Let_def)
  next
    case False
    with Cons show ?thesis by simp
  qed
qed simp

lemma first_anchor_chars: "list_all systemd_char (first_anchor parts)"
  by (induction parts) (auto simp: normalize_chars Let_def)

lemma Split_part_subset: "p \<in> set (strings_Split s c) \<Longrightarrow> set p \<subseteq> set s"
proof (induction s arbitrary: p)
  case (Cons x xs)
  then show ?case by (cases "strings_Split xs c") (fastforce split: if_splits)+
qed simp

lemma TrimLeft_subset: "set (strings_TrimLeft s cs) \<subseteq> set s"
  by (auto simp: strings_TrimLeft_def dest: set_dropWhileD)

text \<open>The cgroup path for systemd has the form that runc expects, slice, prefix and name
  separated by colons: the slice is an element of bpm's own cgroup path that ends in \<open>.slice\<close>, or
  \<open>system.slice\<close>, the prefix ends in \<open>bpm\<close> and has only characters that are valid in a unit name, and the
  name is the container's; splitting the result at colons gives exactly these three.\<close>

lemma systemd_path_format:
  assumes "CHR '':'' \<notin> set selfPath" and "CHR '':'' \<notin> set cid"
  shows "\<exists>slc anchor. strings_Split (ToSystemdCgroupsPath selfPath cid) CHR '':'' = [slc, anchor @ ''bpm'', cid] \<and>
    list_all systemd_char anchor \<and>
    (slc = ''system.slice'' \<or> strings_HasSuffix slc ''.slice'' \<and> slc \<in> set (strings_Split (strings_TrimLeft selfPath ''/'') CHR ''/''))"
proof -
  let ?parts = "strings_Split (strings_TrimLeft selfPath [CHR ''/'']) CHR ''/''"
  obtain slc u where su: "(case slice_of_parts ?parts of Some x \<Rightarrow> x | None \<Rightarrow> (''system.slice'', [])) = (slc, u)"
    by (cases "case slice_of_parts ?parts of Some x \<Rightarrow> x | None \<Rightarrow> (''system.slice'', [])")
  let ?anchor = "if u = [] then first_anchor ?parts else u"
  have path: "ToSystemdCgroupsPath selfPath cid = slc @ CHR '':'' # (?anchor @ ''bpm'') @ CHR '':'' # cid"
    by (simp add: ToSystemdCgroupsPath_def Let_def su)
  have sl: "slc = ''system.slice'' \<and> u = [] \<or>
      slc \<in> set ?parts \<and> strings_HasSuffix slc ''.slice'' \<and> list_all systemd_char u"
    using su slice_of_parts_Some by (cases "slice_of_parts ?parts") auto
  then have anchor: "list_all systemd_char ?anchor" by (auto simp: first_anchor_chars)
  have "CHR '':'' \<notin> set slc"
    using sl Split_part_subset TrimLeft_subset [of selfPath] assms(1) by fastforce
  moreover have "CHR '':'' \<notin> set (?anchor @ ''bpm'')"
    using systemd_char_no_colon [OF anchor] by (simp del: if_split_asm split del: if_split)
  ultimately have "strings_Split (ToSystemdCgroupsPath selfPath cid) CHR '':'' = [slc, ?anchor @ ''bpm'', cid]"
    unfolding path using assms(2) by (simp only: strings_Split_append_sep strings_Split_single not_False_eq_True)
  with anchor sl show ?thesis by auto
qed

section \<open>The calls of the setup\<close>

text \<open>Setting the hierarchies up reads the process's own cgroup file and changes the file system only
  at or below the cgroup root, as far as joining the two path names goes.\<close>

definition cgroup_call :: "call \<Rightarrow> bool" where
  "cgroup_call x \<longleftrightarrow>
     (case x of
        Mount _ t _ _ _ \<Rightarrow> t = cgroupRoot \<or> (\<exists>g. t = filepath_Join [cgroupRoot, g])
      | MkdirAll d _ \<Rightarrow> d = cgroupRoot \<or> (\<exists>g. d = filepath_Join [cgroupRoot, g])
      | Chmod d _ \<Rightarrow> \<exists>g. d = filepath_Join [cgroupRoot, g]
      | OpenFile f fl _ \<Rightarrow> f = ''/proc/self/cgroup'' \<and> fl = []
      | IsCgroup2UnifiedMode \<Rightarrow> True | GetMounts _ \<Rightarrow> True | GetAllSubsystems \<Rightarrow> True
      | ScanLines _ \<Rightarrow> True | CloseFd _ \<Rightarrow> True | Stat _ \<Rightarrow> True
      | _ \<Rightarrow> False)"

lemma emits_subsystemGrouping [emits_intros]: "emits cgroup_call (subsystemGrouping s)"
  unfolding subsystemGrouping_def
  by (intro emits_intros) (simp_all add: cgroup_call_def)

lemma emits_mountTmpfs [emits_intros]: "emits cgroup_call (mountCgroupTmpfsIfNotPresent ms)"
  unfolding mountCgroupTmpfsIfNotPresent_def
  by (intro emits_intros) (simp_all add: cgroup_call_def)

lemma emits_busy [emits_intros]:
  "emits P a \<Longrightarrow> (\<And>e. emits P (b e)) \<Longrightarrow> emits P (case e of OsErr EBUSY _ \<Rightarrow> a | _ \<Rightarrow> b e)"
  by (cases e rule: go_error.exhaust) (simp_all split: errno.splits)

lemma emits_mountCgroupSubsystem [emits_intros]: "emits cgroup_call (mountCgroupSubsystem s)"
  unfolding mountCgroupSubsystem_def Let_def
  by (intro emits_intros) (auto simp: cgroup_call_def)

lemma emits_Setup [emits_intros]: "emits cgroup_call Setup"
  unfolding Setup_def
  by (intro emits_intros) (simp_all add: cgroup_call_def)

lemma emits_SelfCgroupPath [emits_intros]: "emits cgroup_call SelfCgroupPath"
  unfolding SelfCgroupPath_def
  by (intro emits_intros) (simp_all add: cgroup_call_def)

text \<open>On a host whose cgroups are unified, the setup asks for the mode and does nothing else; on
  any other host it makes only calls that read or that concern the cgroup root.\<close>

lemma cgroup_setup_calls:
  "list_all cgroup_call (new_calls Setup w) \<and>
   (r_bool (env w) (calls w) IsCgroup2UnifiedMode = Inr True \<longrightarrow> Setup w = (Ok (), record_call IsCgroup2UnifiedMode w))"
  using emitsD [OF emits_Setup] by (simp add: Setup_def io_simps)

end
