(* ===== verification/Commands.thy ===== *)
theory Commands
  imports Lifecycle Cgroups
begin

text \<open>
  The commands that change a process: \<open>root.go\<close>, \<open>start.go\<close>, \<open>stop.go\<close> and \<open>run.go\<close> of
  \<open>src/bpm/commands\<close>. The package's global variables are written once on the way (the configuration
  and process name by \<open>validateInput\<close>, the lock handle by \<open>rootPre\<close>, the lifecycle lock by
  \<open>acquireLifecycleLock\<close>) and read afterwards: the model hands them on as values. Log output is left out.
\<close>

section \<open>root.go\<close>

text \<open>The libraries the program calls: the JSON and YAML decoders, the byte-size parser, the digest that
  names volume locks, and the order in which a map is visited.\<close>

record externals =
  x_json :: json_codec
  x_yaml :: "string \<Rightarrow> go_error + JobConfig"
  x_toBytes :: "string \<Rightarrow> go_error + 64 word"
  x_sha256 :: "string \<Rightarrow> string"
  x_ord :: "SpecMount list \<Rightarrow> SpecMount list"

definition isRunningSystemd :: "bool io" where
  "isRunningSystemd =
     bindM (attemptM (sys_stat (Lstat ''/run/systemd/system''))) (\<lambda>r.
     returnM (case r of Inl _ \<Rightarrow> False | Inr systemdSystemDir \<Rightarrow> fi_IsDir systemdSystemDir))"

definition cgroupsPathForContainer :: "string \<Rightarrow> string io" where
  "cgroupsPathForContainer containerID =
     bindM SelfCgroupPath (\<lambda>selfPath.
     bindM isRunningSystemd (\<lambda>systemd.
     returnM (if systemd then ToSystemdCgroupsPath selfPath containerID else filepath_Join [selfPath, containerID])))"

text \<open>\<open>rootPre\<close> after its version check, which \<open>version\<close> of the inspecting commands handles. A user whose
  group is root passes the check whatever its user id.\<close>

definition rootPre :: "bosh_env \<Rightarrow> Handle io" where
  "rootPre be =
     bindM (mapErrM (\<lambda>err. Errorf ''unable to get current user: %w'' [AWrap err]) (sys_user CurrentUser)) (\<lambda>usr.
     if u_Uid usr \<noteq> ''0'' \<and> u_Gid usr \<noteq> ''0''
     then throwM (Errorf (''bpm must be run as root. Please run '' @ [CHR 0x27] @ ''sudo -i'' @ [CHR 0x27] @ '' to become the root user.'') [])
     else (let lockDir = LocksPath be in
       thenM (sys_err (MkdirAll lockDir perm_0700))
       (bindM isRunningSystemd (\<lambda>systemd.
        thenM (if \<not> systemd then mapErrM (\<lambda>err. Errorf ''unable to setup cgroups: %w'' [AWrap err]) Setup else returnM ())
        (returnM (NewHandle lockDir))))))"

definition root_run :: "unit io" where
  "root_run = throwM (Errorf ''Exit code 1'' [])"

definition validateInput :: "bosh_env \<Rightarrow> string \<Rightarrow> string list \<Rightarrow> (bpm_config \<times> string) res" where
  "validateInput be processFlag args =
     (case args of
        [] \<Rightarrow> Err (Errorf ''must specify a job'' [])
      | jobNm # _ \<Rightarrow>
          let procNm = (if processFlag = [] then jobNm else processFlag)
          in Ok (NewBPMConfig be jobNm procNm, procNm))"

definition perm_0750 :: nat where "perm_0750 = 488"

definition setupBpmLogs :: "bpm_config \<Rightarrow> unit io" where
  "setupBpmLogs cfg =
     thenM (sys_err (MkdirAll (Path_External (cfg_LogDir cfg)) perm_0750))
     (bindM (Lookup VcapUser) (\<lambda>usr.
      bindM (OpenAppendChown (cfg_BPMLog cfg) (uint (UID usr)) (uint (GID usr)) perm_0600) (\<lambda>logFile.
      returnM ())))"

definition acquireLifecycleLock :: "Handle \<Rightarrow> bpm_config \<Rightarrow> Flock io" where
  "acquireLifecycleLock locks cfg = LockJob locks (cfg_JobName cfg) (cfg_ProcName cfg)"

definition releaseLifecycleLock :: "Flock \<Rightarrow> unit io" where
  "releaseLifecycleLock lifecycleLock = thenM (flock_Unlock lifecycleLock) (returnM ())"

definition newRuncLifecycle :: "externals \<Rightarrow> bosh_env \<Rightarrow> Handle \<Rightarrow> RuncLifecycle io" where
  "newRuncLifecycle x be locks =
     bindM isRunningSystemd (\<lambda>systemd.
     bindM (mapErrM (\<lambda>err. Errorf ''failed to fetch system features: %w'' [AWrap err]) sysfeat_Fetch) (\<lambda>features.
     returnM (lifecycle_of (x_json x) (x_ord x) (x_toBytes x)
       (NewRuncClient (RuncPath be) (RuncRoot be) systemd)
       (program_adapter (x_sha256 x) features locks (Some cgroupsPathForContainer)))))"

fun find_process :: "ProcessConfig option list \<Rightarrow> string \<Rightarrow> ProcessConfig res" where
  "find_process [] procNm = Err (Errorf ''invalid process: %s'' [AStr procNm])"
| "find_process (None # ps) procNm = Abort (Panic ''nil pointer dereference'')"
| "find_process (Some p # ps) procNm = (if Name p = procNm then Ok p else find_process ps procNm)"

definition processByNameFromJobConfig :: "JobConfig \<Rightarrow> string \<Rightarrow> ProcessConfig res" where
  "processByNameFromJobConfig jobCfg procNm = find_process (Processes jobCfg) procNm"

definition forceCleanupBrokenRuncState :: "bosh_env \<Rightarrow> bpm_config \<Rightarrow> RuncLifecycle \<Rightarrow> unit io" where
  "forceCleanupBrokenRuncState be cfg runcLifecycle =
     (let statePath = filepath_Join [RuncRoot be, cfg_ContainerID cfg, ''state.json''] in
      thenM (mapErrM (\<lambda>err. Errorf ''failed to clean up stale state file: %w'' [AWrap err]) (sys_err (RemoveAll statePath)))
      (mapErrM (\<lambda>err. Errorf ''failed to clean up stale job-process: %w'' [AWrap err]) (RemoveProcess runcLifecycle cfg)))"

section \<open>Before and after start, stop and run\<close>

text \<open>\<open>startPre\<close>, \<open>stopPre\<close> and \<open>runPre\<close> are the same but for the name of the log session.\<close>

definition lifecyclePre :: "bosh_env \<Rightarrow> Handle \<Rightarrow> string \<Rightarrow> string list \<Rightarrow> (bpm_config \<times> string \<times> Flock) io" where
  "lifecyclePre be locks processFlag args =
     bindM (liftM (validateInput be processFlag args)) (\<lambda>(cfg, procNm).
     thenM (setupBpmLogs cfg)
     (bindM (acquireLifecycleLock locks cfg) (\<lambda>lock.
      returnM (cfg, procNm, lock))))"

definition startPre :: "bosh_env \<Rightarrow> Handle \<Rightarrow> string \<Rightarrow> string list \<Rightarrow> (bpm_config \<times> string \<times> Flock) io" where
  "startPre = lifecyclePre"

definition startPost :: "Flock \<Rightarrow> unit io" where
  "startPost = releaseLifecycleLock"

definition stopPre :: "bosh_env \<Rightarrow> Handle \<Rightarrow> string \<Rightarrow> string list \<Rightarrow> (bpm_config \<times> string \<times> Flock) io" where
  "stopPre = lifecyclePre"

definition stopPost :: "Flock \<Rightarrow> unit io" where
  "stopPost = releaseLifecycleLock"

definition runPre :: "bosh_env \<Rightarrow> Handle \<Rightarrow> string \<Rightarrow> string list \<Rightarrow> (bpm_config \<times> string \<times> Flock) io" where
  "runPre = lifecyclePre"

definition runPost :: "Flock \<Rightarrow> unit io" where
  "runPost = releaseLifecycleLock"

section \<open>Shared steps\<close>

text \<open>Reading the configuration and finding the process, with the errors of the commands.\<close>

definition load_process :: "externals \<Rightarrow> bpm_config \<Rightarrow> string \<Rightarrow> ProcessConfig io" where
  "load_process x cfg procNm =
     bindM (mapErrM (\<lambda>err. Errorf ''failed to parse job configuration: %s'' [AErr err]) (cfg_ParseJobConfig (x_yaml x) cfg)) (\<lambda>jobCfg.
     mapErrM (\<lambda>err. Errorf ''process %q not present in job configuration (%s)'' [AStr procNm, AStr (cfg_JobConfig cfg)])
       (liftM (processByNameFromJobConfig jobCfg procNm)))"

text \<open>The state the process is in, after cleaning up when runc cannot tell.\<close>

definition current_state :: "bosh_env \<Rightarrow> bpm_config \<Rightarrow> RuncLifecycle \<Rightarrow> string io" where
  "current_state be cfg runcLifecycle =
     bindM (attemptM (StatProcess runcLifecycle cfg)) (\<lambda>r.
       case r of
         Inl err \<Rightarrow>
           if \<not> lifecycle_IsNotExist err
           then thenM (forceCleanupBrokenRuncState be cfg runcLifecycle) (returnM [])
           else returnM []
       | Inr process \<Rightarrow> returnM (P_Status process))"

definition remove_stale :: "bpm_config \<Rightarrow> RuncLifecycle \<Rightarrow> string \<Rightarrow> unit io" where
  "remove_stale cfg runcLifecycle state =
     (if state = ProcessStateFailed
      then mapErrM (\<lambda>err. Errorf ''failed to clean up stale job-process: %s'' [AErr err]) (RemoveProcess runcLifecycle cfg)
      else returnM ())"

section \<open>start.go, stop.go, run.go\<close>

definition start :: "externals \<Rightarrow> bosh_env \<Rightarrow> Handle \<Rightarrow> bpm_config \<Rightarrow> string \<Rightarrow> unit io" where
  "start x be locks cfg procNm =
     bindM (load_process x cfg procNm) (\<lambda>procCfg.
     bindM (newRuncLifecycle x be locks) (\<lambda>runcLifecycle.
     bindM (current_state be cfg runcLifecycle) (\<lambda>state.
       if state = ProcessStateRunning then returnM ()
       else thenM (remove_stale cfg runcLifecycle state)
         (mapErrM (\<lambda>err. Errorf ''failed to start job-process: %s'' [AErr err])
            (StartProcess runcLifecycle cfg procCfg)))))"

definition DefaultStopTimeout :: nat where "DefaultStopTimeout = 15000000000"

definition stop :: "nat \<Rightarrow> externals \<Rightarrow> bosh_env \<Rightarrow> Handle \<Rightarrow> bpm_config \<Rightarrow> string \<Rightarrow> unit io" where
  "stop fuel x be locks cfg procNm =
     bindM (newRuncLifecycle x be locks) (\<lambda>runcLifecycle.
     bindM (attemptM (StatProcess runcLifecycle cfg)) (\<lambda>r.
       case r of
         Inl err \<Rightarrow>
           if lifecycle_IsNotExist err then returnM ()
           else throwM (Errorf ''failed to get job-process status: %s'' [AErr err])
       | Inr _ \<Rightarrow>
           bindM (load_process x cfg procNm) (\<lambda>procCfg.
           thenM (ignoreM (StopProcess fuel runcLifecycle cfg procCfg DefaultStopTimeout))
             (mapErrM (\<lambda>err. Errorf ''failed to cleanup job-process: %s'' [AErr err]) (RemoveProcess runcLifecycle cfg)))))"

definition run :: "externals \<Rightarrow> bosh_env \<Rightarrow> Handle \<Rightarrow> string list \<Rightarrow> string list \<Rightarrow> bpm_config \<Rightarrow> string \<Rightarrow> unit io" where
  "run x be locks volumes envs cfg procNm =
     bindM (load_process x cfg procNm) (\<lambda>procCfg0.
     let (rv, procCfg1) = AddVolumes volumes be (cfg_DefaultVolumes cfg) procCfg0 in
     thenM (liftM rv)
     (let (re, procCfg) = AddEnvVars envs be (cfg_DefaultVolumes cfg) procCfg1 in
      thenM (liftM re)
      (bindM (newRuncLifecycle x be locks) (\<lambda>runcLifecycle.
       bindM (current_state be cfg runcLifecycle) (\<lambda>state.
         if state = ProcessStateRunning then returnM ()
         else thenM (remove_stale cfg runcLifecycle state)
           (bindM (RunProcess runcLifecycle cfg procCfg) (\<lambda>(status, err).
              case err of
                None \<Rightarrow> returnM ()
              | Some e \<Rightarrow> throwM (ExitError status (Errorf ''failed to run job-process: %s'' [AErr e])))))))))"

section \<open>Looking without touching\<close>

text \<open>Calls that change nothing on the host: reading files and the kernel's tables, printing, and asking
  runc for a state or a list.\<close>

definition observes :: "call \<Rightarrow> bool" where
  "observes x \<longleftrightarrow>
     (case x of
        Stat _ \<Rightarrow> True | Lstat _ \<Rightarrow> True | ReadFile _ \<Rightarrow> True | ReadDir _ \<Rightarrow> True
      | IsCgroup2UnifiedMode \<Rightarrow> True | IsCgroup2HybridMode \<Rightarrow> True | FindCgroupMountpoint _ _ \<Rightarrow> True | PathExists _ \<Rightarrow> True
      | CurrentUser \<Rightarrow> True | LookupUser _ \<Rightarrow> True | Getenv _ \<Rightarrow> True | Print _ _ \<Rightarrow> True | Fprintf _ _ _ \<Rightarrow> True
      | CombinedOutputCmd k \<Rightarrow> ''state'' \<in> set (cmd_args k)
      | OutputCmd k \<Rightarrow> ''list'' \<in> set (cmd_args k)
      | _ \<Rightarrow> False)"

lemma observes_state [simp]:
  "observes (CombinedOutputCmd (buildCmd c ''--log-format'' [''json'', ''state'', cid]))"
  "observes (OutputCmd (buildCmd c ''list'' [''--format'', ''json'']))"
  by (simp_all add: observes_def buildCmd_def exec_Command_def)

lemma observes_sys [simp]:
  "observes (Stat p)" "observes (Lstat p)" "observes (ReadFile p)" "observes (ReadDir p)" "observes IsCgroup2UnifiedMode"
  "observes IsCgroup2HybridMode" "observes (FindCgroupMountpoint p q)" "observes (PathExists p)" "observes CurrentUser"
  "observes (LookupUser p)" "observes (Getenv p)" "observes (Print s p)" "observes (Fprintf s p as)"
  by (simp_all add: observes_def)

lemma emits_isRunningSystemd [emits_intros]: "P (Lstat ''/run/systemd/system'') \<Longrightarrow> emits P isRunningSystemd"
  unfolding isRunningSystemd_def by (intro emits_intros)

lemma emits_newRuncLifecycle [emits_intros]: "emits observes (newRuncLifecycle x be locks)"
  unfolding newRuncLifecycle_def by (intro emits_intros) simp_all

lemma emits_load_process [emits_intros]: "emits observes (load_process x cfg nm)"
  unfolding load_process_def cfg_ParseJobConfig_def ParseJobConfig_def by (intro emits_intros) simp_all

lemma newRuncLifecycle_Ok:
  assumes "newRuncLifecycle x be locks w = (Ok lc, w')"
  obtains systemd features where
    "lc = lifecycle_of (x_json x) (x_ord x) (x_toBytes x) (NewRuncClient (RuncPath be) (RuncRoot be) systemd)
       (program_adapter (x_sha256 x) features locks (Some cgroupsPathForContainer))"
  using assms by (auto simp: newRuncLifecycle_def bindM_eq_Ok returnM_def)

lemma emits_StatProcess [emits_intros]:
  "emits observes (StatProcess (lifecycle_of json ord toBytes client a) cfg)"
  unfolding StatProcess_def lifecycle_of_sel runc_ops_sel by (intro emits_intros) simp_all

lemma emits_trace: "emits P m \<Longrightarrow> m w = (r, w') \<Longrightarrow> \<exists>tr. calls w' = calls w @ tr \<and> list_all P tr"
  by (auto simp: emits_def dest: spec [of _ w])

text \<open>C19: starting a process that runc reports as running succeeds and changes nothing: every call it makes
  only reads.\<close>

theorem start_running_is_noop:
  assumes "load_process x cfg nm w = (Ok p, w1)" and "newRuncLifecycle x be locks w1 = (Ok lc, w2)"
    and "StatProcess lc cfg w2 = (Ok q, w3)" and "P_Status q = ''running''"
  shows "start x be locks cfg nm w = (Ok (), w3) \<and> (\<exists>tr. calls w3 = calls w @ tr \<and> list_all observes tr)"
proof -
  from newRuncLifecycle_Ok [OF assms(2)] have stat: "emits observes (StatProcess lc cfg)"
    by (metis emits_StatProcess)
  have "start x be locks cfg nm w = (Ok (), w3)"
    using assms by (simp add: start_def current_state_def bindM_def attemptM_def returnM_def ProcessStateRunning_def)
  moreover obtain t1 t2 t3 where "calls w1 = calls w @ t1" "calls w2 = calls w1 @ t2" "calls w3 = calls w2 @ t3"
    and "list_all observes t1" "list_all observes t2" "list_all observes t3"
    using emits_trace [OF emits_load_process assms(1)] emits_trace [OF emits_newRuncLifecycle assms(2)]
      emits_trace [OF stat assms(3)] by blast
  ultimately show ?thesis by (intro conjI exI [of _ "t1 @ t2 @ t3"]) simp_all
qed

text \<open>A configuration with one plain process, for evaluation.\<close>

definition plain_process :: ProcessConfig where
  "plain_process = example_process\<lparr>AdditionalVolumes := []\<rparr>"

definition example_externals :: externals where
  "example_externals = \<lparr>x_json = example_json, x_yaml = (\<lambda>s. Inr \<lparr>Processes = [Some plain_process]\<rparr>),
     x_toBytes = example_toBytes, x_sha256 = (\<lambda>s. s), x_ord = (\<lambda>ms. ms)\<rparr>"

lemma example_load:
  "env w = calm_env\<lparr>r_user := u\<rparr> \<Longrightarrow>
    load_process example_externals (example_cfg ''web'' ''web'') ''web'' w =
      (Ok plain_process, record_call (ReadFile (cfg_JobConfig (example_cfg ''web'' ''web''))) w)"
  by (simp add: load_process_def cfg_ParseJobConfig_def ParseJobConfig_def example_externals_def JobConfig_Validate_def
      plain_process_def example_process_def ProcessConfig_Validate_def processByNameFromJobConfig_def
      calm_env_def io_simps res_sum_def bind_res_def)

theorem start_running_is_noop_witness:
  "fst (start example_externals (NewEnv []) (NewHandle ''/l'') (example_cfg ''web'' ''web'') ''web'' calm_world) = Ok ()"
proof -
  let ?c = "example_cfg ''web'' ''web''"
  have e: "env calm_world = calm_env\<lparr>r_user := r_user calm_env\<rparr>" by (simp add: calm_world_def)
  note l = example_load [OF e]
  let ?w1 = "record_call (ReadFile (cfg_JobConfig ?c)) calm_world"
  obtain lc w2 where n: "newRuncLifecycle example_externals (NewEnv []) (NewHandle ''/l'') ?w1 = (Ok lc, w2)" and "env w2 = calm_env"
    by (simp add: newRuncLifecycle_def isRunningSystemd_def sysfeat_Fetch_def swapLimitSupported_def swapLimitSupportedCgroup1_def
        seccompSupported_def calm_world_def calm_env_def io_simps res_sum_def)
  moreover obtain sd f where "lc = lifecycle_of example_json (\<lambda>ms. ms) example_toBytes (NewRuncClient (RuncPath (NewEnv [])) (RuncRoot (NewEnv [])) sd)
       (program_adapter (\<lambda>s. s) f (NewHandle ''/l'') (Some cgroupsPathForContainer))"
    using newRuncLifecycle_Ok [OF n] by (auto simp: example_externals_def)
  ultimately obtain q w3 where "StatProcess lc ?c w2 = (Ok q, w3)" "P_Status q = ''running''"
    by (simp add: StatProcess_def ContainerState_op_def example_json_def calm_env_def io_simps res_sum_def
        newProcessFromContainerState_def containerStateToString_def ProcessStateRunning_def)
  from start_running_is_noop [OF l n this] show ?thesis by simp
qed

section \<open>Stopping\<close>

lemma RemoveProcess_Ok:
  assumes "RemoveProcess (lifecycle_of json ord toBytes client a) c w = (Ok (), w')"
  shows "calls w' = calls w @ removal client c"
    and "r_cmd (env w) (calls w) (RunCmd (buildCmd client ''delete'' [''--force'', cfg_ContainerID c])) = CmdOk"
  using assms
  by (auto simp: RemoveProcess_def DeleteContainer_def DestroyBundle_def thenM_eq_Ok run_cmd_cases sys_err_def removal_def
      split: option.splits)

text \<open>The errors of runc and of the JSON decoder are not the lifecycle's own value for a missing container.\<close>

definition foreign_errors :: "json_codec \<Rightarrow> environment \<Rightarrow> bool" where
  "foreign_errors json e \<longleftrightarrow>
     (\<forall>h x. cmd_err (r_cmd e h x) \<noteq> Some IsNotExistError) \<and> (\<forall>s. decodeState json s \<noteq> Inl IsNotExistError)"

lemma state_answer_foreign:
  "foreign_errors json e \<Longrightarrow> state_answer json c cid e h \<noteq> Err IsNotExistError"
  by (auto simp: foreign_errors_def state_answer_def Let_def split: option.splits sum.splits)

lemma StatProcess_answer:
  "StatProcess (lifecycle_of json ord toBytes client a) c w =
     (case state_answer json client (cfg_ContainerID c) (env w) (calls w) of
        Ok None \<Rightarrow> Err IsNotExistError
      | Ok (Some st) \<Rightarrow> Ok (newProcessFromContainerState (St_ID st) (St_Status st) (St_Pid st))
      | Err e \<Rightarrow> Err e | Abort x \<Rightarrow> Abort x,
      record_call (state_request client (cfg_ContainerID c)) w)"
  by (auto simp: StatProcess_def ContainerState_answer bindM_def returnM_def throwM_def split: res.splits option.splits)

text \<open>Stopping begins with the shutdown signal.\<close>

lemma StopProcess_signals:
  "\<exists>tr. calls (snd (StopProcess fuel (lifecycle_of json ord toBytes client a) c p t w)) =
     calls w @ RunCmd (buildCmd client ''kill'' [cfg_ContainerID c, Signal_String (ParseShutdownSignal p)]) # tr"
proof -
  let ?lc = "lifecycle_of json ord toBytes client a"
  let ?k = "RunCmd (buildCmd client ''kill'' [cfg_ContainerID c, Signal_String (ParseShutdownSignal p)])"
  let ?R = "bindM (container_stopped ?lc (cfg_ContainerID c)) (\<lambda>stopped.
      if stopped then returnM ()
      else thenM (sys_do (NewTimer t))
        (thenM (sys_do (NewTicker ContainerStatePollInterval))
        (deferM (stop_loop fuel ?lc (cfg_ContainerID c)) (sys_do StopTicker))))"
  have "emits (\<lambda>x. True) ?R"
    by (intro emits_intros emits_mono [OF lc.emits_container_stopped] emits_mono [OF lc.emits_stop_loop] TrueI)
  from emits_calls [OF this, of "record_call ?k w"] show ?thesis
    by (cases "cmd_err (r_cmd (env w) (calls w) ?k)")
      (auto simp: StopProcess_def SignalContainer_def thenM_def bindM_def [of "run_cmd _"] run_cmd_cases)
qed


lemma example_newRuncLifecycle:
  assumes "env w = calm_env\<lparr>r_user := u\<rparr>"
  obtains w' where "newRuncLifecycle x be locks w =
      (Ok (lifecycle_of (x_json x) (x_ord x) (x_toBytes x) (NewRuncClient (RuncPath be) (RuncRoot be) True)
        (program_adapter (x_sha256 x) \<lparr>SwapLimitSupported = True, SeccompSupported = False\<rparr> locks (Some cgroupsPathForContainer))), w')"
    and "env w' = env w"
  using assms
  by (simp add: newRuncLifecycle_def isRunningSystemd_def sysfeat_Fetch_def swapLimitSupported_def swapLimitSupportedCgroup1_def
      seccompSupported_def calm_env_def io_simps res_sum_def fi_IsDir_def)

lemma calm_env_user [simp]: "calm_env\<lparr>r_user := r_user calm_env\<rparr> = calm_env"
  by (simp add: calm_env_def)

lemma example_stop_steps:
  assumes "env w = calm_env"
  shows "\<exists>q w'. StatProcess (lifecycle_of example_json ord toBytes client a) c w = (Ok q, w') \<and> env w' = calm_env"
    and "\<exists>w'. ignoreM (StopProcess (Suc 0) (lifecycle_of example_json ord toBytes client a) c p t) w = (Ok (), w') \<and> env w' = calm_env"
    and "\<exists>w'. RemoveProcess (lifecycle_of example_json ord toBytes client a) c w = (Ok (), w')"
  using assms
  by (simp_all add: StatProcess_def StopProcess_def RemoveProcess_def ContainerState_op_def container_stopped_def
      SignalContainer_def DeleteContainer_def DestroyBundle_def example_json_def calm_env_def io_simps res_sum_def res_of_def
      ContainerStateStopped_def)

lemma example_stop:
  "\<exists>w'. stop 1 example_externals (NewEnv []) (NewHandle ''/l'') (example_cfg ''web'' ''web'') ''web'' calm_world = (Ok (), w')"
proof -
  let ?c = "example_cfg ''web'' ''web''"
  let ?lc = "lifecycle_of example_json (\<lambda>ms. ms) example_toBytes (NewRuncClient (RuncPath (NewEnv [])) (RuncRoot (NewEnv [])) True)
        (program_adapter (\<lambda>s. s) \<lparr>SwapLimitSupported = True, SeccompSupported = False\<rparr> (NewHandle ''/l'') (Some cgroupsPathForContainer))"
  have e: "env calm_world = calm_env\<lparr>r_user := r_user calm_env\<rparr>" by (simp add: calm_world_def)
  obtain w1 where 1: "newRuncLifecycle example_externals (NewEnv []) (NewHandle ''/l'') calm_world = (Ok ?lc, w1)" "env w1 = calm_env"
    using example_newRuncLifecycle [OF e, of example_externals "NewEnv []" "NewHandle ''/l''"]
    by (auto simp: example_externals_def calm_world_def)
  obtain q w2 where 2: "StatProcess ?lc ?c w1 = (Ok q, w2)" "env w2 = calm_env"
    using example_stop_steps(1) [OF 1(2)] by blast
  let ?w3 = "record_call (ReadFile (cfg_JobConfig ?c)) w2"
  have 3: "load_process example_externals ?c ''web'' w2 = (Ok plain_process, ?w3)"
    using example_load [of w2 "r_user calm_env"] 2(2) by simp
  have "env ?w3 = calm_env" using 2(2) by simp
  then obtain w4 where 4: "ignoreM (StopProcess (Suc 0) ?lc ?c plain_process DefaultStopTimeout) ?w3 = (Ok (), w4)" "env w4 = calm_env"
    using example_stop_steps(2) by blast
  obtain w5 where 5: "RemoveProcess ?lc ?c w4 = (Ok (), w5)" using example_stop_steps(3) [OF 4(2)] by blast
  have "stop 1 example_externals (NewEnv []) (NewHandle ''/l'') ?c ''web'' calm_world = (Ok (), w5)"
    unfolding stop_def One_nat_def
    using 1(1) 2(1) 3 4(1) 5 by (simp add: bindM_Ok attemptM_Inr [THEN iffD2] thenM_def)
  then show ?thesis by blast
qed


section \<open>Running\<close>

lemma RunProcess_setup_fails:
  "setupProcess j c p w = (Err e, w') \<Longrightarrow> RunProcess j c p w = (Ok (0, Some e), w')"
  by (simp add: RunProcess_def bindM_def attemptM_def returnM_def)

text \<open>When \<open>bpm run\<close> cannot set the process up (no user, a failing hook, an unwritable bundle), it reports
  the error with exit status 0, the status of success.\<close>

lemma run_setup_failure_status:
  assumes "load_process x cfg nm w = (Ok p0, w1)" and "AddVolumes vols be (cfg_DefaultVolumes cfg) p0 = (Ok (), p1)"
    and "AddEnvVars es be (cfg_DefaultVolumes cfg) p1 = (Ok (), p)" and "newRuncLifecycle x be locks w1 = (Ok lc, w2)"
    and "current_state be cfg lc w2 = (Ok state, w3)" and "state \<noteq> ''running''"
    and "remove_stale cfg lc state w3 = (Ok (), w4)" and "setupProcess lc cfg p w4 = (Err e, w5)"
  shows "run x be locks vols es cfg nm w = (Err (ExitError 0 (Errorf ''failed to run job-process: %s'' [AErr e])), w5)"
  using assms RunProcess_setup_fails [OF assms(8)]
  by (simp add: run_def bindM_Ok thenM_def liftM_def ProcessStateRunning_def throwM_def)

section \<open>Under the lifecycle lock\<close>

abbreviation anything :: "call \<Rightarrow> bool" where
  "anything \<equiv> (\<lambda>x. True)"

lemma emits_cgroupsPathForContainer: "emits arranges (cgroupsPathForContainer cid)"
proof -
  have "emits arranges SelfCgroupPath"
    by (rule emits_mono [OF emits_SelfCgroupPath]) (auto simp: cgroup_call_def arranges_def command_of_def split: call.splits)
  then show ?thesis unfolding cgroupsPathForContainer_def by (intro emits_intros) simp_all
qed

text \<open>The calls that the bodies of start, stop and run make: reading, setting up, the clock, calls that concern
  the container (\<open>mine\<close>, for any reading of the client's interface), and removing the files of the process.\<close>

definition body_call :: "(string \<Rightarrow> call \<Rightarrow> bool) \<Rightarrow> bosh_env \<Rightarrow> bpm_config \<Rightarrow> call \<Rightarrow> bool" where
  "body_call mine be c y \<longleftrightarrow>
     observes y \<or> sets_up y \<or> clock_call y \<or> mine (cfg_ContainerID c) y \<or>
     y \<in> {RemoveAll (cfg_BundlePath c), RemoveAll (Path_External (cfg_PidFile c)),
           RemoveAll (filepath_Join [RuncRoot be, cfg_ContainerID c, ''state.json''])}"

lemma body_call_simps [simp]:
  "observes y \<Longrightarrow> body_call mine be c y" "sets_up y \<Longrightarrow> body_call mine be c y" "clock_call y \<Longrightarrow> body_call mine be c y"
  "mine (cfg_ContainerID c) y \<Longrightarrow> body_call mine be c y" "body_call mine be c (RemoveAll (cfg_BundlePath c))"
  "body_call mine be c (RemoveAll (Path_External (cfg_PidFile c)))"
  "body_call mine be c (RemoveAll (filepath_Join [RuncRoot be, cfg_ContainerID c, ''state.json'']))"
  by (simp_all add: body_call_def)

lemma program_process_api:
  assumes "lifecycle_api (lifecycle_of json ord toBytes client (program_adapter sha f locks (Some cgroupsPathForContainer))) mine"
  shows "process_api (lifecycle_of json ord toBytes client (program_adapter sha f locks (Some cgroupsPathForContainer))) mine"
  using assms program_adapter_api [of "Some cgroupsPathForContainer" json ord toBytes client sha f locks]
  by (simp add: process_api_def emits_cgroupsPathForContainer)

interpretation prog: process_api "lifecycle_of json ord toBytes client (program_adapter sha f locks (Some cgroupsPathForContainer))" "runc_on client"
  by (rule program_process_api) (rule lc.lifecycle_api_axioms)

lemma emits_lifecycle_ops:
  fixes json ord toBytes client sha f locks
  defines "lc \<equiv> lifecycle_of json ord toBytes client (program_adapter sha f locks (Some cgroupsPathForContainer))"
  assumes api: "lifecycle_api lc mine"
  shows "emits (body_call mine be c) (StatProcess lc c)" and "emits (body_call mine be c) (RemoveProcess lc c)"
    and "emits (body_call mine be c) (StopProcess fuel lc c p t)" and "emits (body_call mine be c) (StartProcess lc c p)"
    and "emits (body_call mine be c) (RunProcess lc c p)"
proof -
  let ?P = "body_call mine be c" and ?id = "cfg_ContainerID c"
  have runc: "runc_api (runcClient lc) mine" using api by (simp add: lifecycle_api_def)
  have process: "process_api lc mine" using program_process_api api unfolding lc_def by blast
  have delete: "emits ?P (op_DeleteContainer (runcClient lc) ?id)"
    by (rule emits_mono [OF runc_api.delete_mine [OF runc]]) simp
  have destroy: "op_DestroyBundle (runcClient lc) = DestroyBundle" by (simp add: lc_def)
  show "emits ?P (StatProcess lc c)" unfolding lc_def by (rule emits_mono [OF emits_StatProcess]) simp
  show "emits ?P (RemoveProcess lc c)"
    unfolding RemoveProcess_def destroy DestroyBundle_def by (intro emits_intros delete) simp_all
  show "emits ?P (StopProcess fuel lc c p t)"
    by (rule emits_mono [OF lifecycle_api.emits_StopProcess [OF api]]) auto
  show "emits ?P (StartProcess lc c p)" "emits ?P (RunProcess lc c p)"
    by (rule emits_mono [OF process_api.emits_starting(1) [OF process]] emits_mono [OF process_api.emits_starting(2) [OF process]], auto)+
qed

abbreviation program_lifecycle :: "externals \<Rightarrow> bosh_env \<Rightarrow> Handle \<Rightarrow> bool \<Rightarrow> Features \<Rightarrow> RuncLifecycle" where
  "program_lifecycle x be locks systemd f \<equiv>
     lifecycle_of (x_json x) (x_ord x) (x_toBytes x) (NewRuncClient (RuncPath be) (RuncRoot be) systemd)
       (program_adapter (x_sha256 x) f locks (Some cgroupsPathForContainer))"

lemma emits_with_lifecycle:
  assumes "\<And>sd f. emits (body_call mine be c) (k (program_lifecycle x be locks sd f))"
  shows "emits (body_call mine be c) (bindM (newRuncLifecycle x be locks) k)"
proof (rule emits_bindM_result)
  show "emits (body_call mine be c) (newRuncLifecycle x be locks)" by (rule emits_mono [OF emits_newRuncLifecycle]) simp
next
  fix w lc w'
  assume "newRuncLifecycle x be locks w = (Ok lc, w')"
  from newRuncLifecycle_Ok [OF this] show "emits (body_call mine be c) (k lc)" using assms by metis
qed

lemma emits_bodies:
  assumes api: "\<And>sd f. lifecycle_api (program_lifecycle x be locks sd f) mine"
  shows "emits (body_call mine be c) (start x be locks c nm)" and "emits (body_call mine be c) (stop fuel x be locks c nm)"
    and "emits (body_call mine be c) (run x be locks vols es c nm)"
proof -
  let ?P = "body_call mine be c"
  have load: "emits ?P (load_process x c nm)" by (rule emits_mono [OF emits_load_process]) simp
  note ops = emits_lifecycle_ops [OF api]
  show "emits ?P (start x be locks c nm)"
    unfolding start_def current_state_def remove_stale_def forceCleanupBrokenRuncState_def Let_def
    by (intro emits_bindM load emits_with_lifecycle; (intro emits_intros ops)?; simp?)
  show "emits ?P (stop fuel x be locks c nm)"
    unfolding stop_def by (intro emits_with_lifecycle; (intro emits_intros ops load)?; simp?)
  show "emits ?P (run x be locks vols es c nm)"
    unfolding run_def current_state_def remove_stale_def forceCleanupBrokenRuncState_def Let_def split_def
    by (intro emits_bindM emits_thenM emits_liftM load emits_with_lifecycle; (intro emits_intros ops)?; simp?)
qed

lemma runc_on_systemd: "runc_on (NewRuncClient p r sd) = runc_on (NewRuncClient p r sd')"
  by (simp add: runc_on_def NewRuncClient_def fun_eq_iff split: option.splits)

lemma program_lifecycle_api:
  "lifecycle_api (program_lifecycle x be locks sd f) (runc_on (NewRuncClient (RuncPath be) (RuncRoot be) False))"
  using lc.lifecycle_api_axioms [of "x_json x" "x_ord x" "x_toBytes x" "NewRuncClient (RuncPath be) (RuncRoot be) sd"
      "program_adapter (x_sha256 x) f locks (Some cgroupsPathForContainer)"]
  unfolding runc_on_systemd [of _ _ sd False] .

text \<open>In particular every action of the commands only appends calls.\<close>

lemma emits_bodies_anything:
  "emits anything (start x be locks cfg nm)" "emits anything (stop fuel x be locks cfg nm)"
  "emits anything (run x be locks vols es cfg nm)"
  by (rule emits_mono [OF emits_bodies(1) [OF program_lifecycle_api]] emits_mono [OF emits_bodies(2) [OF program_lifecycle_api]]
      emits_mono [OF emits_bodies(3) [OF program_lifecycle_api]]; simp)+

end
