(* ===== verification/Table.thy ===== *)
theory Table
  imports Lifecycle
begin

text \<open>
  The table of \<open>bpm list\<close> (\<open>src/bpm/presenters/presenters.go\<close>) with the part of Go's \<open>text/tabwriter\<close> that it uses:
  a padding of one blank, no minimal width, no flags. The writer splits its input into cells at tabs and line
  ends and lays out a column once a run of lines with that column is complete; a line of one cell or a form feed
  empties its buffer, and the byte \<open>0xFF\<close> escapes what follows up to the next one. The last
  part shows that for ordinary names the table is a plain layout by columns.
\<close>

section \<open>The tab writer\<close>

record tw_cell =
  tc_text :: string
  tc_width :: int

text \<open>The lines so far and the cell being read: its text, the width of what has been counted of it, the
  rest, and whether it is inside an escape.\<close>

record Writer =
  tw_lines :: "tw_cell list list"
  tw_line :: "tw_cell list"
  tw_text :: string
  tw_width :: int
  tw_pending :: string
  tw_escape :: bool

definition NewWriter :: Writer where
  "NewWriter = \<lparr>tw_lines = [], tw_line = [], tw_text = [], tw_width = 0, tw_pending = [], tw_escape = False\<rparr>"

definition tw_append :: "Writer \<Rightarrow> char \<Rightarrow> Writer" where
  "tw_append b ch = b\<lparr>tw_text := tw_text b @ [ch], tw_pending := tw_pending b @ [ch]\<rparr>"

definition tw_updateWidth :: "Writer \<Rightarrow> Writer" where
  "tw_updateWidth b = b\<lparr>tw_width := tw_width b + int (rune_count (tw_pending b)), tw_pending := []\<rparr>"

definition tw_endEscape :: "Writer \<Rightarrow> Writer" where
  "tw_endEscape b = (let b' = tw_updateWidth b in b'\<lparr>tw_width := tw_width b' - 2, tw_escape := False\<rparr>)"

definition tw_terminateCell :: "Writer \<Rightarrow> Writer" where
  "tw_terminateCell b =
     b\<lparr>tw_line := tw_line b @ [\<lparr>tc_text = tw_text b, tc_width = tw_width b\<rparr>], tw_text := [], tw_width := 0, tw_pending := []\<rparr>"

text \<open>A line is written with the widths of the columns known so far, which the cells after them do not have.\<close>

fun tw_cells :: "int list \<Rightarrow> tw_cell list \<Rightarrow> string" where
  "tw_cells ws [] = []"
| "tw_cells [] (c # cs) = tc_text c @ tw_cells [] cs"
| "tw_cells (wd # ws) (c # cs) = tc_text c @ replicate (nat (wd - tc_width c)) CHR '' '' @ tw_cells ws cs"

text \<open>A line and the line end written after it; the last cell of a line is not part of a column.\<close>

type_synonym tw_row = "tw_cell list \<times> string"

definition has_column :: "int list \<Rightarrow> tw_row \<Rightarrow> bool" where
  "has_column ws l \<longleftrightarrow> Suc (length ws) < length (fst l)"

definition block_width :: "nat \<Rightarrow> tw_row list \<Rightarrow> int" where
  "block_width j ls = fold (\<lambda>l wd. max wd (tc_width (fst l ! j) + 1)) ls 0"

function tw_format :: "int list \<Rightarrow> tw_row list \<Rightarrow> string" where
  "tw_format ws [] = []"
| "tw_format ws (l # ls) =
     (if has_column ws l
      then (let blk = takeWhile (has_column ws) (l # ls)
            in tw_format (ws @ [block_width (length ws) blk]) blk @ tw_format ws (dropWhile (has_column ws) (l # ls)))
      else tw_cells ws (fst l) @ snd l @ tw_format ws ls)"
  by pat_completeness auto
termination
proof (relation "measure (\<lambda>(ws, ls). \<Sum>l\<leftarrow>ls. Suc (length (fst l) - length ws))", goal_cases)
  case (2 ws l ls blk)
  have "(\<Sum>l\<leftarrow>xs. Suc (length (fst l) - Suc (length ws))) \<le> (\<Sum>l\<leftarrow>xs. Suc (length (fst l) - length ws))" for xs :: "tw_row list"
    by (induction xs) auto
  moreover have "(\<Sum>l\<leftarrow>takeWhile P xs. g l) \<le> (\<Sum>l\<leftarrow>xs. g l)" for P and g :: "tw_row \<Rightarrow> nat" and xs
    by (induction xs) auto
  ultimately have "(\<Sum>l\<leftarrow>takeWhile (has_column ws) ls. Suc (length (fst l) - Suc (length ws))) \<le> (\<Sum>l\<leftarrow>ls. Suc (length (fst l) - length ws))"
    by (meson le_trans)
  with 2 show ?case by (auto simp: has_column_def)
next
  case (3 ws l ls blk)
  have "(\<Sum>l\<leftarrow>dropWhile P xs. g l) \<le> (\<Sum>l\<leftarrow>xs. g l)" for P and g :: "tw_row \<Rightarrow> nat" and xs
    by (induction xs) auto
  from this [of "\<lambda>l. Suc (length (fst l) - length ws)" "has_column ws" ls] 3 show ?case by simp
qed auto

declare tw_format.simps(2) [simp del]

definition tw_flush :: "Writer \<Rightarrow> string" where
  "tw_flush b =
     (let b' = (if tw_text b \<noteq> [] then tw_terminateCell (if tw_escape b then tw_endEscape b else b) else b)
      in tw_format [] (map (\<lambda>l. (l, [CHR 0x0A])) (tw_lines b') @ [(tw_line b', [])]))"

text \<open>One byte: the writer afterwards, and what is written out at once.\<close>

definition tw_char :: "Writer \<Rightarrow> char \<Rightarrow> Writer \<times> string list" where
  "tw_char b ch =
     (if tw_escape b then (if ch = CHR 0xFF then (tw_endEscape (tw_append b ch), []) else (tw_append b ch, []))
      else if ch = CHR 0x09 \<or> ch = CHR 0x0B then (tw_terminateCell (tw_updateWidth b), [])
      else if ch = CHR 0x0A \<or> ch = CHR 0x0C
      then (let b1 = tw_terminateCell (tw_updateWidth b);
                ncells = length (tw_line b1);
                b2 = b1\<lparr>tw_lines := tw_lines b1 @ [tw_line b1], tw_line := []\<rparr>
            in if ch = CHR 0x0C \<or> ncells = 1 then (NewWriter, [tw_flush b2]) else (b2, []))
      else if ch = CHR 0xFF then ((tw_append (tw_updateWidth b) ch)\<lparr>tw_escape := True\<rparr>, [])
      else (tw_append b ch, []))"

fun tw_Write :: "Writer \<Rightarrow> string \<Rightarrow> Writer \<times> string list" where
  "tw_Write b [] = (b, [])"
| "tw_Write b (ch # cs) = (let (b1, out1) = tw_char b ch; (b2, out2) = tw_Write b1 cs in (b2, out1 @ out2))"

section \<open>presenters.go\<close>

text \<open>The error of a write that fails on the way is dropped; that of the last one is returned.\<close>

definition printRow :: "Writer \<Rightarrow> string list \<Rightarrow> Writer io" where
  "printRow tw args =
     (let row = strings_Join args [CHR 0x09];
          (tw', out) = tw_Write tw (row @ [CHR 0x0A])
      in thenM (forM out (\<lambda>s. ignoreM (sys_err (Print StdOut s)))) (returnM tw'))"

definition process_row :: "Process \<Rightarrow> string list res" where
  "process_row process =
     bind_res (Decode (P_Name process)) (\<lambda>name.
     Ok [name, if Pid process > 0 then strconv_Itoa (Pid process) else ''-'', P_Status process])"

fun print_processes :: "Writer \<Rightarrow> Process list \<Rightarrow> Writer io" where
  "print_processes tw [] = returnM tw"
| "print_processes tw (p # ps) =
     bindM (liftM (process_row p)) (\<lambda>row. bindM (printRow tw row) (\<lambda>tw'. print_processes tw' ps))"

definition PrintJobs :: "Process list \<Rightarrow> unit io" where
  "PrintJobs processes =
     bindM (printRow NewWriter [''Name'', ''Pid'', ''Status'']) (\<lambda>tw.
     bindM (print_processes tw processes) (\<lambda>tw'.
     sys_err (Print StdOut (tw_flush tw'))))"

section \<open>The layout by columns\<close>

text \<open>The reference: every cell but the last of a row is padded to one more than the widest of its column, in runes.\<close>

definition column_width :: "string list list \<Rightarrow> nat \<Rightarrow> nat" where
  "column_width rows i = fold (\<lambda>row n. max n (Suc (rune_count (row ! i)))) rows 0"

definition pad :: "nat \<Rightarrow> string \<Rightarrow> string" where
  "pad n s = s @ replicate (n - rune_count s) CHR '' ''"

definition aligned_row :: "string list list \<Rightarrow> string list \<Rightarrow> string" where
  "aligned_row rows row =
     concat (map (\<lambda>i. if Suc i < length row then pad (column_width rows i) (row ! i) else row ! i) [0..<length row]) @ [CHR 0x0A]"

definition aligned :: "string list list \<Rightarrow> string" where
  "aligned rows = concat (map (aligned_row rows) rows)"

text \<open>Cells that the writer neither splits nor escapes.\<close>

definition plain :: "string \<Rightarrow> bool" where
  "plain s \<longleftrightarrow> list_all (\<lambda>ch. ch \<notin> {CHR 0x09, CHR 0x0A, CHR 0x0B, CHR 0x0C, CHR 0xFF}) s"

definition cell_of :: "string \<Rightarrow> tw_cell" where
  "cell_of s = \<lparr>tc_text = s, tc_width = int (rune_count s)\<rparr>"

lemma tw_Write_append: "tw_Write b (s @ t) = (let (b1, out1) = tw_Write b s; (b2, out2) = tw_Write b1 t in (b2, out1 @ out2))"
  by (induction s arbitrary: b) (simp_all add: Let_def split_def)

lemma tw_Write_plain:
  "plain s \<Longrightarrow> \<not> tw_escape b \<Longrightarrow> tw_Write b s = (b\<lparr>tw_text := tw_text b @ s, tw_pending := tw_pending b @ s\<rparr>, [])"
  by (induction s arbitrary: b) (simp_all add: plain_def tw_char_def tw_append_def)

text \<open>A writer between two cells.\<close>

definition at_cell :: "tw_cell list list \<Rightarrow> tw_cell list \<Rightarrow> Writer" where
  "at_cell ls l = NewWriter\<lparr>tw_lines := ls, tw_line := l\<rparr>"

lemma tw_Write_cell: "plain s \<Longrightarrow> tw_Write (at_cell ls l) (s @ [CHR 0x09]) = (at_cell ls (l @ [cell_of s]), [])"
  by (simp add: tw_Write_append tw_Write_plain at_cell_def NewWriter_def tw_char_def tw_updateWidth_def tw_terminateCell_def cell_of_def)

lemma tw_Write_row:
  "list_all plain row \<Longrightarrow> row \<noteq> [] \<Longrightarrow> 1 < length l + length row \<Longrightarrow>
    tw_Write (at_cell ls l) (strings_Join row [CHR 0x09] @ [CHR 0x0A]) = (at_cell (ls @ [l @ map cell_of row]) [], [])"
proof (induction row arbitrary: l)
  case (Cons s row)
  show ?case
  proof (cases row)
    case Nil
    with Cons.prems show ?thesis
      by (simp add: tw_Write_append tw_Write_plain at_cell_def NewWriter_def tw_char_def tw_updateWidth_def tw_terminateCell_def
          cell_of_def Let_def)
  next
    case (Cons t row')
    with Cons.prems tw_Write_cell [of s ls l] Cons.IH [of "l @ [cell_of s]"]
      tw_Write_append [of "at_cell ls l" "s @ [CHR 0x09]" "strings_Join row [CHR 0x09] @ [CHR 0x0A]"]
    show ?thesis by (simp add: strings_Join_Cons)
  qed
qed simp

text \<open>The columns of lines that all have the same number of cells.\<close>

definition widths_from :: "nat \<Rightarrow> nat \<Rightarrow> tw_row list \<Rightarrow> int list" where
  "widths_from j k ls = map (\<lambda>i. block_width i ls) [j..<k]"

lemma tw_format_even:
  assumes "\<forall>l\<in>set ls. length (fst l) = Suc k" and "length ws \<le> k"
  shows "tw_format ws ls = concat (map (\<lambda>l. tw_cells (ws @ widths_from (length ws) k ls) (fst l) @ snd l) ls)"
  using assms
proof (induction "k - length ws" arbitrary: ws)
  case 0
  then have "\<forall>l\<in>set ls'. \<not> has_column ws l" if "set ls' \<subseteq> set ls" for ls' using that by (fastforce simp: has_column_def)
  then have "tw_format ws ls' = concat (map (\<lambda>l. tw_cells ws (fst l) @ snd l) ls')" if "set ls' \<subseteq> set ls" for ls'
    using that by (induction ls') (auto simp: tw_format.simps(2))
  with 0 show ?case by (simp add: widths_from_def)
next
  case (Suc n)
  show ?case
  proof (cases ls)
    case (Cons l ls')
    have col: "\<forall>l\<in>set ls. has_column ws l" using Suc by (auto simp: has_column_def)
    then have blk: "takeWhile (has_column ws) ls = ls" "dropWhile (has_column ws) ls = []" by (simp_all add: takeWhile_eq_all_conv)
    have "has_column ws l" using col Cons by simp
    then have "tw_format ws ls = tw_format (ws @ [block_width (length ws) ls]) ls"
      using tw_format.simps(2) [of ws l ls', folded Cons, unfolded blk Let_def] by simp
    also have "\<dots> = concat (map (\<lambda>l. tw_cells (ws @ [block_width (length ws) ls] @ widths_from (Suc (length ws)) k ls) (fst l) @ snd l) ls)"
      using Suc.hyps(1) [of "ws @ [block_width (length ws) ls]"] Suc.hyps(2) Suc.prems by simp
    also have "[block_width (length ws) ls] @ widths_from (Suc (length ws)) k ls = widths_from (length ws) k ls"
      using Suc.hyps(2) by (simp add: widths_from_def upt_conv_Cons)
    finally show ?thesis .
  qed simp
qed

lemma tw_cells_nth:
  "length ws < length cs \<Longrightarrow> tw_cells ws cs =
    concat (map (\<lambda>i. tc_text (cs ! i) @ (if i < length ws then replicate (nat (ws ! i - tc_width (cs ! i))) CHR '' '' else [])) [0..<length cs])"
proof (induction ws cs rule: tw_cells.induct)
  case (2 c cs)
  have "tw_cells [] cs = concat (map (\<lambda>i. tc_text (cs ! i)) [0..<length cs])"
    by (induction cs) (simp_all add: map_upt_Suc del: upt_Suc)
  then show ?case by (simp add: map_upt_Suc del: upt_Suc)
next
  case (3 wd ws c cs)
  then show ?case by (simp add: map_upt_Suc del: upt_Suc cong: if_cong)
qed simp

lemma block_width_cells:
  assumes "\<forall>row\<in>set rows. i < length row"
  shows "block_width i (map (\<lambda>row. (map cell_of row, nl)) rows) = int (column_width rows i)"
proof -
  have "fold (\<lambda>l wd. max wd (tc_width (fst l ! i) + 1)) (map (\<lambda>row. (map cell_of row, nl)) rows) (int n) =
      int (fold (\<lambda>row n. max n (Suc (rune_count (row ! i)))) rows n)" for n
    using assms
  proof (induction rows arbitrary: n)
    case (Cons row rows)
    have "max (int n) (1 + int (rune_count (row ! i))) = int (max n (Suc (rune_count (row ! i))))" by simp
    with Cons show ?case by (simp add: cell_of_def add.commute)
  qed simp
  from this [of 0] show ?thesis by (simp add: block_width_def column_width_def)
qed


lemma tw_format_skip:
  assumes "\<not> has_column [] z"
  shows "tw_format [] (ls @ [z]) = tw_format [] ls @ tw_cells [] (fst z) @ snd z"
proof (induction "[] :: int list" ls rule: tw_format.induct)
  case (2 l ls)
  then show ?case
  proof (cases "has_column [] l")
    case True
    have split: "takeWhile (has_column []) ((l # ls) @ [z]) = takeWhile (has_column []) (l # ls)"
      "dropWhile (has_column []) ((l # ls) @ [z]) = dropWhile (has_column []) (l # ls) @ [z]"
      by (rule takeWhile_tail dropWhile_append3, rule assms)+
    show ?thesis
      using 2(2) [OF True refl] tw_format.simps(2) [of "[]" l "ls @ [z]", folded append_Cons, unfolded split Let_def]
        tw_format.simps(2) [of "[]" l ls, unfolded Let_def] True
      by (simp del: takeWhile.simps dropWhile.simps)
  qed (simp add: tw_format.simps(2))
qed (simp add: assms tw_format.simps(2))

lemma tw_flush_aligned:
  assumes "\<forall>row\<in>set rows. length row = Suc k"
  shows "tw_flush (at_cell (map (map cell_of) rows) []) = aligned rows"
proof -
  let ?ls = "map (\<lambda>row. (map cell_of row, [CHR 0x0A])) rows"
  have "tw_flush (at_cell (map (map cell_of) rows) []) = tw_format [] (?ls @ [([], [])])"
    by (simp add: tw_flush_def at_cell_def NewWriter_def comp_def)
  also have "\<dots> = tw_format [] ?ls" by (simp add: tw_format_skip has_column_def)
  also have "\<dots> = concat (map (\<lambda>l. tw_cells (widths_from 0 k ?ls) (fst l) @ snd l) ?ls)"
    using tw_format_even [of ?ls k "[]"] assms by simp
  also have "widths_from 0 k ?ls = map (\<lambda>i. int (column_width rows i)) [0..<k]"
    using assms by (simp add: widths_from_def block_width_cells)
  also have "concat (map (\<lambda>l. tw_cells (map (\<lambda>i. int (column_width rows i)) [0..<k]) (fst l) @ snd l) ?ls) = aligned rows"
  proof -
    have "tw_cells (map (\<lambda>i. int (column_width rows i)) [0..<k]) (map cell_of row) @ [CHR 0x0A] = aligned_row rows row"
      if "row \<in> set rows" for row
    proof -
      have l: "length row = Suc k" using assms that by simp
      let ?ws = "map (\<lambda>i. int (column_width rows i)) [0..<k]"
      have cells: "map (\<lambda>i. tc_text (map cell_of row ! i) @
            (if i < length ?ws then replicate (nat (?ws ! i - tc_width (map cell_of row ! i))) CHR '' '' else [])) [0..<length (map cell_of row)] =
          map (\<lambda>i. if Suc i < length row then pad (column_width rows i) (row ! i) else row ! i) [0..<length row]"
        using l by (intro map_cong) (auto simp: cell_of_def pad_def nat_diff_distrib')
      have "length ?ws < length (map cell_of row)" using l by simp
      then show ?thesis unfolding aligned_row_def by (simp only: tw_cells_nth cells)
    qed
    then show ?thesis by (simp add: aligned_def comp_def cong: map_cong)
  qed
  finally show ?thesis .
qed

section \<open>The table of bpm list\<close>

lemma plain_Itoa: "0 \<le> i \<Longrightarrow> plain (strconv_Itoa i)"
proof -
  have "is_digit ch \<Longrightarrow> ch \<notin> {CHR 0x09, CHR 0x0A, CHR 0x0B, CHR 0x0C, CHR 0xFF}" for ch by (auto simp: is_digit_def)
  then show "0 \<le> i \<Longrightarrow> plain (strconv_Itoa i)"
    using nat_digits_all_digits [of "nat i"] by (auto simp: plain_def strconv_Itoa_def list_all_iff)
qed

lemma printRow_plain:
  "list_all plain row \<Longrightarrow> 1 < length row \<Longrightarrow>
    printRow (at_cell (map (map cell_of) rows) []) row w = (Ok (at_cell (map (map cell_of) (rows @ [row])) []), w)"
  using tw_Write_row [of row "[]" "map (map cell_of) rows"] by (cases row) (simp_all add: printRow_def thenM_def returnM_def)

lemma print_processes_plain:
  assumes "map process_row ps = map Ok rows" and "\<forall>row\<in>set rows. list_all plain row \<and> length row = 3"
  shows "print_processes (at_cell (map (map cell_of) before) []) ps w = (Ok (at_cell (map (map cell_of) (before @ rows)) []), w)"
  using assms
proof (induction ps arbitrary: rows before)
  case (Cons p ps)
  then obtain row rows' where rows: "rows = row # rows'" "process_row p = Ok row" "map process_row ps = map Ok rows'" by (cases rows) auto
  have "printRow (at_cell (map (map cell_of) before) []) row w = (Ok (at_cell (map (map cell_of) (before @ [row])) []), w)"
    using Cons.prems(2) rows(1) by (intro printRow_plain) simp_all
  with Cons.IH [of rows' "before @ [row]"] Cons.prems(2) rows show ?case by (simp add: bindM_def liftM_def)
qed (simp add: returnM_def)

lemma process_row_plain:
  assumes "Decode (P_Name p) = Ok name" and "plain name" and "plain (P_Status p)"
  obtains row where "process_row p = Ok row" and "list_all plain row" and "length row = 3"
proof -
  have "plain (if Pid p > 0 then strconv_Itoa (Pid p) else ''-'')" by (auto simp: plain_Itoa) (simp add: plain_def)
  with assms that [of "[name, if Pid p > 0 then strconv_Itoa (Pid p) else ''-'', P_Status p]"] show thesis
    by (simp add: process_row_def bind_res_def)
qed

text \<open>C35: the table that \<open>bpm list\<close> prints. When no name and no status has a tab, a line end or an escape byte, the tab
  writer's buffering and blocks amount to the plain layout: \<open>PrintJobs\<close> writes once, a header and one row for each
  process, in their order, every column but the last padded to one blank more than its widest cell, counted
  in runes; and it returns the error of that write.\<close>

theorem table_aligned:
  assumes "\<forall>p\<in>set ps. \<exists>name. Decode (P_Name p) = Ok name \<and> plain name \<and> plain (P_Status p)"
  shows "\<exists>rows. map process_row ps = map Ok rows \<and>
    (let c = Print StdOut (aligned ([''Name'', ''Pid'', ''Status''] # rows))
     in PrintJobs ps w = (res_of (r_err (env w) (calls w) c), record_call c w))"
proof -
  let ?h = "[''Name'', ''Pid'', ''Status'']"
  obtain rows where rows: "map process_row ps = map Ok rows" "\<forall>row\<in>set rows. list_all plain row \<and> length row = 3"
    using assms
  proof (induction ps arbitrary: thesis)
    case (Cons p ps)
    obtain rows where "map process_row ps = map Ok rows" "\<forall>row\<in>set rows. list_all plain row \<and> length row = 3"
      using Cons.IH Cons.prems(2) by auto
    moreover obtain row where "process_row p = Ok row" "list_all plain row" "length row = 3"
      using Cons.prems(2) process_row_plain [of p] by auto
    ultimately show ?case by (intro Cons.prems(1) [of "row # rows"]) auto
  qed simp
  have new: "NewWriter = at_cell (map (map cell_of) []) []" by (simp add: at_cell_def NewWriter_def)
  have "printRow NewWriter ?h w = (Ok (at_cell (map (map cell_of) [?h]) []), w)"
    unfolding new by (subst printRow_plain) (simp_all add: plain_def)
  moreover have "print_processes (at_cell (map (map cell_of) [?h]) []) ps w = (Ok (at_cell (map (map cell_of) (?h # rows)) []), w)"
    using print_processes_plain [OF rows, of "[?h]"] by simp
  moreover have "tw_flush (at_cell (map (map cell_of) (?h # rows)) []) = aligned (?h # rows)"
    using rows(2) by (intro tw_flush_aligned [where k = 2]) simp
  ultimately have "PrintJobs ps w = sys_err (Print StdOut (aligned (?h # rows))) w"
    unfolding PrintJobs_def by (simp only: bindM_Ok)
  with rows(1) show ?thesis by (auto simp: sys_err_def Let_def)
qed

theorem table_aligned_witness:
  "PrintJobs [\<lparr>P_Name = ''bpm-web'', Pid = 7, P_Status = ''running''\<rparr>] calm_world =
     (Ok (), record_call (Print StdOut (''Name Pid Status'' @ [CHR 0x0A] @ ''web  7   running'' @ [CHR 0x0A])) calm_world)"
proof -
  let ?p = "\<lparr>P_Name = ''bpm-web'', Pid = 7, P_Status = ''running''\<rparr>"
  have d: "Decode ''bpm-web'' = Ok ''web''" "strconv_Itoa 7 = ''7''" by code_simp+
  then have row: "process_row ?p = Ok [''web'', ''7'', ''running'']" by (simp add: process_row_def bind_res_def)
  have "aligned [[''Name'', ''Pid'', ''Status''], [''web'', ''7'', ''running'']] =
      ''Name Pid Status'' @ [CHR 0x0A] @ ''web  7   running'' @ [CHR 0x0A]"
    by code_simp
  with table_aligned [of "[?p]" calm_world] d row show ?thesis
    by (auto simp: plain_def Let_def calm_world_def calm_env_def res_of_def)
qed

end
