(* ===== verification/Inspect.thy ===== *)
theory Inspect
  imports Commands Table
begin

text \<open>
  The commands that only look (\<open>pid.go\<close>, \<open>shell.go\<close>, \<open>trace.go\<close>, \<open>logs.go\<close>, \<open>list.go\<close>, \<open>version.go\<close> of
  \<open>src/bpm/commands\<close>). The loops that forward signals to
  a child take fuel, one unit per received event. Usage texts, which cobra renders, are a parameter.
\<close>

section \<open>pid.go, shell.go\<close>

definition not_running :: go_error where
  "not_running = Errorf ''process is not running or could not be found'' []"

text \<open>The lookup that \<open>pid\<close>, \<open>shell\<close> and \<open>trace\<close> begin with.\<close>

definition running_process :: "RuncLifecycle \<Rightarrow> bpm_config \<Rightarrow> Process io" where
  "running_process runcLifecycle cfg =
     bindM (attemptM (StatProcess runcLifecycle cfg)) (\<lambda>r.
       case r of
         Inl err \<Rightarrow> if \<not> lifecycle_IsNotExist err then throwM (Errorf ''failed to get job: %s'' [AErr err]) else throwM not_running
       | Inr process \<Rightarrow> if P_Status process = ProcessStateFailed then throwM not_running else returnM process)"

definition pidForJob :: "externals \<Rightarrow> bosh_env \<Rightarrow> Handle \<Rightarrow> bpm_config \<Rightarrow> unit io" where
  "pidForJob x be locks cfg =
     bindM (newRuncLifecycle x be locks) (\<lambda>runcLifecycle.
     bindM (running_process runcLifecycle cfg) (\<lambda>process.
     sys_do (Print StdOut (strconv_Itoa (Pid process) @ [CHR 0x0A]))))"

definition shell :: "externals \<Rightarrow> bosh_env \<Rightarrow> Handle \<Rightarrow> bpm_config \<Rightarrow> unit io" where
  "shell x be locks cfg =
     bindM (newRuncLifecycle x be locks) (\<lambda>runcLifecycle.
     bindM (running_process runcLifecycle cfg) (\<lambda>process.
     OpenShell runcLifecycle cfg [StdIn] [StdOut] [StdErr]))"

section \<open>trace.go\<close>

text \<open>The loop that \<open>trace\<close> and \<open>logs\<close> both end in: signals are passed on to the child until it ends.\<close>

fun forward_loop :: "(cmd_result \<Rightarrow> unit io) \<Rightarrow> nat \<Rightarrow> unit io" where
  "forward_loop fin 0 = abortM NoFuel"
| "forward_loop fin (Suc fuel) =
     bindM (sys_event Select) (\<lambda>ev.
       case ev of
         ChildDone r \<Rightarrow> fin r
       | GotSignal sig \<Rightarrow> thenM (ignoreM (sys_err (SignalCmd sig))) (forward_loop fin fuel)
       | _ \<Rightarrow> forward_loop fin fuel)"

text \<open>A child killed by a signal, whose exit code is -1, is no error.\<close>

fun trace_ended :: "cmd_result \<Rightarrow> unit io" where
  "trace_ended (CmdFailed (Some code) err) = (if code = -1 then returnM () else throwM err)"
| "trace_ended r = liftM (res_of (cmd_err r))"

definition trace_loop :: "nat \<Rightarrow> unit io" where
  "trace_loop = forward_loop trace_ended"

definition trace :: "nat \<Rightarrow> externals \<Rightarrow> bosh_env \<Rightarrow> Handle \<Rightarrow> bpm_config \<Rightarrow> unit io" where
  "trace fuel x be locks cfg =
     bindM (newRuncLifecycle x be locks) (\<lambda>runcLifecycle.
     bindM (running_process runcLifecycle cfg) (\<lambda>process.
     let straceCmd = (exec_Command ''strace'' [''-s'', ''100'', ''-f'', ''-y'', ''-yy'', ''-p'', strconv_Itoa (Pid process)])
           \<lparr>cmd_stdin := [StdIn], cmd_stdout := [StdOut], cmd_stderr := [StdErr]\<rparr>
     in thenM (sys_err (StartCmd straceCmd)) (trace_loop fuel)))"

section \<open>logs.go\<close>

record log_flags =
  errLogs :: bool
  allLogs :: bool
  follow :: bool
  quiet :: bool
  numLines :: int

definition shouldTailStdout :: "log_flags \<Rightarrow> bool" where
  "shouldTailStdout fl \<longleftrightarrow> \<not> errLogs fl \<or> allLogs fl"

definition shouldTailStderr :: "log_flags \<Rightarrow> bool" where
  "shouldTailStderr fl \<longleftrightarrow> errLogs fl \<or> allLogs fl"

fun logsDontExist :: "string list \<Rightarrow> bool io" where
  "logsDontExist [] = returnM False"
| "logsDontExist (f # fs) =
     bindM (attemptM (sys_stat (Stat f))) (\<lambda>r.
       case r of
         Inl err \<Rightarrow> if os_IsNotExist err then returnM True else logsDontExist fs
       | Inr _ \<Rightarrow> logsDontExist fs)"

text \<open>The text of the error that waiting for a child gives.\<close>

fun wait_message :: "go_error \<Rightarrow> string" where
  "wait_message (OsErr _ m) = m"
| "wait_message _ = []"

definition logs_ended :: "cmd_result \<Rightarrow> unit io" where
  "logs_ended r =
     (case cmd_err r of
        Some err \<Rightarrow> if wait_message err \<noteq> ''signal: interrupt'' then throwM err else sys_do (Print StdOut [CHR 0x0A])
      | None \<Rightarrow> sys_do (Print StdOut [CHR 0x0A]))"

definition logs_loop :: "nat \<Rightarrow> unit io" where
  "logs_loop = forward_loop logs_ended"

definition logsForJob :: "nat \<Rightarrow> log_flags \<Rightarrow> bpm_config \<Rightarrow> unit io" where
  "logsForJob fuel fl cfg =
     (let filesToTail = (if shouldTailStdout fl then [Path_External (cfg_Stdout cfg)] else []) @
            (if shouldTailStderr fl then [Path_External (cfg_Stderr cfg)] else []);
          tailArgs = (if follow fl then [''-f''] else []) @ (if quiet fl then [''-q''] else []) @
            [''-n '' @ strconv_Itoa (numLines fl)] @ filesToTail;
          tailCmd = (exec_Command ''tail'' tailArgs)\<lparr>cmd_stdout := [StdOut], cmd_stderr := [StdErr]\<rparr>
      in bindM (logsDontExist filesToTail) (\<lambda>missing.
         if missing then throwM (Errorf ''logs not found'' [])
         else thenM (sys_err (StartCmd tailCmd)) (logs_loop fuel)))"

section \<open>list.go\<close>

fun stopped_rows :: "bosh_env \<Rightarrow> string \<Rightarrow> ProcessConfig option list \<Rightarrow> Process list res" where
  "stopped_rows be job [] = Ok []"
| "stopped_rows be job (None # ps) = Abort (Panic ''nil pointer dereference'')"
| "stopped_rows be job (Some p # ps) =
     bind_res (stopped_rows be job ps) (\<lambda>rows.
     Ok (\<lparr>P_Name = cfg_ContainerID (NewBPMConfig be job (Name p)), Pid = 0, P_Status = ProcessStateStopped\<rparr> # rows))"

fun configured_processes :: "externals \<Rightarrow> bosh_env \<Rightarrow> string list \<Rightarrow> Process list io" where
  "configured_processes x be [] = returnM []"
| "configured_processes x be (job # jobs) =
     bindM (attemptM (cfg_ParseJobConfig (x_yaml x) (NewBPMConfig be job []))) (\<lambda>r.
       case r of
         Inl err \<Rightarrow>
           if os_IsNotExist err then configured_processes x be jobs
           else thenM (sys_do (Fprintf StdErr ''invalid config for %s: %s'' [AStr job, AErr err])) (configured_processes x be jobs)
       | Inr jobCfg \<Rightarrow>
           bindM (liftM (stopped_rows be job (Processes jobCfg))) (\<lambda>rows.
           bindM (configured_processes x be jobs) (\<lambda>rest. returnM (rows @ rest))))"

fun replace_process :: "Process list \<Rightarrow> Process \<Rightarrow> Process list option" where
  "replace_process [] process = None"
| "replace_process (p # ps) process =
     (if P_Name p = P_Name process then Some (process # ps)
      else (case replace_process ps process of None \<Rightarrow> None | Some ps' \<Rightarrow> Some (p # ps')))"

text \<open>A container that no configuration defines leaves the list as it is, with an error that names it.\<close>

definition updateProcess :: "Process list \<Rightarrow> Process \<Rightarrow> (Process list \<times> go_error option) res" where
  "updateProcess processes process =
     (case replace_process processes process of
        Some processes' \<Rightarrow> Ok (processes', None)
      | None \<Rightarrow> (case Decode (P_Name process) of
            Ok decodedName \<Rightarrow> Ok (processes, Some (Errorf ''process (%s) not defined'' [AStr decodedName]))
          | Err err \<Rightarrow> Ok (processes, Some err)
          | Abort x \<Rightarrow> Abort x))"

fun merge_running :: "Process list \<Rightarrow> Process list \<Rightarrow> Process list io" where
  "merge_running processes [] = returnM processes"
| "merge_running processes (process # running) =
     bindM (liftM (updateProcess processes process)) (\<lambda>(processes', err).
     thenM (case err of None \<Rightarrow> returnM () | Some e \<Rightarrow> sys_do (Fprintf StdErr ''extra process running: %s'' [AErr e]))
       (merge_running processes' running))"

definition listContainers :: "externals \<Rightarrow> bosh_env \<Rightarrow> Handle \<Rightarrow> unit io" where
  "listContainers x be locks =
     bindM (Env_JobNames be) (\<lambda>jobs.
     bindM (configured_processes x be jobs) (\<lambda>processes.
     bindM (newRuncLifecycle x be locks) (\<lambda>runcLifecycle.
     bindM (attemptM (ListProcesses runcLifecycle)) (\<lambda>r.
       case r of
         Inl err \<Rightarrow> thenM (sys_do (Fprintf StdErr (''failed to list jobs: %s'' @ [CHR 0x0A]) [AErr err])) (throwM err)
       | Inr runningProcesses \<Rightarrow>
           bindM (merge_running processes runningProcesses) (\<lambda>all.
           bindM (attemptM (PrintJobs all)) (\<lambda>r'.
             case r' of
               Inl err \<Rightarrow> thenM (sys_do (Fprintf StdErr (''failed to display jobs: %s'' @ [CHR 0x0A]) [AErr err])) (throwM err)
             | Inr _ \<Rightarrow> returnM ()))))))"

section \<open>version.go\<close>

definition version :: "string \<Rightarrow> string \<Rightarrow> string list \<Rightarrow> unit io" where
  "version usage Vers args =
     (if args \<noteq> [] then thenM (sys_do (Print StdErr usage)) (abortM (Exit 1))
      else sys_do (Print StdOut ((if Vers = [] then ''[DEV BUILD]'' else Vers) @ [CHR 0x0A])))"

section \<open>Listing\<close>

lemma replace_process_Some:
  "replace_process ps q = Some ps' \<Longrightarrow>
    map P_Name ps' = map P_Name ps \<and> set ps' \<subseteq> insert q (set ps) \<and> q \<in> set ps'"
  by (induction ps arbitrary: ps') (auto split: if_splits option.splits)

lemma replace_process_None: "replace_process ps q = None \<longleftrightarrow> P_Name q \<notin> P_Name ` set ps"
  by (induction ps) (auto split: option.splits)

lemma updateProcess_Ok:
  assumes "updateProcess ps q = Ok (ps', err)"
  shows "map P_Name ps' = map P_Name ps" and "set ps' \<subseteq> insert q (set ps)"
    and "err = None \<longleftrightarrow> P_Name q \<in> P_Name ` set ps" and "err = None \<Longrightarrow> q \<in> set ps'" and "err \<noteq> None \<Longrightarrow> ps' = ps"
  using assms replace_process_Some [of ps q ps'] replace_process_None [of ps q]
  by (auto simp: updateProcess_def split: option.splits res.splits)

lemma replace_keeps:
  "replace_process ps q = Some ps' \<Longrightarrow> p \<in> set ps \<Longrightarrow> P_Name p \<noteq> P_Name q \<Longrightarrow> p \<in> set ps'"
  by (induction ps arbitrary: ps') (auto split: if_splits option.splits)

lemma updateProcess_keeps:
  "updateProcess ps q = Ok (ps', err) \<Longrightarrow> p \<in> set ps \<Longrightarrow> P_Name p \<noteq> P_Name q \<Longrightarrow> p \<in> set ps'"
  by (auto simp: updateProcess_def dest: replace_keeps split: option.splits res.splits)

lemma merge_running_step:
  assumes "merge_running ps (q # qs) w = (Ok rs, w')"
  obtains ps' err w1 where "updateProcess ps q = Ok (ps', err)" and "merge_running ps' qs w1 = (Ok rs, w')"
  using assms by (auto simp: bindM_eq_Ok thenM_eq_Ok liftM_def)

lemma merge_running_kept:
  "merge_running ps qs w = (Ok rs, w') \<Longrightarrow> p \<in> set ps \<Longrightarrow> P_Name p \<notin> P_Name ` set qs \<Longrightarrow> p \<in> set rs"
proof (induction qs arbitrary: ps w)
  case (Cons q qs)
  from merge_running_step [OF Cons.prems(1)] obtain ps' err w1 where
    u: "updateProcess ps q = Ok (ps', err)" and m: "merge_running ps' qs w1 = (Ok rs, w')" .
  have "p \<in> set ps'" using updateProcess_keeps [OF u] Cons.prems(2,3) by auto
  with Cons.IH [OF m] Cons.prems(3) show ?case by simp
qed (simp add: returnM_def)

lemma merge_running_names:
  "merge_running ps qs w = (Ok rs, w') \<Longrightarrow> map P_Name rs = map P_Name ps \<and> set rs \<subseteq> set ps \<union> set qs"
proof (induction qs arbitrary: ps w)
  case (Cons q qs)
  from merge_running_step [OF Cons.prems] obtain ps' err w1 where
    u: "updateProcess ps q = Ok (ps', err)" and m: "merge_running ps' qs w1 = (Ok rs, w')" .
  from Cons.IH [OF m] updateProcess_Ok(1,2) [OF u] show ?case by auto
qed (simp add: returnM_def)

text \<open>C36: the rows of \<open>bpm list\<close> are the configured processes, in their order and no others, and a
  process that has a container is shown with the container's state: when the containers that runc lists have
  different names, every listed container of a configured process has its row, and every other row is the
  configured one.\<close>

theorem list_rows:
  assumes "merge_running configured running w = (Ok rows, w')" and "distinct (map P_Name running)"
  shows "map P_Name rows = map P_Name configured \<and>
    (\<forall>q\<in>set running. P_Name q \<in> P_Name ` set configured \<longrightarrow> q \<in> set rows) \<and>
    (\<forall>p\<in>set configured. P_Name p \<notin> P_Name ` set running \<longrightarrow> p \<in> set rows) \<and>
    set rows \<subseteq> set configured \<union> set running"
proof -
  have "q \<in> set rows" if "q \<in> set running" "P_Name q \<in> P_Name ` set configured" for q
    using assms that
  proof (induction running arbitrary: configured w)
    case (Cons x xs)
    from merge_running_step [OF Cons.prems(1)] obtain ps' err w1 where
      u: "updateProcess configured x = Ok (ps', err)" and m: "merge_running ps' xs w1 = (Ok rows, w')" .
    have names: "P_Name ` set ps' = P_Name ` set configured"
      using updateProcess_Ok(1) [OF u] by (metis set_map)
    show ?case
    proof (cases "q = x")
      case True
      then have "q \<in> set ps'" using updateProcess_Ok(3,4) [OF u] Cons.prems(4) by simp
      moreover have "P_Name q \<notin> P_Name ` set xs" using Cons.prems(2) True by simp
      ultimately show ?thesis by (rule merge_running_kept [OF m])
    next
      case False
      then show ?thesis using Cons.IH [OF m] Cons.prems names by auto
    qed
  qed simp
  with merge_running_names [OF assms(1)] merge_running_kept [OF assms(1)] show ?thesis by blast
qed

theorem list_rows_witness:
  "let p = (\<lambda>n s. \<lparr>P_Name = n, Pid = 7, P_Status = s\<rparr>) in
     \<lparr>P_Name = ''bpm-b'', Pid = 7, P_Status = ''running''\<rparr> \<in>
       (case fst (merge_running [p ''bpm-a'' ''stopped'', p ''bpm-b'' ''stopped''] [p ''bpm-b'' ''running''] calm_world) of Ok rows \<Rightarrow> set rows | _ \<Rightarrow> {})"
proof -
  let ?p = "\<lambda>n s. \<lparr>P_Name = n, Pid = 7, P_Status = s\<rparr>"
  have m: "merge_running [?p ''bpm-a'' ''stopped'', ?p ''bpm-b'' ''stopped''] [?p ''bpm-b'' ''running''] calm_world =
      (Ok [?p ''bpm-a'' ''stopped'', ?p ''bpm-b'' ''running''], calm_world)"
    by (simp add: updateProcess_def io_simps)
  from list_rows [OF m] show ?thesis by (simp add: m Let_def del: merge_running.simps)
qed

section \<open>Commands that only look\<close>

lemma emits_stopped [emits_intros]: "emits observes (configured_processes x be jobs)"
proof (induction jobs)
  case (Cons job jobs)
  show ?case
    unfolding configured_processes.simps cfg_ParseJobConfig_def ParseJobConfig_def
    by (intro emits_intros Cons.IH) simp_all
qed (simp add: emits_intros)

lemma emits_merge_running [emits_intros]: "emits observes (merge_running ps qs)"
proof (induction qs arbitrary: ps)
  case (Cons q qs)
  show ?case unfolding merge_running.simps by (intro emits_intros Cons.IH) simp_all
qed (simp add: emits_intros)

lemma emits_observing_lifecycle:
  assumes "\<And>client f. emits observes (k (lifecycle_of (x_json x) (x_ord x) (x_toBytes x) client
      (program_adapter (x_sha256 x) f locks (Some cgroupsPathForContainer))))"
  shows "emits observes (bindM (newRuncLifecycle x be locks) k)"
  by (rule emits_bindM_result [OF emits_newRuncLifecycle]) (metis newRuncLifecycle_Ok assms)

lemma emits_PrintJobs [emits_intros]: "emits observes (PrintJobs ps)"
proof -
  have row: "emits observes (printRow tw args)" for tw args
    unfolding printRow_def Let_def split_def by (intro emits_intros) simp
  have "emits observes (print_processes tw ps)" for tw
  proof (induction ps arbitrary: tw)
    case (Cons p ps)
    then show ?case unfolding print_processes.simps by (intro emits_intros row)
  qed (simp add: emits_intros)
  then show ?thesis unfolding PrintJobs_def by (intro emits_intros row) simp_all
qed

lemma emits_ListProcesses [emits_intros]: "emits observes (ListProcesses (lifecycle_of json ord toBytes client a))"
  unfolding ListProcesses_def lifecycle_of_sel runc_ops_sel ListContainers_def by (intro emits_intros) simp_all

lemma emits_inspecting: "emits observes (pidForJob x be locks cfg)" "emits observes (listContainers x be locks)"
proof -
  show "emits observes (pidForJob x be locks cfg)"
    unfolding pidForJob_def running_process_def
    by (intro emits_observing_lifecycle; (intro emits_intros)?; simp?)
  show "emits observes (listContainers x be locks)"
    unfolding listContainers_def Env_JobNames_def
    by (intro emits_bindM emits_observing_lifecycle emits_stopped; (intro emits_intros)?; simp?)
qed

text \<open>What all of these commands do: look, start a child that looks (\<open>strace\<close>, \<open>tail\<close>) and pass signals on to it, or run a shell in the
  container.\<close>

definition looks :: "call \<Rightarrow> bool" where
  "looks x \<longleftrightarrow>
     observes x \<or>
     (case x of
        StartCmd _ \<Rightarrow> True | SignalCmd _ \<Rightarrow> True | Select \<Rightarrow> True
      | RunCmd k \<Rightarrow> \<exists>client args. cmd_args k = cmd_args (buildCmd client ''exec'' args)
      | _ \<Rightarrow> False)"

lemma looks_sys [simp]: "looks (StartCmd k)" "looks (SignalCmd n)" "looks Select" "observes x \<Longrightarrow> looks x"
  by (simp_all add: looks_def)

text \<open>The children they start, to the letter: a shell in the container, \<open>strace\<close> on a process id, and \<open>tail\<close> on
  log files of the process. Besides, they wait for the child and pass signals on.\<close>

definition opens_shell :: "bosh_env \<Rightarrow> bpm_config \<Rightarrow> call \<Rightarrow> bool" where
  "opens_shell be c x \<longleftrightarrow>
     (\<exists>sd term. x = RunCmd ((buildCmd (NewRuncClient (RuncPath be) (RuncRoot be) sd) ''exec''
          [''--tty'', ''--env'', ''TERM='' @ term, cfg_ContainerID c, ''/bin/bash''])
        \<lparr>cmd_stdin := [StdIn], cmd_stdout := [StdOut], cmd_stderr := [StdErr]\<rparr>))"

definition straces :: "call \<Rightarrow> bool" where
  "straces x \<longleftrightarrow>
     (\<exists>pid. x = StartCmd ((exec_Command ''strace'' [''-s'', ''100'', ''-f'', ''-y'', ''-yy'', ''-p'', strconv_Itoa pid])
        \<lparr>cmd_stdin := [StdIn], cmd_stdout := [StdOut], cmd_stderr := [StdErr]\<rparr>))"

definition tails :: "bpm_config \<Rightarrow> call \<Rightarrow> bool" where
  "tails c x \<longleftrightarrow>
     (\<exists>flags n files. set flags \<subseteq> {''-f'', ''-q''} \<and>
        set files \<subseteq> {Path_External (cfg_Stdout c), Path_External (cfg_Stderr c)} \<and>
        x = StartCmd ((exec_Command ''tail'' (flags @ [''-n '' @ strconv_Itoa n] @ files))
          \<lparr>cmd_stdout := [StdOut], cmd_stderr := [StdErr]\<rparr>))"

definition minds_child :: "call \<Rightarrow> bool" where
  "minds_child x \<longleftrightarrow> observes x \<or> x = Select \<or> (\<exists>sig. x = SignalCmd sig)"

lemma minds_child_sys [simp]: "minds_child Select" "minds_child (SignalCmd sig)" "observes x \<Longrightarrow> minds_child x"
  by (simp_all add: minds_child_def)

lemma children_look:
  "minds_child x \<Longrightarrow> looks x" "straces x \<Longrightarrow> looks x" "tails c x \<Longrightarrow> looks x" "opens_shell be c x \<Longrightarrow> looks x"
proof -
  show "opens_shell be c x \<Longrightarrow> looks x" unfolding opens_shell_def looks_def by fastforce
qed (auto simp: minds_child_def straces_def tails_def looks_def)

lemma emits_forward_loop: "(\<And>r. emits minds_child (fin r)) \<Longrightarrow> emits minds_child (forward_loop fin fuel)"
proof (induction fuel)
  case (Suc fuel)
  then show ?case unfolding forward_loop.simps by (auto intro!: emits_intros split: event.split)
qed (simp add: emits_intros)

lemma emits_reading_lifecycle:
  assumes "\<And>y. observes y \<Longrightarrow> P y" and "\<And>sd f. emits P (k (program_lifecycle x be locks sd f))"
  shows "emits P (bindM (newRuncLifecycle x be locks) k)"
proof (rule emits_bindM_result)
  show "emits P (newRuncLifecycle x be locks)" by (rule emits_mono [OF emits_newRuncLifecycle assms(1)])
  show "emits P (k lc)" if "newRuncLifecycle x be locks w = (Ok lc, w')" for w lc w'
    using newRuncLifecycle_Ok [OF that] assms(2) by metis
qed

lemma emits_running_process: "emits observes (running_process (lifecycle_of json ord toBytes client a) c)"
  unfolding running_process_def by (intro emits_intros)

lemma emits_shell: "emits (\<lambda>y. observes y \<or> opens_shell be c y) (shell x be locks c)"
proof -
  have "emits (\<lambda>y. observes y \<or> opens_shell be c y)
      (OpenShell (program_lifecycle x be locks sd f) c [StdIn] [StdOut] [StdErr])" for sd f
    unfolding OpenShell_def lifecycle_of_sel runc_ops_sel Exec_def by (intro emits_intros) (auto simp: opens_shell_def)
  then show ?thesis
    unfolding shell_def
    by (intro emits_reading_lifecycle emits_bindM emits_mono [OF emits_running_process]) simp_all
qed

lemma emits_trace_command: "emits (\<lambda>y. minds_child y \<or> straces y) (trace fuel x be locks c)"
proof -
  have "emits minds_child (trace_ended r)" for r
    by (cases r rule: trace_ended.cases) (simp_all add: emits_intros)
  then have "emits minds_child (trace_loop fuel)" unfolding trace_loop_def by (rule emits_forward_loop)
  then have "emits (\<lambda>y. minds_child y \<or> straces y) (trace_loop fuel)" by (rule emits_mono) simp
  then show ?thesis
    unfolding trace_def Let_def
    by (intro emits_reading_lifecycle emits_bindM emits_mono [OF emits_running_process] emits_thenM emits_sys)
      (auto simp: straces_def)
qed

lemma emits_logs: "emits (\<lambda>y. minds_child y \<or> tails c y) (logsForJob fuel fl c)"
proof -
  let ?P = "\<lambda>y. minds_child y \<or> tails c y"
  have "emits minds_child (logs_ended r)" for r unfolding logs_ended_def by (intro emits_intros) simp_all
  then have "emits minds_child (logs_loop fuel)" unfolding logs_loop_def by (rule emits_forward_loop)
  then have "emits ?P (logs_loop fuel)" by (rule emits_mono) simp
  moreover have "emits ?P (logsDontExist fs)" for fs by (induction fs) (auto intro!: emits_intros)
  moreover have t: "tails c (StartCmd ((exec_Command ''tail'' ((if follow fl then [''-f''] else []) @ (if quiet fl then [''-q''] else []) @
      [''-n '' @ strconv_Itoa (numLines fl)] @ (if shouldTailStdout fl then [Path_External (cfg_Stdout c)] else []) @
      (if shouldTailStderr fl then [Path_External (cfg_Stderr c)] else [])))\<lparr>cmd_stdout := [StdOut], cmd_stderr := [StdErr]\<rparr>))"
    unfolding tails_def
    by (rule exI [of _ "(if follow fl then [''-f''] else []) @ (if quiet fl then [''-q''] else [])"], rule exI [of _ "numLines fl"],
        rule exI [of _ "(if shouldTailStdout fl then [Path_External (cfg_Stdout c)] else []) @
          (if shouldTailStderr fl then [Path_External (cfg_Stderr c)] else [])"]) auto
  ultimately show ?thesis
    unfolding logsForJob_def Let_def by (intro emits_bindM emits_if emits_throwM emits_thenM emits_sys disjI2 [OF t])
qed

lemma emits_looking:
  "emits looks (pidForJob x be locks c)" "emits looks (shell x be locks c)" "emits looks (trace fuel x be locks c)"
  "emits looks (logsForJob fuel fl c)" "emits looks (listContainers x be locks)" "emits looks (version u v args)"
proof -
  show "emits looks (pidForJob x be locks c)" "emits looks (listContainers x be locks)"
    by (rule emits_mono [OF emits_inspecting(1) looks_sys(4)] emits_mono [OF emits_inspecting(2) looks_sys(4)], assumption)+
  show "emits looks (shell x be locks c)" by (rule emits_mono [OF emits_shell]) (auto dest: children_look)
  show "emits looks (trace fuel x be locks c)" by (rule emits_mono [OF emits_trace_command]) (auto dest: children_look)
  show "emits looks (logsForJob fuel fl c)" by (rule emits_mono [OF emits_logs]) (auto dest: children_look)
  show "emits looks (version u v args)" unfolding version_def by (intro emits_intros) simp_all
qed


end
