(* ===== verification/Program.thy ===== *)
theory Program
  imports Inspect
begin

text \<open>
  A whole invocation (\<open>src/bpm/exitstatus/error.go\<close> and the order in which a command's functions run): what a
  command with its flags and arguments does, with the program's global variables handed on as values. The order
  (persistent pre-run, pre-run, run, post-run, up to the first error) is cobra's. Theory \<open>Cli\<close> has the
  commands as cobra's table with the global variables as state, and shows that it does the same.
\<close>

section \<open>exitstatus\<close>

fun FromError :: "go_error option \<Rightarrow> int" where
  "FromError None = 0"
| "FromError (Some (ExitError status _)) = status"
| "FromError (Some _) = 1"

text \<open>
  What an error says. The model keeps errors unrendered; this renders them as \<open>fmt\<close> does the verbs of the sources, with the
  quoting of \<open>%q\<close> as a parameter. An argument is given plain and quoted.
\<close>

definition timeoutError :: string where "timeoutError = ''failed to stop job within timeout''"
definition isNotExistError :: string where "isNotExistError = ''process is not running or could not be found''"

definition exitstatus_Error :: "int \<Rightarrow> string \<Rightarrow> string" where
  "exitstatus_Error status err = err @ '' (exit status '' @ strconv_Itoa status @ '')''"

fun fmt_render :: "string \<Rightarrow> (string \<times> string) list \<Rightarrow> string" where
  "fmt_render [] args = []"
| "fmt_render [c] args = [c]"
| "fmt_render (c # verb # cs) args =
     (if c \<noteq> CHR ''%'' then c # fmt_render (verb # cs) args
      else (case args of
              [] \<Rightarrow> ''%!'' @ [verb] @ ''(MISSING)'' @ fmt_render cs []
            | (arg, quoted) # args' \<Rightarrow> (if verb = CHR ''q'' then quoted else arg) @ fmt_render cs args'))"

primrec error_text :: "(string \<Rightarrow> string) \<Rightarrow> go_error \<Rightarrow> string" and arg_text :: "(string \<Rightarrow> string) \<Rightarrow> fmt_arg \<Rightarrow> string \<times> string" where
  "error_text quote (OsErr _ msg) = msg"
| "error_text quote (Errorf fmt args) = fmt_render fmt (map (arg_text quote) args)"
| "error_text quote TimeoutError = timeoutError"
| "error_text quote IsNotExistError = isNotExistError"
| "error_text quote (ExitError status err) = exitstatus_Error status (error_text quote err)"
| "arg_text quote (AStr s) = (s, quote s)"
| "arg_text quote (AInt i) = (strconv_Itoa i, strconv_Itoa i)"
| "arg_text quote (AErr err) = (error_text quote err, quote (error_text quote err))"
| "arg_text quote (AWrap err) = (error_text quote err, quote (error_text quote err))"

text \<open>The text that a call writes, and where.\<close>

fun written :: "(string \<Rightarrow> string) \<Rightarrow> call \<Rightarrow> (stream \<times> string) option" where
  "written quote (Print out s) = Some (out, s)"
| "written quote (Fprintf out fmt args) = Some (out, fmt_render fmt (map (arg_text quote) args))"
| "written quote _ = None"

section \<open>Invocations\<close>

datatype subcommand =
    RootCommand
  | StartCommand
  | StopCommand
  | RunCommand "string list" "string list"
  | PidCommand
  | ShellCommand
  | TraceCommand
  | LogsCommand log_flags
  | ListCommand
  | VersionCommand

record invocation =
  i_command :: subcommand
  i_process :: string
  i_version :: bool
  i_args :: "string list"

text \<open>What the build and the surroundings fix: the libraries, the version string, the usage text of each
  command, the fuel of the loops.\<close>

record setting =
  s_externals :: externals
  s_version :: string
  s_usage :: "string \<Rightarrow> string"
  s_fuel :: nat

text \<open>\<open>rootPre\<close> with its version check.\<close>

definition persistentPre :: "setting \<Rightarrow> bosh_env \<Rightarrow> invocation \<Rightarrow> Handle io" where
  "persistentPre s be i =
     (if i_version i then thenM (version (s_usage s ''version'') (s_version s) []) (abortM (Exit 0)) else rootPre be)"

definition with_config :: "bosh_env \<Rightarrow> invocation \<Rightarrow> (bpm_config \<Rightarrow> unit io) \<Rightarrow> unit io" where
  "with_config be i act = bindM (liftM (validateInput be (i_process i) (i_args i))) (\<lambda>(cfg, procNm). act cfg)"

lemma emits_with_config: "(\<And>c. emits P (act c)) \<Longrightarrow> emits P (with_config be i act)"
  unfolding with_config_def by (intro emits_intros)

definition command_body :: "setting \<Rightarrow> bosh_env \<Rightarrow> invocation \<Rightarrow> Handle \<Rightarrow> unit io" where
  "command_body s be i locks =
     (let x = s_externals s in
      case i_command i of
        RootCommand \<Rightarrow> root_run
      | StartCommand \<Rightarrow> bindM (startPre be locks (i_process i) (i_args i)) (\<lambda>(cfg, procNm, lock).
          thenM (start x be locks cfg procNm) (startPost lock))
      | StopCommand \<Rightarrow> bindM (stopPre be locks (i_process i) (i_args i)) (\<lambda>(cfg, procNm, lock).
          thenM (stop (s_fuel s) x be locks cfg procNm) (stopPost lock))
      | RunCommand volumes envs \<Rightarrow> bindM (runPre be locks (i_process i) (i_args i)) (\<lambda>(cfg, procNm, lock).
          thenM (run x be locks volumes envs cfg procNm) (runPost lock))
      | PidCommand \<Rightarrow> with_config be i (pidForJob x be locks)
      | ShellCommand \<Rightarrow> with_config be i (shell x be locks)
      | TraceCommand \<Rightarrow> with_config be i (trace (s_fuel s) x be locks)
      | LogsCommand fl \<Rightarrow> with_config be i (logsForJob (s_fuel s) fl)
      | ListCommand \<Rightarrow> listContainers x be locks
      | VersionCommand \<Rightarrow> version (s_usage s ''version'') (s_version s) (i_args i))"

definition run_invocation :: "setting \<Rightarrow> bosh_env \<Rightarrow> invocation \<Rightarrow> unit io" where
  "run_invocation s be i = bindM (persistentPre s be i) (command_body s be i)"

section \<open>The lifecycle lock\<close>

text \<open>What start, stop and run do before they hold the lock: make the log directory, open bpm's log, open
  the lock file and ask for the lock. None of it touches a container.\<close>

definition prepares :: "call \<Rightarrow> bool" where
  "prepares x \<longleftrightarrow>
     (case x of MkdirAll _ _ \<Rightarrow> True | LookupUser _ \<Rightarrow> True | OpenFile _ _ _ \<Rightarrow> True | FChown _ _ _ \<Rightarrow> True
      | CloseFd _ \<Rightarrow> True | Flock _ _ \<Rightarrow> True | _ \<Rightarrow> False)"

lemma prepares_sys [simp]:
  "prepares (MkdirAll d m)" "prepares (LookupUser u)" "prepares (OpenFile p fs m)" "prepares (FChown f uid gid)"
  "prepares (CloseFd f)" "prepares (Flock f lo)"
  by (simp_all add: prepares_def)

lemma emits_setupBpmLogs: "emits prepares (setupBpmLogs cfg)"
  unfolding setupBpmLogs_def by (intro emits_intros) simp_all

lemma emits_lifecyclePre: "emits prepares (lifecyclePre be locks pf args)"
  unfolding lifecyclePre_def acquireLifecycleLock_def by (intro emits_intros emits_setupBpmLogs) simp_all

abbreviation lock_file :: "Handle \<Rightarrow> bpm_config \<Rightarrow> call" where
  "lock_file locks cfg \<equiv> OpenFile (job_lock_path locks (cfg_JobName cfg) (cfg_ProcName cfg)) [O_CREATE, O_RDWR] perm_0600"

abbreviation lock_calls :: "Handle \<Rightarrow> bpm_config \<Rightarrow> nat \<Rightarrow> call list" where
  "lock_calls locks cfg fd \<equiv>
     [lock_file locks cfg, Flock fd LOCK_EX]"

text \<open>The kernel granted the lock: it answered the opening of the lock file with the descriptor, and the
  request for the exclusive lock of that descriptor with success.\<close>

definition granted :: "environment \<Rightarrow> call list \<Rightarrow> call \<Rightarrow> nat \<Rightarrow> bool" where
  "granted e hist lockfile fd \<longleftrightarrow>
     r_fd e hist lockfile = Inr fd \<and> r_err e (hist @ [lockfile]) (Flock fd LOCK_EX) = None"

lemma lifecyclePre_Ok:
  assumes "lifecyclePre be locks pf args w = (Ok (cfg, nm, lock), w')"
  obtains pre where "validateInput be pf args = Ok (cfg, nm)" and "fl_locked lock"
    and "calls w' = calls w @ pre @ lock_calls locks cfg (fl_f lock)" and "list_all prepares pre"
    and "granted (env w) (calls w @ pre) (lock_file locks cfg) (fl_f lock)"
proof -
  from assms obtain w1 where v: "validateInput be pf args = Ok (cfg, nm)"
    and l: "setupBpmLogs cfg w = (Ok (), w1)" and a: "acquireLifecycleLock locks cfg w1 = (Ok lock, w')"
    by (auto simp: lifecyclePre_def bindM_eq_Ok thenM_eq_Ok liftM_def returnM_def)
  obtain pre where "calls w1 = calls w @ pre" "list_all prepares pre"
    using emits_trace [OF emits_setupBpmLogs l] by blast
  moreover have "env w1 = env w" using emits_env [OF emits_setupBpmLogs, of cfg w] l by simp
  ultimately show thesis
    using LockJob_Ok [OF a [unfolded acquireLifecycleLock_def]] v that by (simp add: granted_def)
qed

lemma release_Ok:
  "fl_locked lock \<Longrightarrow> releaseLifecycleLock lock w = (r, w') \<Longrightarrow> calls w' = calls w @ [Flock (fl_f lock) LOCK_UN]"
  by (auto simp: releaseLifecycleLock_def flock_Unlock_def io_simps split: res.splits)

text \<open>The outcome of a command that runs an action under the lock of its process.\<close>

definition locked_outcome :: "bosh_env \<Rightarrow> Handle \<Rightarrow> string \<Rightarrow> string list \<Rightarrow> world \<Rightarrow> unit res \<Rightarrow> world \<Rightarrow> bool" where
  "locked_outcome be locks pf args w r w' \<longleftrightarrow>
     \<not> is_ok r \<and> (\<exists>pre. calls w' = calls w @ pre \<and> list_all prepares pre) \<or>
     (\<exists>cfg nm pre fd body. validateInput be pf args = Ok (cfg, nm) \<and> list_all prepares pre \<and>
        granted (env w) (calls w @ pre) (lock_file locks cfg) fd \<and>
        calls w' = calls w @ pre @ lock_calls locks cfg fd @ body \<and>
        (is_ok r \<longrightarrow> (\<exists>work. body = work @ [Flock fd LOCK_UN])))"

lemma locked_action:
  assumes act: "\<And>cfg nm. emits anything (act cfg nm)"
    and run: "bindM (lifecyclePre be locks pf args) (\<lambda>(cfg, nm, lock). thenM (act cfg nm) (releaseLifecycleLock lock)) w = (r, w')"
  shows "locked_outcome be locks pf args w r w'"
proof (cases "fst (lifecyclePre be locks pf args w)")
  case (Ok c)
  obtain cfg nm lock w1 where pre: "lifecyclePre be locks pf args w = (Ok (cfg, nm, lock), w1)"
    by (metis Ok prod.collapse)
  from lifecyclePre_Ok [OF pre] obtain tr where v: "validateInput be pf args = Ok (cfg, nm)" "fl_locked lock"
    "calls w1 = calls w @ tr @ lock_calls locks cfg (fl_f lock)" "list_all prepares tr"
    "granted (env w) (calls w @ tr) (lock_file locks cfg) (fl_f lock)" .
  obtain r2 w2 where a: "act cfg nm w1 = (r2, w2)" by (cases "act cfg nm w1")
  obtain work where w2: "calls w2 = calls w1 @ work" using emits_trace [OF act a] by blast
  from run pre a have k: "thenM (act cfg nm) (releaseLifecycleLock lock) w1 = (r, w')" by (simp add: bindM_def)
  have "\<exists>body. calls w' = calls w1 @ body \<and> (is_ok r \<longrightarrow> (\<exists>work. body = work @ [Flock (fl_f lock) LOCK_UN]))"
  proof (cases r2)
    case (Ok u)
    with a k have "releaseLifecycleLock lock w2 = (r, w')" by (simp add: thenM_def bindM_def)
    from release_Ok [OF v(2) this] w2 show ?thesis by auto
  qed (use a k w2 in \<open>auto simp: thenM_def bindM_def\<close>)
  with v show ?thesis unfolding locked_outcome_def by force
next
  case (Err e)
  with run have "r = Err e" "w' = snd (lifecyclePre be locks pf args w)"
    by (auto simp: bindM_def split: prod.splits)
  then show ?thesis
    using emits_trace [OF emits_lifecyclePre surjective_pairing, of be locks pf args w] by (auto simp: locked_outcome_def)
next
  case (Abort x)
  with run have "r = Abort x" "w' = snd (lifecyclePre be locks pf args w)"
    by (auto simp: bindM_def split: prod.splits)
  then show ?thesis
    using emits_trace [OF emits_lifecyclePre surjective_pairing, of be locks pf args w] by (auto simp: locked_outcome_def)
qed

definition changes_process :: "subcommand \<Rightarrow> bool" where
  "changes_process cmd \<longleftrightarrow> (case cmd of StartCommand \<Rightarrow> True | StopCommand \<Rightarrow> True | RunCommand _ _ \<Rightarrow> True | _ \<Rightarrow> False)"

text \<open>C4: start, stop and run do everything that concerns a container only once the kernel has granted
  them the exclusive lock of the process: either they fail having done nothing but prepare their log
  and ask for the lock, or they prepare their log, open the lock file of the job and process given on
  the command line, are granted the exclusive lock on the very descriptor that this opening returned,
  and then do all the rest, where the last call of a command that succeeds gives that lock back. (That
  no call in between loses the lock is part of \<open>Interleaving\<close>.)\<close>

theorem lifecycle_commands_locked:
  assumes "changes_process (i_command i)" and "command_body s be i locks w = (r, w')"
  shows "locked_outcome be locks (i_process i) (i_args i) w r w'"
proof (cases "i_command i")
  case StartCommand
  with assms(2) show ?thesis
    by (intro locked_action [of "start (s_externals s) be locks"] emits_bodies_anything)
      (simp_all add: command_body_def startPre_def startPost_def Let_def)
next
  case StopCommand
  with assms(2) show ?thesis
    by (intro locked_action [of "stop (s_fuel s) (s_externals s) be locks"] emits_bodies_anything)
      (simp_all add: command_body_def stopPre_def stopPost_def Let_def)
next
  case (RunCommand vols es)
  with assms(2) show ?thesis
    by (intro locked_action [of "run (s_externals s) be locks vols es"] emits_bodies_anything)
      (simp_all add: command_body_def runPre_def runPost_def Let_def)
qed (use assms(1) in \<open>simp_all add: changes_process_def\<close>)

definition example_setting :: setting where
  "example_setting = \<lparr>s_externals = example_externals, s_version = ''1.0'', s_usage = (\<lambda>c. ''usage''), s_fuel = 20\<rparr>"

definition example_invocation :: invocation where
  "example_invocation = \<lparr>i_command = StopCommand, i_process = [], i_version = False, i_args = [''web'']\<rparr>"

text \<open>A start whose job configuration cannot be read ends right after its first call under the lock.\<close>

definition unreadable_env :: environment where
  "unreadable_env = calm_env\<lparr>r_text := (\<lambda>h c. Inl (Errorf ''unreadable'' []))\<rparr>"

definition unreadable_world :: world where
  "unreadable_world = \<lparr>calls = [], env = unreadable_env\<rparr>"

lemma unreadable_start_reads:
  "\<not> list_all prepares (calls (snd (command_body example_setting (NewEnv []) (example_invocation\<lparr>i_command := StartCommand\<rparr>)
     (NewHandle ''/l'') unreadable_world)))"
proof -
  have "strconv_Atoi ''1000'' = Inr 1000" by code_simp
  then show ?thesis
    by (simp add: unreadable_world_def unreadable_env_def calm_env_def command_body_def example_invocation_def example_setting_def
      startPre_def lifecyclePre_def validateInput_def Let_def setupBpmLogs_def acquireLifecycleLock_def Lookup_def OpenAppendChown_def
      user_of_def bind_res_def LockJob_def flock_New_def flock_Lock_def start_def load_process_def cfg_ParseJobConfig_def ParseJobConfig_def
      io_simps res_of_def res_sum_def prepares_def)
qed

theorem lifecycle_commands_locked_witness:
  "let i = example_invocation\<lparr>i_command := StartCommand\<rparr>; lock = lock_file (NewHandle ''/l'') (NewBPMConfig (NewEnv []) ''web'' ''web'') in
   changes_process (i_command i) \<and>
   (\<exists>pre fd body. granted unreadable_env pre lock fd \<and> list_all prepares pre \<and>
      calls (snd (command_body example_setting (NewEnv []) i (NewHandle ''/l'') unreadable_world)) = pre @ [lock, Flock fd LOCK_EX] @ body)"
proof -
  let ?i = "example_invocation\<lparr>i_command := StartCommand\<rparr>"
  have c: "changes_process (i_command ?i)" by (simp add: changes_process_def)
  have v: "validateInput (NewEnv []) (i_process ?i) (i_args ?i) = Ok (NewBPMConfig (NewEnv []) ''web'' ''web'', ''web'')"
    by (simp add: validateInput_def example_invocation_def Let_def)
  have w: "calls unreadable_world = []" "env unreadable_world = unreadable_env" by (simp_all add: unreadable_world_def)
  from lifecycle_commands_locked [OF c, of example_setting "NewEnv []" "NewHandle ''/l''" unreadable_world, OF surjective_pairing]
    unreadable_start_reads c v w show ?thesis
    unfolding locked_outcome_def Let_def by auto
qed

section \<open>Who may run the program\<close>

text \<open>C29: the check for root. A user whose user id and group id both differ from 0 is turned away with an
  error before any call other than the one that asks who the user is; every other user gets past the
  check, also one whose user id is not 0 but whose group id is.\<close>

theorem root_check:
  assumes "r_user (env w) (calls w) CurrentUser = Inr usr"
  shows "if u_Uid usr \<noteq> ''0'' \<and> u_Gid usr \<noteq> ''0''
    then is_err (fst (rootPre be w)) \<and> calls (snd (rootPre be w)) = calls w @ [CurrentUser]
    else \<exists>rest. calls (snd (rootPre be w)) = calls w @ [CurrentUser, MkdirAll (LocksPath be) perm_0700] @ rest"
proof -
  let ?w = "record_call (MkdirAll (LocksPath be) perm_0700) (record_call CurrentUser w)"
  let ?rest = "bindM isRunningSystemd (\<lambda>systemd.
        thenM (if \<not> systemd then mapErrM (\<lambda>err. Errorf ''unable to setup cgroups: %w'' [AWrap err]) Setup else returnM ())
        (returnM (NewHandle (LocksPath be))))"
  have "emits anything Setup" by (rule emits_mono [OF emits_Setup]) simp
  then have "emits anything ?rest" by (intro emits_intros; simp)
  then obtain tr where "calls (snd (?rest ?w)) = calls ?w @ tr" using emits_calls by blast
  with assms show ?thesis
    by (auto simp: rootPre_def Let_def bindM_def [of "mapErrM _ _"] bindM_def [of "sys_err _"] thenM_def [of "sys_err _"]
        mapErrM_def [of _ "sys_user _"] sys_user_def sys_err_def res_sum_def res_of_def throwM_def split: option.splits)
qed

theorem root_check_witness:
  "is_err (fst (rootPre (NewEnv []) calm_world)) \<and> calls (snd (rootPre (NewEnv []) calm_world)) = [CurrentUser]"
  using root_check [of calm_world "\<lparr>u_Uid = ''1000'', u_Gid = ''1000'', u_Username = ''vcap''\<rparr>" "NewEnv []"]
  by (simp add: calm_world_def calm_env_def)

end
