(* ===== verification/Cli.thy ===== *)
theory Cli
  imports Program
begin

text \<open>
  The command-line program: the global variables of package \<open>commands\<close>, the flags and the table of commands that
  its \<open>init\<close> functions register, the order in which cobra runs a command's functions
  (\<open>vendor/github.com/spf13/cobra/command.go\<close>, \<open>execute\<close> and \<open>ExecuteC\<close>), and \<open>main\<close>. Splitting the command line into
  a command, flags and arguments is the library's work; a command line here is already split. The
  main theorem is that this stateful program does what \<open>run_invocation\<close> does with values.
\<close>

section \<open>Global variables\<close>

record globals =
  g_bpmCfg :: "bpm_config option"
  g_procName :: string
  g_showVersion :: bool
  g_locks :: "Handle option"
  g_lifecycleLock :: "Flock option"
  g_volumes :: "string list"
  g_env :: "string list"
  g_logs :: log_flags
  g_silenceUsage :: bool

text \<open>The variables before the flags are registered: Go's zero values.\<close>

definition zero_globals :: globals where
  "zero_globals = \<lparr>g_bpmCfg = None, g_procName = [], g_showVersion = False, g_locks = None, g_lifecycleLock = None,
     g_volumes = [], g_env = [], g_logs = \<lparr>errLogs = False, allLogs = False, follow = False, quiet = False, numLines = 0\<rparr>,
     g_silenceUsage = False\<rparr>"

text \<open>A step of the program changes the variables and the world; also a failing step leaves its changes.\<close>

type_synonym step = "globals \<Rightarrow> world \<Rightarrow> (unit res \<times> globals) \<times> world"
type_synonym handler = "string list \<Rightarrow> step"

definition returnG :: step where
  "returnG g w = ((Ok (), g), w)"

definition throwG :: "go_error \<Rightarrow> step" where
  "throwG e g w = ((Err e, g), w)"

definition putG :: "(globals \<Rightarrow> globals) \<Rightarrow> step" where
  "putG f g w = ((Ok (), f g), w)"

definition getG :: "(globals \<Rightarrow> step) \<Rightarrow> step" where
  "getG f g = f g g"

definition bindG :: "'a io \<Rightarrow> ('a \<Rightarrow> step) \<Rightarrow> step" where
  "bindG m f g w =
     (case m w of
        (Ok a, w') \<Rightarrow> f a g w'
      | (Err e, w') \<Rightarrow> ((Err e, g), w')
      | (Abort x, w') \<Rightarrow> ((Abort x, g), w'))"

definition seqG :: "step \<Rightarrow> step \<Rightarrow> step" where
  "seqG a b g w =
     (case a g w of
        ((Ok _, g'), w') \<Rightarrow> b g' w'
      | ((Err e, g'), w') \<Rightarrow> ((Err e, g'), w')
      | ((Abort x, g'), w') \<Rightarrow> ((Abort x, g'), w'))"

definition ioG :: "unit io \<Rightarrow> step" where
  "ioG m = bindG m (\<lambda>_. returnG)"

text \<open>Using a variable that is still \<open>nil\<close> panics.\<close>

definition derefG :: "'a option \<Rightarrow> ('a \<Rightarrow> step) \<Rightarrow> step" where
  "derefG v f = (case v of None \<Rightarrow> ioG (abortM (Panic ''nil pointer dereference'')) | Some a \<Rightarrow> f a)"

section \<open>The functions of the commands\<close>

definition silenceUsage :: step where
  "silenceUsage = putG (\<lambda>g. g\<lparr>g_silenceUsage := True\<rparr>)"

definition h_rootPre :: "setting \<Rightarrow> bosh_env \<Rightarrow> handler" where
  "h_rootPre s be args = getG (\<lambda>g.
     if g_showVersion g then ioG (thenM (version (s_usage s ''version'') (s_version s) []) (abortM (Exit 0)))
     else bindG (mapErrM (\<lambda>err. Errorf ''unable to get current user: %w'' [AWrap err]) (sys_user CurrentUser)) (\<lambda>usr.
       if u_Uid usr \<noteq> ''0'' \<and> u_Gid usr \<noteq> ''0''
       then seqG silenceUsage
         (throwG (Errorf (''bpm must be run as root. Please run '' @ [CHR 0x27] @ ''sudo -i'' @ [CHR 0x27] @ '' to become the root user.'') []))
       else bindG (sys_err (MkdirAll (LocksPath be) perm_0700)) (\<lambda>_.
         seqG (putG (\<lambda>g. g\<lparr>g_locks := Some (NewHandle (LocksPath be))\<rparr>))
           (bindG isRunningSystemd (\<lambda>systemd.
              if \<not> systemd then ioG (mapErrM (\<lambda>err. Errorf ''unable to setup cgroups: %w'' [AWrap err]) Setup) else returnG)))))"

definition h_root :: handler where
  "h_root args = ioG root_run"

definition h_validateInput :: "bosh_env \<Rightarrow> handler" where
  "h_validateInput be args =
     (if length args < 1 then throwG (Errorf ''must specify a job'' [])
      else (let jobNm = args ! 0 in
        seqG (putG (\<lambda>g. if g_procName g = [] then g\<lparr>g_procName := jobNm\<rparr> else g))
          (putG (\<lambda>g. g\<lparr>g_bpmCfg := Some (NewBPMConfig be jobNm (g_procName g))\<rparr>))))"

definition h_acquireLifecycleLock :: step where
  "h_acquireLifecycleLock = getG (\<lambda>g. derefG (g_locks g) (\<lambda>locks. derefG (g_bpmCfg g) (\<lambda>cfg.
     bindG (acquireLifecycleLock locks cfg) (\<lambda>lock. putG (\<lambda>g. g\<lparr>g_lifecycleLock := Some lock\<rparr>)))))"

definition h_releaseLifecycleLock :: step where
  "h_releaseLifecycleLock = getG (\<lambda>g. derefG (g_lifecycleLock g) (\<lambda>lock. ioG (releaseLifecycleLock lock)))"

text \<open>\<open>startPre\<close>, \<open>stopPre\<close> and \<open>runPre\<close>; \<open>startPost\<close>, \<open>stopPost\<close> and \<open>runPost\<close>.\<close>

definition h_lifecyclePre :: "bosh_env \<Rightarrow> handler" where
  "h_lifecyclePre be args =
     seqG (h_validateInput be args)
     (seqG silenceUsage
     (seqG (getG (\<lambda>g. derefG (g_bpmCfg g) (\<lambda>cfg. ioG (setupBpmLogs cfg))))
      h_acquireLifecycleLock))"

definition h_lifecyclePost :: handler where
  "h_lifecyclePost args = h_releaseLifecycleLock"

text \<open>A body that uses the configuration and the locks.\<close>

definition with_globals :: "(globals \<Rightarrow> Handle \<Rightarrow> bpm_config \<Rightarrow> unit io) \<Rightarrow> step" where
  "with_globals body = getG (\<lambda>g. derefG (g_bpmCfg g) (\<lambda>cfg. derefG (g_locks g) (\<lambda>locks. ioG (body g locks cfg))))"

definition h_start :: "setting \<Rightarrow> bosh_env \<Rightarrow> handler" where
  "h_start s be args = with_globals (\<lambda>g locks cfg. start (s_externals s) be locks cfg (g_procName g))"

definition h_stop :: "setting \<Rightarrow> bosh_env \<Rightarrow> handler" where
  "h_stop s be args = with_globals (\<lambda>g locks cfg. stop (s_fuel s) (s_externals s) be locks cfg (g_procName g))"

definition h_run :: "setting \<Rightarrow> bosh_env \<Rightarrow> handler" where
  "h_run s be args = with_globals (\<lambda>g locks cfg. run (s_externals s) be locks (g_volumes g) (g_env g) cfg (g_procName g))"

definition h_pidForJob :: "setting \<Rightarrow> bosh_env \<Rightarrow> handler" where
  "h_pidForJob s be args = seqG silenceUsage (with_globals (\<lambda>g. pidForJob (s_externals s) be))"

definition h_shell :: "setting \<Rightarrow> bosh_env \<Rightarrow> handler" where
  "h_shell s be args = seqG silenceUsage (with_globals (\<lambda>g. shell (s_externals s) be))"

definition h_trace :: "setting \<Rightarrow> bosh_env \<Rightarrow> handler" where
  "h_trace s be args = seqG silenceUsage (with_globals (\<lambda>g. trace (s_fuel s) (s_externals s) be))"

definition h_logsForJob :: "setting \<Rightarrow> handler" where
  "h_logsForJob s args = seqG silenceUsage (getG (\<lambda>g. derefG (g_bpmCfg g) (\<lambda>cfg. ioG (logsForJob (s_fuel s) (g_logs g) cfg))))"

definition h_listContainers :: "setting \<Rightarrow> bosh_env \<Rightarrow> handler" where
  "h_listContainers s be args =
     seqG silenceUsage (getG (\<lambda>g. derefG (g_locks g) (\<lambda>locks. ioG (listContainers (s_externals s) be locks))))"

definition h_version :: "setting \<Rightarrow> handler" where
  "h_version s args = ioG (version (s_usage s ''version'') (s_version s) args)"

section \<open>Flags\<close>

datatype flag_value = FString string | FBool bool | FInt int

text \<open>A flag with its shorthand, its default and the variable that it writes. \<open>StringArrayVarP\<close> starts from the empty
  list and appends one element per occurrence.\<close>

record flag =
  f_name :: string
  f_short :: "char option"
  f_default :: "flag_value option"
  f_set :: "flag_value \<Rightarrow> globals \<Rightarrow> globals"

fun setString :: "(string \<Rightarrow> globals \<Rightarrow> globals) \<Rightarrow> flag_value \<Rightarrow> globals \<Rightarrow> globals" where
  "setString f (FString v) g = f v g"
| "setString f _ g = g"

fun setBool :: "(bool \<Rightarrow> globals \<Rightarrow> globals) \<Rightarrow> flag_value \<Rightarrow> globals \<Rightarrow> globals" where
  "setBool f (FBool v) g = f v g"
| "setBool f _ g = g"

fun setInt :: "(int \<Rightarrow> globals \<Rightarrow> globals) \<Rightarrow> flag_value \<Rightarrow> globals \<Rightarrow> globals" where
  "setInt f (FInt v) g = f v g"
| "setInt f _ g = g"

definition StringVarP :: "string \<Rightarrow> char \<Rightarrow> string \<Rightarrow> (string \<Rightarrow> globals \<Rightarrow> globals) \<Rightarrow> flag" where
  "StringVarP nm sh d f = \<lparr>f_name = nm, f_short = Some sh, f_default = Some (FString d), f_set = setString f\<rparr>"

definition StringArrayVarP :: "string \<Rightarrow> char \<Rightarrow> (string \<Rightarrow> globals \<Rightarrow> globals) \<Rightarrow> flag" where
  "StringArrayVarP nm sh f = \<lparr>f_name = nm, f_short = Some sh, f_default = None, f_set = setString f\<rparr>"

definition BoolVarP :: "string \<Rightarrow> char option \<Rightarrow> bool \<Rightarrow> (bool \<Rightarrow> globals \<Rightarrow> globals) \<Rightarrow> flag" where
  "BoolVarP nm sh d f = \<lparr>f_name = nm, f_short = sh, f_default = Some (FBool d), f_set = setBool f\<rparr>"

definition IntVarP :: "string \<Rightarrow> char \<Rightarrow> int \<Rightarrow> (int \<Rightarrow> globals \<Rightarrow> globals) \<Rightarrow> flag" where
  "IntVarP nm sh d f = \<lparr>f_name = nm, f_short = Some sh, f_default = Some (FInt d), f_set = setInt f\<rparr>"

text \<open>The flag that the \<open>init\<close> functions of start, stop, run, pid, shell, trace and logs share.\<close>

definition processFlag :: flag where
  "processFlag = StringVarP ''process'' CHR ''p'' [] (\<lambda>v g. g\<lparr>g_procName := v\<rparr>)"

definition root_flags :: "flag list" where
  "root_flags = [BoolVarP ''version'' None False (\<lambda>v g. g\<lparr>g_showVersion := v\<rparr>)]"

definition run_flags :: "flag list" where
  "run_flags =
     [processFlag,
      StringArrayVarP ''volume'' CHR ''v'' (\<lambda>v g. g\<lparr>g_volumes := g_volumes g @ [v]\<rparr>),
      StringArrayVarP ''env'' CHR ''e'' (\<lambda>v g. g\<lparr>g_env := g_env g @ [v]\<rparr>)]"

definition logs_flags :: "flag list" where
  "logs_flags =
     [BoolVarP ''all'' (Some CHR ''a'') False (\<lambda>v g. g\<lparr>g_logs := (g_logs g)\<lparr>allLogs := v\<rparr>\<rparr>),
      BoolVarP ''err'' (Some CHR ''e'') False (\<lambda>v g. g\<lparr>g_logs := (g_logs g)\<lparr>errLogs := v\<rparr>\<rparr>),
      BoolVarP ''follow'' (Some CHR ''f'') False (\<lambda>v g. g\<lparr>g_logs := (g_logs g)\<lparr>follow := v\<rparr>\<rparr>),
      IntVarP ''lines'' CHR ''n'' 25 (\<lambda>v g. g\<lparr>g_logs := (g_logs g)\<lparr>numLines := v\<rparr>\<rparr>),
      processFlag,
      BoolVarP ''quiet'' (Some CHR ''q'') False (\<lambda>v g. g\<lparr>g_logs := (g_logs g)\<lparr>quiet := v\<rparr>\<rparr>)]"

section \<open>The table of commands\<close>

record cobra_command =
  Use :: string
  Flags :: "flag list"
  PreRunE :: "handler option"
  RunE :: handler
  PostRunE :: "handler option"

datatype command_name =
  C_root | C_start | C_stop | C_run | C_pid | C_shell | C_trace | C_logs | C_list | C_version

definition startCommand :: "setting \<Rightarrow> bosh_env \<Rightarrow> cobra_command" where
  "startCommand s be = \<lparr>Use = ''start <job-name>'', Flags = [processFlag], PreRunE = Some (h_lifecyclePre be), RunE = h_start s be,
     PostRunE = Some h_lifecyclePost\<rparr>"

definition stopCommand :: "setting \<Rightarrow> bosh_env \<Rightarrow> cobra_command" where
  "stopCommand s be = \<lparr>Use = ''stop <job-name>'', Flags = [processFlag], PreRunE = Some (h_lifecyclePre be), RunE = h_stop s be,
     PostRunE = Some h_lifecyclePost\<rparr>"

definition runCommand :: "setting \<Rightarrow> bosh_env \<Rightarrow> cobra_command" where
  "runCommand s be = \<lparr>Use = ''run <job-name>'', Flags = run_flags, PreRunE = Some (h_lifecyclePre be), RunE = h_run s be,
     PostRunE = Some h_lifecyclePost\<rparr>"

definition pidCommand :: "setting \<Rightarrow> bosh_env \<Rightarrow> cobra_command" where
  "pidCommand s be = \<lparr>Use = ''pid <job-name>'', Flags = [processFlag], PreRunE = Some (h_validateInput be), RunE = h_pidForJob s be, PostRunE = None\<rparr>"

definition shellCommand :: "setting \<Rightarrow> bosh_env \<Rightarrow> cobra_command" where
  "shellCommand s be = \<lparr>Use = ''shell <job-name>'', Flags = [processFlag], PreRunE = Some (h_validateInput be), RunE = h_shell s be, PostRunE = None\<rparr>"

definition traceCommand :: "setting \<Rightarrow> bosh_env \<Rightarrow> cobra_command" where
  "traceCommand s be = \<lparr>Use = ''trace <job-name>'', Flags = [processFlag], PreRunE = Some (h_validateInput be), RunE = h_trace s be, PostRunE = None\<rparr>"

definition logsCommand :: "setting \<Rightarrow> bosh_env \<Rightarrow> cobra_command" where
  "logsCommand s be = \<lparr>Use = ''logs <job-name>'', Flags = logs_flags, PreRunE = Some (h_validateInput be), RunE = h_logsForJob s, PostRunE = None\<rparr>"

definition listCommandCommand :: "setting \<Rightarrow> bosh_env \<Rightarrow> cobra_command" where
  "listCommandCommand s be = \<lparr>Use = ''list'', Flags = [], PreRunE = None, RunE = h_listContainers s be, PostRunE = None\<rparr>"

definition versionCommand :: "setting \<Rightarrow> cobra_command" where
  "versionCommand s = \<lparr>Use = ''version'', Flags = [], PreRunE = None, RunE = h_version s, PostRunE = None\<rparr>"

definition RootCmd :: cobra_command where
  "RootCmd = \<lparr>Use = ''bpm'', Flags = [], PreRunE = None, RunE = h_root, PostRunE = None\<rparr>"

fun command_table :: "setting \<Rightarrow> bosh_env \<Rightarrow> command_name \<Rightarrow> cobra_command" where
  "command_table s be C_root = RootCmd"
| "command_table s be C_start = startCommand s be"
| "command_table s be C_stop = stopCommand s be"
| "command_table s be C_run = runCommand s be"
| "command_table s be C_pid = pidCommand s be"
| "command_table s be C_shell = shellCommand s be"
| "command_table s be C_trace = traceCommand s be"
| "command_table s be C_logs = logsCommand s be"
| "command_table s be C_list = listCommandCommand s be"
| "command_table s be C_version = versionCommand s"

definition command_names :: "command_name list" where
  "command_names = [C_root, C_start, C_stop, C_run, C_pid, C_shell, C_trace, C_logs, C_list, C_version]"

instantiation command_name :: enum
begin

definition enum_command_name :: "command_name list" where
  "enum_command_name = command_names"

definition enum_all_command_name :: "(command_name \<Rightarrow> bool) \<Rightarrow> bool" where
  "enum_all_command_name P \<longleftrightarrow> list_all P command_names"

definition enum_ex_command_name :: "(command_name \<Rightarrow> bool) \<Rightarrow> bool" where
  "enum_ex_command_name P \<longleftrightarrow> list_ex P command_names"

instance
proof
  have c: "c \<in> set command_names" for c by (cases c) (simp_all add: command_names_def)
  show "(UNIV :: command_name set) = set enum_class.enum" using c by (auto simp: enum_command_name_def)
  show "distinct (enum_class.enum :: command_name list)" by (simp add: enum_command_name_def command_names_def)
  show "enum_class.enum_all P \<longleftrightarrow> Ball UNIV P" "enum_class.enum_ex P \<longleftrightarrow> Bex UNIV P" for P :: "command_name \<Rightarrow> bool"
    using c by (auto simp: enum_all_command_name_def enum_ex_command_name_def list_all_iff list_ex_iff)
qed

end

text \<open>Registering a flag writes its default: what the \<open>init\<close> functions leave in the variables.\<close>

definition register :: "flag \<Rightarrow> globals \<Rightarrow> globals" where
  "register f g = (case f_default f of None \<Rightarrow> g | Some v \<Rightarrow> f_set f v g)"

definition init_globals :: "setting \<Rightarrow> bosh_env \<Rightarrow> globals" where
  "init_globals s be = fold register (root_flags @ concat (map (\<lambda>c. Flags (command_table s be c)) command_names)) zero_globals"

section \<open>Running a command\<close>

record command_line =
  l_command :: command_name
  l_flags :: "(string \<times> flag_value) list"
  l_args :: "string list"

fun apply_flags :: "flag list \<Rightarrow> (string \<times> flag_value) list \<Rightarrow> globals \<Rightarrow> globals res" where
  "apply_flags fs [] g = Ok g"
| "apply_flags fs ((nm, v) # vs) g =
     (case List.find (\<lambda>f. f_name f = nm) fs of
        None \<Rightarrow> Err (Errorf ''unknown flag: --%s'' [AStr nm])
      | Some f \<Rightarrow> apply_flags fs vs (f_set f v g))"

definition optG :: "handler option \<Rightarrow> handler" where
  "optG h args = (case h of None \<Rightarrow> returnG | Some f \<Rightarrow> f args)"

text \<open>cobra's \<open>execute\<close> after the flags: the persistent pre-run of the root command, then the command's own functions.\<close>

definition execute :: "setting \<Rightarrow> bosh_env \<Rightarrow> cobra_command \<Rightarrow> handler" where
  "execute s be cmd args =
     seqG (h_rootPre s be args) (seqG (optG (PreRunE cmd) args) (seqG (RunE cmd args) (optG (PostRunE cmd) args)))"

text \<open>\<open>ExecuteC\<close>: the usage of the command is printed on an error unless a function has silenced it.\<close>

definition Execute :: "setting \<Rightarrow> bosh_env \<Rightarrow> command_line \<Rightarrow> unit io" where
  "Execute s be l w =
     (let cmd = command_table s be (l_command l) in
      case apply_flags (Flags cmd @ root_flags) (l_flags l) (init_globals s be) of
        Ok g \<Rightarrow>
          (case execute s be cmd (l_args l) g w of
             ((Err e, g'), w') \<Rightarrow> (Err e, if g_silenceUsage g' then w' else record_call (Print StdErr (s_usage s (Use cmd) @ [CHR 0x0A])) w')
           | ((r, g'), w') \<Rightarrow> (r, w'))
      | Err e \<Rightarrow> (Err e, record_call (Print StdErr (s_usage s (Use cmd) @ [CHR 0x0A])) w)
      | Abort x \<Rightarrow> (Abort x, w))"

definition main :: "setting \<Rightarrow> command_line \<Rightarrow> unit io" where
  "main s l =
     bindM (sys_str (Getenv ''BPM_BOSH_ROOT'')) (\<lambda>rt.
     bindM (attemptM (Execute s (NewEnv rt) l)) (\<lambda>r.
       case r of
         Inl err \<Rightarrow> thenM (sys_do (Fprintf StdErr (''Error: %s'' @ [CHR 0x0A]) [AErr err])) (abortM (Exit (FromError (Some err))))
       | Inr _ \<Rightarrow> abortM (Exit 0)))"

section \<open>The stateful program and the one with values\<close>

text \<open>
  A step implements an action when both make the same calls and have the same outcome, \<open>Q\<close> relating the
  action's value to the variables afterwards, and \<open>E\<close> holding of the variables after an error.
\<close>

fun agrees :: "('a \<Rightarrow> globals \<Rightarrow> bool) \<Rightarrow> (globals \<Rightarrow> bool) \<Rightarrow> 'a res \<times> world \<Rightarrow> (unit res \<times> globals) \<times> world \<Rightarrow> bool" where
  "agrees Q E (Ok a, w) ((r, g'), w') \<longleftrightarrow> r = Ok () \<and> w' = w \<and> Q a g'"
| "agrees Q E (Err e, w) ((r, g'), w') \<longleftrightarrow> r = Err e \<and> w' = w \<and> E g'"
| "agrees Q E (Abort x, w) ((r, g'), w') \<longleftrightarrow> r = Abort x \<and> w' = w"

definition implements :: "globals \<Rightarrow> step \<Rightarrow> 'a io \<Rightarrow> ('a \<Rightarrow> globals \<Rightarrow> bool) \<Rightarrow> (globals \<Rightarrow> bool) \<Rightarrow> bool" where
  "implements g st m Q E \<longleftrightarrow> (\<forall>w. agrees Q E (m w) (st g w))"

named_theorems impl_intros \<open>steps that implement actions\<close>

lemma implements_returnG [impl_intros]: "Q a g \<Longrightarrow> implements g returnG (returnM a) Q E"
  by (simp add: implements_def returnG_def returnM_def)

lemma implements_throwG [impl_intros]: "E g \<Longrightarrow> implements g (throwG e) (throwM e) Q E"
  by (simp add: implements_def throwG_def throwM_def)

lemma implements_ioG: "E g \<Longrightarrow> (\<And>a. Q a g) \<Longrightarrow> implements g (ioG m) m Q E"
  by (auto simp: implements_def ioG_def bindG_def returnG_def split: prod.splits res.splits)

lemma implements_bindG [impl_intros]:
  "E g \<Longrightarrow> (\<And>a. implements g (f a) (h a) Q E) \<Longrightarrow> implements g (bindG m f) (bindM m h) Q E"
  by (auto simp: implements_def bindG_def bindM_def split: prod.splits res.splits)

lemma implements_seqG:
  assumes "implements g st m R E" and "\<And>a g'. R a g' \<Longrightarrow> implements g' st2 (f a) Q E"
  shows "implements g (seqG st st2) (bindM m f) Q E"
  unfolding implements_def
proof
  fix w
  obtain r w1 where m: "m w = (r, w1)" by (cases "m w")
  obtain r' g1 w2 where st: "st g w = ((r', g1), w2)" by (metis surj_pair)
  have "agrees R E (r, w1) ((r', g1), w2)" using assms(1) m st by (auto simp: implements_def dest: spec [of _ w])
  with m st assms(2) [of _ g1] show "agrees Q E (bindM m f w) (seqG st st2 g w)"
    by (cases r) (auto simp: implements_def seqG_def bindM_def)
qed

lemma implements_putG: "implements (f g) st m Q E \<Longrightarrow> implements g (seqG (putG f) st) m Q E"
  by (simp add: implements_def seqG_def putG_def)

lemma implements_silence: "implements (g\<lparr>g_silenceUsage := True\<rparr>) st m Q E \<Longrightarrow> implements g (seqG silenceUsage st) m Q E"
  unfolding silenceUsage_def by (rule implements_putG)

lemma implements_getG [simp]: "implements g (getG f) m Q E \<longleftrightarrow> implements g (f g) m Q E"
  by (simp add: implements_def getG_def)

lemma derefG_Some [simp]: "derefG (Some a) f = f a"
  by (simp add: derefG_def)

lemma implements_if [impl_intros]:
  "(b \<Longrightarrow> implements g x m Q E) \<Longrightarrow> (\<not> b \<Longrightarrow> implements g y n Q E) \<Longrightarrow>
    implements g (if b then x else y) (if b then m else n) Q E"
  by simp

lemma implements_weaken:
  assumes "implements g st m R E" and "\<And>a g'. R a g' \<Longrightarrow> Q a g'" and "\<And>g'. E g' \<Longrightarrow> F g'"
  shows "implements g st m Q F"
  unfolding implements_def
proof
  fix w
  show "agrees Q F (m w) (st g w)"
    using assms(1) [unfolded implements_def, rule_format, of w] assms(2,3)
    by (cases "(R, E, m w, st g w)" rule: agrees.cases) auto
qed

lemma implements_validateInput:
  "implements g (h_validateInput be args) (liftM (validateInput be (g_procName g) args))
     (\<lambda>r g'. g' = g\<lparr>g_procName := snd r, g_bpmCfg := Some (fst r)\<rparr>) (\<lambda>g'. args = [])"
  by (cases args) (simp_all add: implements_def h_validateInput_def validateInput_def liftM_def throwG_def seqG_def putG_def Let_def)

lemma implements_rootPre:
  assumes "g_showVersion g = i_version i"
  shows "implements g (h_rootPre s be args) (persistentPre s be i) (\<lambda>locks g'. g' = g\<lparr>g_locks := Some locks\<rparr>) (\<lambda>_. True)"
proof (cases "i_version i")
  case True
  then show ?thesis
    using assms
    by (auto simp: h_rootPre_def persistentPre_def implements_def getG_def ioG_def bindG_def thenM_def bindM_def abortM_def
        split: prod.splits res.splits)
next
  case False
  let ?locks = "NewHandle (LocksPath be)"
  have prep: "implements (g\<lparr>g_locks := Some ?locks\<rparr>) (if \<not> sd then ioG m else returnG)
      (thenM (if \<not> sd then m else returnM ()) (returnM ?locks)) (\<lambda>locks g'. g' = g\<lparr>g_locks := Some locks\<rparr>) (\<lambda>_. True)" for sd m
    by (auto simp: implements_def ioG_def bindG_def returnG_def thenM_def bindM_def returnM_def split: prod.splits res.splits)
  have fail: "implements g (seqG silenceUsage (throwG e)) (throwM e) Q (\<lambda>_. True)" for e :: go_error and Q :: "Handle \<Rightarrow> globals \<Rightarrow> bool"
    by (intro implements_silence impl_intros TrueI)
  have nv: "\<not> g_showVersion g" using False assms by simp
  show ?thesis
    unfolding h_rootPre_def persistentPre_def rootPre_def Let_def thenM_def [of "sys_err _"] if_not_P [OF False]
    by (unfold implements_getG if_not_P [OF nv]) (intro impl_intros implements_putG prep fail TrueI)
qed

text \<open>The variables once a lifecycle command holds its lock.\<close>

abbreviation locked_globals :: "globals \<Rightarrow> bpm_config \<times> string \<times> Flock \<Rightarrow> globals" where
  "locked_globals g \<equiv> \<lambda>(cfg, nm, lock).
     g\<lparr>g_procName := nm, g_bpmCfg := Some cfg, g_silenceUsage := True, g_lifecycleLock := Some lock\<rparr>"

lemma implements_lifecyclePre:
  assumes "g_locks g = Some locks"
  shows "implements g (h_lifecyclePre be args) (lifecyclePre be locks (g_procName g) args)
    (\<lambda>r g'. g' = locked_globals g r) (\<lambda>g'. args = [] \<or> g_silenceUsage g')"
proof -
  let ?E = "\<lambda>g'. args = [] \<or> g_silenceUsage g'"
  have v: "implements g (h_validateInput be args) (liftM (validateInput be (g_procName g) args))
     (\<lambda>r g'. g' = g\<lparr>g_procName := snd r, g_bpmCfg := Some (fst r)\<rparr>) ?E"
    by (rule implements_weaken [OF implements_validateInput]) auto
  have lock: "implements g1 h_acquireLifecycleLock
      (bindM (acquireLifecycleLock locks cfg) (\<lambda>lock. returnM (cfg, nm, lock))) (\<lambda>r g'. g' = locked_globals g r) ?E"
    if "g1 = g\<lparr>g_procName := nm, g_bpmCfg := Some cfg, g_silenceUsage := True\<rparr>" for g1 cfg nm
    using assms that
    by (auto simp: h_acquireLifecycleLock_def intro!: implements_bindG) (simp add: implements_def putG_def returnM_def)
  have logs: "implements g1 (getG (\<lambda>g. derefG (g_bpmCfg g) (\<lambda>cfg. ioG (setupBpmLogs cfg)))) (setupBpmLogs cfg) (\<lambda>_ g'. g' = g1) ?E"
    if "g_bpmCfg g1 = Some cfg" "g_silenceUsage g1" for g1 cfg
    using that by (simp add: implements_ioG)
  show ?thesis
    unfolding h_lifecyclePre_def lifecyclePre_def
  proof (rule implements_seqG [OF v])
    fix a g1
    assume a: "g1 = g\<lparr>g_procName := snd a, g_bpmCfg := Some (fst a)\<rparr>"
    obtain cfg nm where p: "a = (cfg, nm)" by (cases a)
    show "implements g1 (seqG silenceUsage (seqG (getG (\<lambda>g. derefG (g_bpmCfg g) (\<lambda>cfg. ioG (setupBpmLogs cfg)))) h_acquireLifecycleLock))
        (case a of (cfg, procNm) \<Rightarrow> thenM (setupBpmLogs cfg) (bindM (acquireLifecycleLock locks cfg) (\<lambda>lock. returnM (cfg, procNm, lock))))
        (\<lambda>r g'. g' = locked_globals g r) ?E"
      unfolding p prod.case thenM_def using a p
      by (intro implements_silence implements_seqG [OF logs] lock) auto
  qed
qed

lemma implements_with_globals:
  "g_bpmCfg g = Some cfg \<Longrightarrow> g_locks g = Some locks \<Longrightarrow> body g locks cfg = m \<Longrightarrow> E g \<Longrightarrow>
    implements g (with_globals body) m (\<lambda>_ g'. g' = g) E"
  by (simp add: with_globals_def implements_ioG)

lemma implements_lifecycle:
  assumes "g_locks g = Some locks"
    and body: "\<And>cfg nm lock. body (locked_globals g (cfg, nm, lock)) locks cfg = act cfg nm"
  shows "implements g (seqG (h_lifecyclePre be args) (seqG (with_globals body) (h_lifecyclePost args)))
    (bindM (lifecyclePre be locks (g_procName g) args) (\<lambda>(cfg, nm, lock). thenM (act cfg nm) (releaseLifecycleLock lock)))
    (\<lambda>_ _. True) (\<lambda>g'. args = [] \<or> g_silenceUsage g')"
proof (rule implements_seqG [OF implements_lifecyclePre [OF assms(1)]])
  fix r g'
  assume g': "g' = locked_globals g r"
  obtain cfg nm lock where r: "r = (cfg, nm, lock)" by (metis surj_pair)
  have post: "implements g' (h_lifecyclePost args) (releaseLifecycleLock lock) (\<lambda>_ _. True) (\<lambda>g'. args = [] \<or> g_silenceUsage g')"
    using g' r by (simp add: h_lifecyclePost_def h_releaseLifecycleLock_def implements_ioG)
  have act: "implements g' (with_globals body) (act cfg nm) (\<lambda>_ g2. g2 = g') (\<lambda>g'. args = [] \<or> g_silenceUsage g')"
    using g' r assms(1) body [of cfg nm lock] by (intro implements_with_globals) simp_all
  show "implements g' (seqG (with_globals body) (h_lifecyclePost args))
      (case r of (cfg, nm, lock) \<Rightarrow> thenM (act cfg nm) (releaseLifecycleLock lock)) (\<lambda>_ _. True) (\<lambda>g'. args = [] \<or> g_silenceUsage g')"
    unfolding r prod.case thenM_def by (rule implements_seqG [OF act]) (simp add: post)
qed

lemma implements_inspect:
  assumes "g_locks g = Some locks"
    and run: "\<And>cfg nm. implements (g\<lparr>g_procName := nm, g_bpmCfg := Some cfg\<rparr>) (h args) (act cfg) (\<lambda>_ _. True) (\<lambda>g'. args = [] \<or> g_silenceUsage g')"
  shows "implements g (seqG (h_validateInput be args) (seqG (h args) returnG))
    (bindM (liftM (validateInput be (g_procName g) args)) (\<lambda>(cfg, nm). act cfg)) (\<lambda>_ _. True) (\<lambda>g'. args = [] \<or> g_silenceUsage g')"
proof (rule implements_seqG)
  show "implements g (h_validateInput be args) (liftM (validateInput be (g_procName g) args))
     (\<lambda>r g'. g' = g\<lparr>g_procName := snd r, g_bpmCfg := Some (fst r)\<rparr>) (\<lambda>g'. args = [] \<or> g_silenceUsage g')"
    by (rule implements_weaken [OF implements_validateInput]) auto
next
  fix r g'
  assume g': "g' = g\<lparr>g_procName := snd r, g_bpmCfg := Some (fst r)\<rparr>"
  have "implements g' (seqG (h args) returnG) (bindM (act (fst r)) returnM) (\<lambda>_ _. True) (\<lambda>g'. args = [] \<or> g_silenceUsage g')"
    unfolding g' by (rule implements_seqG [OF run]) (simp add: implements_returnG)
  then show "implements g' (seqG (h args) returnG) (case r of (cfg, nm) \<Rightarrow> act cfg) (\<lambda>_ _. True) (\<lambda>g'. args = [] \<or> g_silenceUsage g')"
    by (simp add: split_def)
qed

fun subcommand_of :: "command_name \<Rightarrow> globals \<Rightarrow> subcommand" where
  "subcommand_of C_root g = RootCommand"
| "subcommand_of C_start g = StartCommand"
| "subcommand_of C_stop g = StopCommand"
| "subcommand_of C_run g = RunCommand (g_volumes g) (g_env g)"
| "subcommand_of C_pid g = PidCommand"
| "subcommand_of C_shell g = ShellCommand"
| "subcommand_of C_trace g = TraceCommand"
| "subcommand_of C_logs g = LogsCommand (g_logs g)"
| "subcommand_of C_list g = ListCommand"
| "subcommand_of C_version g = VersionCommand"

definition invocation_of :: "command_line \<Rightarrow> globals \<Rightarrow> invocation" where
  "invocation_of l g =
     \<lparr>i_command = subcommand_of (l_command l) g, i_process = g_procName g, i_version = g_showVersion g, i_args = l_args l\<rparr>"

text \<open>The command lines that a command itself turns away: the bare program, and a missing job.\<close>

definition usage_error :: "command_name \<Rightarrow> string list \<Rightarrow> bool" where
  "usage_error c args \<longleftrightarrow> c = C_root \<or> args = [] \<and> c \<noteq> C_list \<and> c \<noteq> C_version"

lemmas command_defs = startCommand_def stopCommand_def runCommand_def pidCommand_def shellCommand_def traceCommand_def
  logsCommand_def listCommandCommand_def versionCommand_def RootCmd_def

lemma implements_run_only:
  "implements g st m (\<lambda>_ _. True) E \<Longrightarrow> implements g (seqG returnG (seqG st returnG)) m (\<lambda>_ _. True) E"
  using implements_seqG [of g returnG "returnM ()" "\<lambda>_ g'. g' = g" E "seqG st returnG" "\<lambda>_. bindM m returnM" "\<lambda>_ _. True"]
    implements_seqG [of g st m "\<lambda>_ _. True" E returnG returnM "\<lambda>_ _. True"]
  by (simp add: implements_returnG)

lemma implements_version: "implements g (h_version s args) (version u v args) (\<lambda>_ _. True) E" if "u = s_usage s ''version''" "v = s_version s"
  using that
  by (auto simp: implements_def h_version_def version_def ioG_def bindG_def returnG_def io_simps)

lemmas body_defs = command_body_def invocation_of_def command_defs optG_def Let_def with_config_def

text \<open>What cobra runs for a command after the persistent pre-run, and the errors after which it may print the usage.\<close>

abbreviation own_functions :: "cobra_command \<Rightarrow> string list \<Rightarrow> step" where
  "own_functions cmd args \<equiv> seqG (optG (PreRunE cmd) args) (seqG (RunE cmd args) (optG (PostRunE cmd) args))"

abbreviation excused :: "command_name \<Rightarrow> string list \<Rightarrow> globals \<Rightarrow> bool" where
  "excused c args \<equiv> \<lambda>g'. usage_error c args \<or> g_silenceUsage g'"

lemma implements_locked_body:
  assumes "g_locks g = Some locks" and "l_command l \<in> {C_start, C_stop, C_run}"
  shows "implements g (own_functions (command_table s be (l_command l)) (l_args l))
    (command_body s be (invocation_of l g) locks) (\<lambda>_ _. True) (excused (l_command l) (l_args l))"
proof -
  have life: "implements g (seqG (h_lifecyclePre be (l_args l)) (seqG (with_globals body) (h_lifecyclePost (l_args l))))
      (bindM (lifecyclePre be locks (g_procName g) (l_args l)) (\<lambda>(cfg, nm, lock). thenM (act cfg nm) (releaseLifecycleLock lock)))
      (\<lambda>_ _. True) (excused c (l_args l))"
    if "\<And>cfg nm lock. body (locked_globals g (cfg, nm, lock)) locks cfg = act cfg nm" "c \<in> {C_start, C_stop, C_run}" for body act c
    by (rule implements_weaken [OF implements_lifecycle [where body = body and act = act, OF assms(1) that(1)]])
      (use that(2) in \<open>auto simp: usage_error_def\<close>)
  from assms(2) consider "l_command l = C_start" | "l_command l = C_stop" | "l_command l = C_run" by auto
  then show ?thesis
    by cases (simp_all add: body_defs startPre_def startPost_def h_start_def stopPre_def stopPost_def h_stop_def
        runPre_def runPost_def h_run_def run_flags_def life)
qed

lemma implements_looking_body:
  assumes "g_locks g = Some locks" and "l_command l \<in> {C_pid, C_shell, C_trace, C_logs}"
  shows "implements g (own_functions (command_table s be (l_command l)) (l_args l))
    (command_body s be (invocation_of l g) locks) (\<lambda>_ _. True) (excused (l_command l) (l_args l))"
proof -
  let ?silenced = "\<lambda>g'. l_args l = [] \<or> g_silenceUsage g'"
  have look: "implements g (seqG (h_validateInput be (l_args l)) (seqG (h (l_args l)) returnG))
      (bindM (liftM (validateInput be (g_procName g) (l_args l))) (\<lambda>(cfg, nm). act cfg)) (\<lambda>_ _. True) (excused c (l_args l))"
    if "\<And>cfg nm. implements (g\<lparr>g_procName := nm, g_bpmCfg := Some cfg\<rparr>) (h (l_args l)) (act cfg) (\<lambda>_ _. True) ?silenced"
      "c \<in> {C_pid, C_shell, C_trace, C_logs}" for h act c
    by (rule implements_weaken [OF implements_inspect [where h = h and act = act, OF assms(1) that(1)]])
      (use that(2) in \<open>auto simp: usage_error_def\<close>)
  have silent: "implements g0 (seqG silenceUsage (with_globals body)) (act cfg) (\<lambda>_ _. True) ?silenced"
    if "g_bpmCfg g0 = Some cfg" "g_locks g0 = Some locks" "\<And>g'. body g' locks = act" for g0 body act cfg
    by (intro implements_silence implements_weaken [OF implements_with_globals [where cfg = cfg and locks = locks]]) (use that in auto)
  from assms(2) consider "l_command l = C_pid" | "l_command l = C_shell" | "l_command l = C_trace" | "l_command l = C_logs" by auto
  then show ?thesis
    by cases (simp add: body_defs,
        rule look; simp add: h_pidForJob_def h_shell_def h_trace_def h_logsForJob_def silent implements_silence implements_ioG assms(1))+
qed

lemma implements_body:
  assumes "g_locks g = Some locks" and "args = l_args l" and "cmd = command_table s be (l_command l)"
  shows "implements g (own_functions cmd args) (command_body s be (invocation_of l g) locks) (\<lambda>_ _. True) (excused (l_command l) args)"
proof -
  consider "l_command l \<in> {C_start, C_stop, C_run}" | "l_command l \<in> {C_pid, C_shell, C_trace, C_logs}"
    | "l_command l = C_root" | "l_command l = C_list" | "l_command l = C_version"
    by (cases "l_command l") auto
  then show ?thesis
  proof cases
    case 1
    from implements_locked_body [OF assms(1) this] show ?thesis by (simp add: assms(2,3))
  next
    case 2
    from implements_looking_body [OF assms(1) this] show ?thesis by (simp add: assms(2,3))
  next
    case 3
    then show ?thesis
      unfolding assms(3) by (simp add: body_defs) (rule implements_run_only, simp add: h_root_def implements_ioG usage_error_def)
  next
    case 4
    then show ?thesis
      unfolding assms(3) by (simp add: body_defs)
        (rule implements_run_only, simp add: h_listContainers_def implements_silence implements_ioG assms(1))
  next
    case 5
    then show ?thesis
      unfolding assms(3) by (simp add: body_defs assms(2) [symmetric]) (rule implements_run_only, simp add: implements_version)
  qed
qed

lemma execute_implements:
  assumes "cmd = command_table s be (l_command l)"
  shows "implements g (execute s be cmd (l_args l)) (run_invocation s be (invocation_of l g)) (\<lambda>_ _. True) (\<lambda>_. True)"
  unfolding execute_def run_invocation_def
proof (rule implements_seqG [OF implements_rootPre])
  show "g_showVersion g = i_version (invocation_of l g)" by (simp add: invocation_of_def)
next
  fix locks g'
  assume g': "g' = g\<lparr>g_locks := Some locks\<rparr>"
  have "invocation_of l g' = invocation_of l g"
    unfolding g' by (cases "l_command l") (simp_all add: invocation_of_def)
  then show "implements g' (seqG (optG (PreRunE cmd) (l_args l)) (seqG (RunE cmd (l_args l)) (optG (PostRunE cmd) (l_args l))))
      (command_body s be (invocation_of l g) locks) (\<lambda>_ _. True) (\<lambda>_. True)"
    using implements_weaken [OF implements_body [OF _ refl assms, of g' locks]] g' by simp
qed

lemma execute_silent:
  assumes "cmd = command_table s be (l_command l)" and "persistentPre s be (invocation_of l g) w = (Ok locks, w0)"
    and "\<not> usage_error (l_command l) (l_args l)" and "execute s be cmd (l_args l) g w = ((Err e, g'), w')"
  shows "g_silenceUsage g'"
proof -
  let ?g = "g\<lparr>g_locks := Some locks\<rparr>"
  have "agrees (\<lambda>locks g'. g' = g\<lparr>g_locks := Some locks\<rparr>) (\<lambda>_. True) (persistentPre s be (invocation_of l g) w)
      (h_rootPre s be (l_args l) g w)"
    using implements_rootPre [of g "invocation_of l g" s be "l_args l"] by (simp add: invocation_of_def implements_def)
  with assms(2) have "h_rootPre s be (l_args l) g w = ((Ok (), ?g), w0)"
    by (cases "h_rootPre s be (l_args l) g w") (auto elim: agrees.elims)
  with assms(4) have ex: "seqG (optG (PreRunE cmd) (l_args l)) (seqG (RunE cmd (l_args l)) (optG (PostRunE cmd) (l_args l))) ?g w0 =
      ((Err e, g'), w')"
    by (simp add: execute_def seqG_def [of "h_rootPre s be (l_args l)"])
  have "implements ?g (seqG (optG (PreRunE cmd) (l_args l)) (seqG (RunE cmd (l_args l)) (optG (PostRunE cmd) (l_args l))))
      (command_body s be (invocation_of l ?g) locks) (\<lambda>_ _. True) (\<lambda>g'. usage_error (l_command l) (l_args l) \<or> g_silenceUsage g')"
    by (rule implements_body [OF _ refl assms(1)]) simp
  then have "agrees (\<lambda>_ _. True) (\<lambda>g'. usage_error (l_command l) (l_args l) \<or> g_silenceUsage g')
      (command_body s be (invocation_of l ?g) locks w0) ((Err e, g'), w')"
    unfolding implements_def ex [symmetric] by blast
  with assms(3) show ?thesis by (auto elim: agrees.elims)
qed

text \<open>Whether an invocation can print the usage of its command: only when it fails before its command has begun, or
  when the command line is refused.\<close>

definition may_show_usage :: "setting \<Rightarrow> bosh_env \<Rightarrow> command_line \<Rightarrow> globals \<Rightarrow> world \<Rightarrow> bool" where
  "may_show_usage s be l g w \<longleftrightarrow>
     is_err (fst (persistentPre s be (invocation_of l g) w)) \<or> usage_error (l_command l) (l_args l)"

lemma Execute_equivalent:
  assumes flags: "apply_flags (Flags (command_table s be (l_command l)) @ root_flags) (l_flags l) (init_globals s be) = Ok g"
    and run: "run_invocation s be (invocation_of l g) w = (r, w1)"
  shows "\<exists>shown. Execute s be l w = (r, if shown then record_call (Print StdErr (s_usage s (Use (command_table s be (l_command l))) @ [CHR 0x0A])) w1 else w1) \<and>
    (shown \<longrightarrow> is_err r \<and> may_show_usage s be l g w)"
proof -
  let ?cmd = "command_table s be (l_command l)"
  obtain r' g' w' where ex: "execute s be ?cmd (l_args l) g w = ((r', g'), w')" by (metis surj_pair)
  have "agrees (\<lambda>_ _. True) (\<lambda>_. True) (r, w1) ((r', g'), w')"
    using execute_implements [OF refl, of g s be l] run ex by (auto simp: implements_def dest: spec [of _ w])
  then have same: "r' = r" "w' = w1" by (auto elim: agrees.elims)
  show ?thesis
  proof (cases r)
    case (Err e)
    have "may_show_usage s be l g w" if "\<not> g_silenceUsage g'"
    proof (rule ccontr)
      assume n: "\<not> may_show_usage s be l g w"
      obtain p w0 where p: "persistentPre s be (invocation_of l g) w = (p, w0)" by (cases "persistentPre s be (invocation_of l g) w")
      from n p obtain locks where "p = Ok locks" using run Err
        by (cases p) (auto simp: may_show_usage_def run_invocation_def bindM_def)
      with execute_silent [OF refl _ _ ex [unfolded same(1) Err]] n p that show False by (simp add: may_show_usage_def)
    qed
    with ex same Err flags show ?thesis by (intro exI [of _ "\<not> g_silenceUsage g'"]) (simp add: Execute_def Let_def)
  qed (use ex same flags in \<open>auto simp: Execute_def Let_def intro!: exI [of _ False]\<close>)
qed

text \<open>C8: the program does what its commands do. For every command line whose flags the command knows, \<open>main\<close>, which
  threads the package's global variables through the functions that its command table registers in the order of cobra,
  makes exactly the calls of \<open>run_invocation\<close>, where they are values, and ends with exit status 0 when the command
  succeeds, with the status of its error after printing it when it fails, and with its panic or its own exit
  otherwise. Before the error it prints the usage at most when the command had not begun or its command line is
  refused.\<close>

theorem main_equivalent:
  assumes "be = NewEnv (r_out (env w) (calls w) (Getenv ''BPM_BOSH_ROOT''))"
    and "apply_flags (Flags (command_table s be (l_command l)) @ root_flags) (l_flags l) (init_globals s be) = Ok g"
    and "run_invocation s be (invocation_of l g) (record_call (Getenv ''BPM_BOSH_ROOT'') w) = (r, w1)"
  shows "case r of
      Ok _ \<Rightarrow> main s l w = (Abort (Exit 0), w1)
    | Err e \<Rightarrow> \<exists>usage. calls (snd (main s l w)) = calls w1 @ usage @ [Fprintf StdErr (''Error: %s'' @ [CHR 0x0A]) [AErr e]] \<and>
        fst (main s l w) = Abort (Exit (FromError (Some e))) \<and>
        (usage \<noteq> [] \<longrightarrow> may_show_usage s be l g (record_call (Getenv ''BPM_BOSH_ROOT'') w))
    | Abort x \<Rightarrow> main s l w = (Abort x, w1)"
proof -
  let ?u = "Print StdErr (s_usage s (Use (command_table s be (l_command l))) @ [CHR 0x0A])"
  obtain shown where ex: "Execute s be l (record_call (Getenv ''BPM_BOSH_ROOT'') w) = (r, if shown then record_call ?u w1 else w1)"
    and sh: "shown \<longrightarrow> is_err r \<and> may_show_usage s be l g (record_call (Getenv ''BPM_BOSH_ROOT'') w)"
    using Execute_equivalent [OF assms(2,3)] by blast
  have m: "main s l w = bindM (attemptM (Execute s be l)) (\<lambda>r.
       case r of
         Inl err \<Rightarrow> thenM (sys_do (Fprintf StdErr (''Error: %s'' @ [CHR 0x0A]) [AErr err])) (abortM (Exit (FromError (Some err))))
       | Inr _ \<Rightarrow> abortM (Exit 0)) (record_call (Getenv ''BPM_BOSH_ROOT'') w)"
    unfolding main_def assms(1) by (rule bindM_Ok) (simp add: sys_str_def)
  show ?thesis
  proof (cases r)
    case (Err e)
    with ex sh show ?thesis
      by (auto simp: m bindM_def attemptM_def thenM_def sys_do_def abortM_def intro!: exI [of _ "if shown then [?u] else []"])
  qed (use ex sh in \<open>auto simp: m bindM_def attemptM_def abortM_def\<close>)
qed

lemma main_outcome:
  assumes "be = NewEnv (r_out (env w) (calls w) (Getenv ''BPM_BOSH_ROOT''))"
    and "apply_flags (Flags (command_table s be (l_command l)) @ root_flags) (l_flags l) (init_globals s be) = Ok g"
    and "fst (run_invocation s be (invocation_of l g) (record_call (Getenv ''BPM_BOSH_ROOT'') w)) = r"
  shows "fst (main s l w) = Abort (case r of Ok _ \<Rightarrow> Exit 0 | Err e \<Rightarrow> Exit (FromError (Some e)) | Abort x \<Rightarrow> x)"
proof -
  obtain w1 where "run_invocation s be (invocation_of l g) (record_call (Getenv ''BPM_BOSH_ROOT'') w) = (r, w1)"
    using assms(3) by (metis prod.collapse)
  then obtain w2 where "Execute s be l (record_call (Getenv ''BPM_BOSH_ROOT'') w) = (r, w2)"
    using Execute_equivalent [OF assms(2)] by blast
  with assms(1) show ?thesis
    by (cases r) (simp_all add: main_def sys_str_def sys_do_def bindM_def attemptM_def thenM_def abortM_def)
qed

lemma main_succeeds:
  assumes "be = NewEnv (r_out (env w) (calls w) (Getenv ''BPM_BOSH_ROOT''))"
    and "apply_flags (Flags (command_table s be (l_command l)) @ root_flags) (l_flags l) (init_globals s be) = Ok g"
    and "run_invocation s be (invocation_of l g) (record_call (Getenv ''BPM_BOSH_ROOT'') w) = (Ok (), w1)"
  shows "main s l w = (Abort (Exit 0), w1)"
proof -
  have "Execute s be l (record_call (Getenv ''BPM_BOSH_ROOT'') w) = (Ok (), w1)" using Execute_equivalent [OF assms(2,3)] by auto
  with assms(1) show ?thesis by (simp add: main_def sys_str_def bindM_def attemptM_def abortM_def)
qed

text \<open>What the user sees of an error that a command ends with: its text as the last thing written, and an errand's exit status both
  there and as the status of the program.\<close>

lemma main_error_text:
  assumes "be = NewEnv (r_out (env w) (calls w) (Getenv ''BPM_BOSH_ROOT''))"
    and "apply_flags (Flags (command_table s be (l_command l)) @ root_flags) (l_flags l) (init_globals s be) = Ok g"
    and "fst (run_invocation s be (invocation_of l g) (record_call (Getenv ''BPM_BOSH_ROOT'') w)) = Err e"
  shows "written quote (last (calls (snd (main s l w)))) = Some (StdErr, ''Error: '' @ error_text quote e @ [CHR 0x0A])"
proof -
  obtain w1 where r: "run_invocation s be (invocation_of l g) (record_call (Getenv ''BPM_BOSH_ROOT'') w) = (Err e, w1)"
    using assms(3) by (metis prod.collapse)
  obtain shown where "Execute s be l (record_call (Getenv ''BPM_BOSH_ROOT'') w) =
      (Err e, if shown then record_call (Print StdErr (s_usage s (Use (command_table s be (l_command l))) @ [CHR 0x0A])) w1 else w1)"
    using Execute_equivalent [OF assms(2) r] by blast
  with assms(1) show ?thesis
    by (simp add: main_def sys_str_def sys_do_def bindM_def attemptM_def thenM_def abortM_def)
qed

lemma errand_error_text:
  "error_text quote (ExitError n (Errorf ''failed to run job-process: %s'' [AErr e])) =
     ''failed to run job-process: '' @ error_text quote e @ '' (exit status '' @ strconv_Itoa n @ '')''"
  by (simp add: exitstatus_Error_def)

section \<open>The flags\<close>

text \<open>No command has two flags of the same name or with the same letter, nor one that is called like the help flag which cobra
  adds: registering the flags does not panic, and a flag on the command line means one variable.\<close>

lemma flags_unambiguous:
  "let fs = Flags (command_table s be c) @ root_flags
   in distinct (map f_name fs) \<and> distinct (List.map_filter f_short fs) \<and>
      ''help'' \<notin> set (map f_name fs) \<and> CHR ''h'' \<notin> set (List.map_filter f_short fs)"
  by (cases c) (simp_all add: command_defs root_flags_def run_flags_def logs_flags_def processFlag_def StringVarP_def StringArrayVarP_def
      BoolVarP_def IntVarP_def Let_def map_filter_simps)

lemma apply_flag_of_command:
  assumes "f \<in> set (Flags (command_table s be c) @ root_flags)"
  shows "apply_flags (Flags (command_table s be c) @ root_flags) [(f_name f, v)] g = Ok (f_set f v g)"
proof -
  let ?fs = "Flags (command_table s be c) @ root_flags"
  have "inj_on f_name (set ?fs)" using flags_unambiguous [of s be c] by (simp only: Let_def distinct_map)
  moreover have "inj_on f_name (set hs) \<Longrightarrow> f \<in> set hs \<Longrightarrow> List.find (\<lambda>h. f_name h = f_name f) hs = Some f" for hs
    by (induction hs) (auto simp: inj_on_def)
  ultimately have "List.find (\<lambda>h. f_name h = f_name f) ?fs = Some f" using assms by blast
  then show ?thesis by simp
qed

lemma init_globals_sel:
  "g_showVersion (init_globals s be) = False" "g_volumes (init_globals s be) = []" "g_env (init_globals s be) = []"
  by (simp_all add: init_globals_def command_names_def command_defs root_flags_def run_flags_def logs_flags_def processFlag_def
      StringVarP_def BoolVarP_def IntVarP_def StringArrayVarP_def register_def zero_globals_def)

lemma apply_flags_append:
  "apply_flags fs (xs @ ys) g = bind_res (apply_flags fs xs g) (apply_flags fs ys)"
  by (induction fs xs g rule: apply_flags.induct) (auto split: option.splits)

text \<open>The repeatable flags of \<open>bpm run\<close> collect their values in order.\<close>

lemma apply_run_flags:
  "apply_flags (run_flags @ root_flags) (map (\<lambda>v. (''volume'', FString v)) vols) g = Ok (g\<lparr>g_volumes := g_volumes g @ vols\<rparr>)"
  "apply_flags (run_flags @ root_flags) (map (\<lambda>v. (''env'', FString v)) es) g = Ok (g\<lparr>g_env := g_env g @ es\<rparr>)"
proof -
  show "apply_flags (run_flags @ root_flags) (map (\<lambda>v. (''volume'', FString v)) vols) g = Ok (g\<lparr>g_volumes := g_volumes g @ vols\<rparr>)"
    by (induction vols arbitrary: g) (simp_all add: run_flags_def processFlag_def StringVarP_def StringArrayVarP_def)
  show "apply_flags (run_flags @ root_flags) (map (\<lambda>v. (''env'', FString v)) es) g = Ok (g\<lparr>g_env := g_env g @ es\<rparr>)"
    by (induction es arbitrary: g) (simp_all add: run_flags_def processFlag_def StringVarP_def StringArrayVarP_def)
qed

definition example_line :: command_line where
  "example_line = \<lparr>l_command = C_stop, l_flags = [(''process'', FString ''worker'')], l_args = [''web'']\<rparr>"

theorem main_equivalent_witness:
  "fst (main example_setting example_line calm_world) = Abort (Exit 1)"
proof -
  let ?be = "NewEnv []" and ?w = "record_call (Getenv ''BPM_BOSH_ROOT'') calm_world"
  have be: "?be = NewEnv (r_out (env calm_world) (calls calm_world) (Getenv ''BPM_BOSH_ROOT''))"
    by (simp add: calm_world_def calm_env_def)
  obtain g where g: "apply_flags (Flags (command_table example_setting ?be (l_command example_line)) @ root_flags) (l_flags example_line)
      (init_globals example_setting ?be) = Ok g" "g_showVersion g = False"
    by (simp add: example_line_def stopCommand_def processFlag_def StringVarP_def init_globals_def command_names_def command_defs
        root_flags_def run_flags_def logs_flags_def BoolVarP_def IntVarP_def StringArrayVarP_def register_def zero_globals_def)
  obtain e w1 where r: "run_invocation example_setting ?be (invocation_of example_line g) ?w = (Err e, w1)" "FromError (Some e) = 1"
    using g(2) by (simp add: run_invocation_def persistentPre_def invocation_of_def rootPre_def calm_world_def calm_env_def io_simps res_sum_def)
  from main_equivalent [OF be g(1) r(1)] r(2) show ?thesis by auto
qed

end
