(* ===== verification/Outcomes.thy ===== *)
theory Outcomes
  imports Cli
begin

text \<open>
  How the program can end without returning: the logic \<open>ends E A m\<close> says that in every environment of \<open>E\<close> the action
  \<open>m\<close> aborts (panics, exits, runs out of fuel) only in the ways \<open>A\<close>. The locale \<open>outcome_policy\<close> collects what the code
  asks of \<open>E\<close> and \<open>A\<close>: one law for each place in the sources that can panic. Every command without a loop is treated
  once, in the locale; \<open>Termination\<close> interprets it with the policy that fuel is never used up, \<open>Panics\<close> with
  the policy that nothing panics.
\<close>

section \<open>Actions and the ways they abort\<close>

named_theorems fin_intros \<open>actions and results that abort only as a policy allows\<close>

definition res_in :: "(abort \<Rightarrow> bool) \<Rightarrow> 'a res \<Rightarrow> bool" where
  "res_in A r \<longleftrightarrow> (\<forall>x. r = Abort x \<longrightarrow> A x)"

lemma res_in_simps [simp]: "res_in A (Ok a)" "res_in A (Err e)" "res_in A (Abort x) \<longleftrightarrow> A x"
  by (simp_all add: res_in_def)

definition ends :: "(environment \<Rightarrow> bool) \<Rightarrow> (abort \<Rightarrow> bool) \<Rightarrow> 'a io \<Rightarrow> bool" where
  "ends E A m \<longleftrightarrow> (\<forall>w. E (env w) \<longrightarrow> E (env (snd (m w))) \<and> res_in A (fst (m w)))"

lemma endsD: "ends E A m \<Longrightarrow> E (env w) \<Longrightarrow> m w = (r, w') \<Longrightarrow> E (env w') \<and> res_in A r"
  unfolding ends_def by (metis fst_conv snd_conv)

lemma endsI: "(\<And>w r w'. E (env w) \<Longrightarrow> m w = (r, w') \<Longrightarrow> E (env w') \<and> res_in A r) \<Longrightarrow> ends E A m"
  unfolding ends_def by (metis surjective_pairing)

lemma ends_primitives [fin_intros]:
  "ends E A (returnM a)" "ends E A (throwM e)" "ends E A (sys_err c)" "ends E A (sys_stat c)" "ends E A (sys_fd c)"
  "ends E A (sys_text c)" "ends E A (sys_texts c)" "ends E A (sys_bool c)" "ends E A (sys_user c)" "ends E A (sys_cmd c)"
  "ends E A (sys_out c)" "ends E A (sys_event c)" "ends E A (sys_scan c)" "ends E A (sys_str c)" "ends E A (sys_flag c)"
  "ends E A (sys_do c)" "ends E A (run_cmd k)"
  by (auto simp: ends_def io_simps res_of_def res_sum_def split: option.splits sum.splits)

lemma ends_abortM [fin_intros]: "A x \<Longrightarrow> ends E A (abortM x)"
  by (simp add: ends_def abortM_def)

lemma ends_liftM [fin_intros]: "res_in A r \<Longrightarrow> ends E A (liftM r)"
  by (simp add: ends_def liftM_def)

lemma ends_bindM_result:
  assumes "ends E A m" and "\<And>w a w'. E (env w) \<Longrightarrow> m w = (Ok a, w') \<Longrightarrow> ends E A (f a)"
  shows "ends E A (bindM m f)"
proof (rule endsI)
  fix w r w2
  assume e: "E (env w)" and b: "bindM m f w = (r, w2)"
  obtain r1 w1 where m: "m w = (r1, w1)" by (cases "m w")
  with endsD [OF assms(1) e m] endsD [OF assms(2) [OF e]] b show "E (env w2) \<and> res_in A r"
    by (cases r1) (auto simp: bindM_def)
qed

lemma ends_bindM [fin_intros]: "ends E A m \<Longrightarrow> (\<And>a. ends E A (f a)) \<Longrightarrow> ends E A (bindM m f)"
  by (rule ends_bindM_result)

lemma ends_thenM [fin_intros]: "ends E A m \<Longrightarrow> ends E A k \<Longrightarrow> ends E A (thenM m k)"
  by (simp add: thenM_def ends_bindM)

lemma ends_attemptM [fin_intros]: "ends E A m \<Longrightarrow> ends E A (attemptM m)"
  unfolding ends_def by (auto simp: attemptM_def res_in_def split: prod.splits res.splits; metis fst_conv snd_conv)

lemma ends_mapErrM [fin_intros]: "ends E A m \<Longrightarrow> ends E A (mapErrM f m)"
  unfolding ends_def by (auto simp: mapErrM_def res_in_def split: prod.splits res.splits; metis fst_conv snd_conv)

lemma ends_ignoreM [fin_intros]: "ends E A m \<Longrightarrow> ends E A (ignoreM m)"
  unfolding ends_def by (auto simp: ignoreM_def res_in_def split: prod.splits res.splits; metis fst_conv snd_conv)

lemma ends_deferM [fin_intros]:
  assumes "ends E A m" and "ends E (\<lambda>_. True) d"
  shows "ends E A (deferM m d)"
proof (rule endsI)
  fix w r w2
  assume e: "E (env w)" and b: "deferM m d w = (r, w2)"
  obtain w1 where m: "m w = (r, w1)" using b by (auto simp: deferM_def split: prod.splits)
  obtain r2 where d: "d w1 = (r2, w2)" using b m by (auto simp: deferM_def split: prod.splits)
  from endsD [OF assms(1) e m] endsD [OF assms(2) _ d] show "E (env w2) \<and> res_in A r" by blast
qed

lemma ends_forM [fin_intros]: "(\<And>x. ends E A (f x)) \<Longrightarrow> ends E A (forM xs f)"
  by (induction xs) (simp_all add: fin_intros)

lemma ends_splits [fin_intros]:
  "(b \<Longrightarrow> ends E A m) \<Longrightarrow> (\<not> b \<Longrightarrow> ends E A n) \<Longrightarrow> ends E A (if b then m else n)"
  "(\<And>x y. p = (x, y) \<Longrightarrow> ends E A (h x y)) \<Longrightarrow> ends E A (case p of (x, y) \<Rightarrow> h x y)"
  "ends E A n \<Longrightarrow> (\<And>x. ends E A (h1 x)) \<Longrightarrow> ends E A (case v of None \<Rightarrow> n | Some x \<Rightarrow> h1 x)"
  "(\<And>x. ends E A (h2 x)) \<Longrightarrow> (\<And>x. ends E A (h3 x)) \<Longrightarrow> ends E A (case s of Inl x \<Rightarrow> h2 x | Inr x \<Rightarrow> h3 x)"
  by (simp_all split: prod.splits option.splits sum.splits)

section \<open>Results\<close>

abbreviation nil_panic :: abort where
  "nil_panic \<equiv> Panic ''nil pointer dereference''"

lemma bind_res_in [fin_intros]:
  "res_in A r \<Longrightarrow> (\<And>a. r = Ok a \<Longrightarrow> res_in A (f a)) \<Longrightarrow> res_in A (bind_res r f)"
  by (cases r) (simp_all add: bind_res_def)

lemma res_sum_in [fin_intros]: "res_in A (res_sum s)" "res_in A (res_of v)"
  by (auto simp: res_sum_def res_of_def split: sum.splits option.splits)

lemma res_sum_Ok: "res_sum s = Ok a \<longleftrightarrow> s = Inr a"
  by (cases s) simp_all

lemma Validate_in [fin_intros]: "res_in A (ProcessConfig_Validate c be ds)"
  by (auto simp: ProcessConfig_Validate_def bind_res_def validate_volumes_no_Abort split: res.splits)

text \<open>The three places that look into a process which the decoder may have left \<open>nil\<close>.\<close>

lemma null_process_in:
  assumes "None \<in> set (Processes c) \<Longrightarrow> A nil_panic"
  shows "res_in A (JobConfig_Validate c be ds)" "res_in A (processByNameFromJobConfig c nm)" "res_in A (stopped_rows be job (Processes c))"
proof -
  have "(None \<in> set ps \<Longrightarrow> A nil_panic) \<Longrightarrow> res_in A (validate_processes ps be ds)" for ps
    by (induction ps) (auto split: option.splits intro!: fin_intros)
  with assms show "res_in A (JobConfig_Validate c be ds)" by (simp add: JobConfig_Validate_def)
  have "(None \<in> set ps \<Longrightarrow> A nil_panic) \<Longrightarrow> res_in A (find_process ps nm)" for ps
    by (induction ps nm rule: find_process.induct) auto
  with assms show "res_in A (processByNameFromJobConfig c nm)" by (simp add: processByNameFromJobConfig_def)
  have "(None \<in> set ps \<Longrightarrow> A nil_panic) \<Longrightarrow> res_in A (stopped_rows be job ps)" for ps
    by (induction be job ps rule: stopped_rows.induct) (auto intro!: fin_intros)
  with assms show "res_in A (stopped_rows be job (Processes c))" by blast
qed

lemma volume_options_in: "res_in A (volume_options opts v)"
  by (induction opts v rule: volume_options.induct) auto

lemma AddVolumes_in: "AddVolumes vols be ds c = (r, c') \<Longrightarrow> res_in A r"
proof -
  have "res_in A (fst (add_volumes_loop vols c))"
    by (induction vols c rule: add_volumes_loop.induct)
      (use volume_options_in [of "\<lambda>_. False"] in \<open>auto simp: parse_volume_def Let_def res_in_def split: res.splits if_splits\<close>)
  then show "AddVolumes vols be ds c = (r, c') \<Longrightarrow> res_in A r"
    by (auto simp: AddVolumes_def split: prod.splits intro!: fin_intros)
qed

lemma AddEnvVars_in: "AddEnvVars es be ds c = (r, c') \<Longrightarrow> res_in A r"
proof -
  have "res_in A (fst (add_env_loop es m))" for m
    by (induction es m rule: add_env_loop.induct) (auto split: list.splits)
  then show "AddEnvVars es be ds c = (r, c') \<Longrightarrow> res_in A r"
    by (auto simp: AddEnvVars_def Let_def split: prod.splits intro!: fin_intros) (metis fst_conv)
qed

lemma inputs_in [fin_intros]:
  "res_in A (validateInput be pf args)" "res_in A (user_of u)" "res_in A (limit_options tb ft lim)"
  "res_in A (selfCgroupPathFromReader ls err)"
proof -
  show "res_in A (validateInput be pf args)" by (simp add: validateInput_def Let_def split: list.splits)
  show "res_in A (user_of u)" by (auto simp: user_of_def intro!: fin_intros)
  show "res_in A (limit_options tb ft lim)"
    by (auto simp: limit_options_def split: option.splits intro!: fin_intros)
  show "res_in A (selfCgroupPathFromReader ls err)"
    by (induction ls err rule: selfCgroupPathFromReader.induct) (auto split: option.splits)
qed

lemma grouping_in:
  assumes "\<And>l. l \<in> set (fst f) \<Longrightarrow> length (strings_Split l CHR '':'') < 2 \<Longrightarrow> A (Panic ''index out of range'')"
  shows "res_in A (subsystemGroupingFromProcCgroup f sub)"
proof -
  have "(\<And>l. l \<in> set ls \<Longrightarrow> length (strings_Split l CHR '':'') < 2 \<Longrightarrow> A (Panic ''index out of range'')) \<Longrightarrow> res_in A (grouping_of_lines ls sub)" for ls
    by (induction ls sub rule: grouping_of_lines.induct) (auto simp: Let_def)
  with assms show ?thesis
    by (auto simp: subsystemGroupingFromProcCgroup_def split: option.splits intro!: bind_res_in)
qed

section \<open>What the code asks of a policy\<close>

text \<open>runc answers every question for a container's state with a state or an error other than that there is none.\<close>

definition never_gone :: "json_codec \<Rightarrow> environment \<Rightarrow> bool" where
  "never_gone json e \<longleftrightarrow>
     (\<forall>h client cid. fst (ContainerState_op (decodeMsg json) (decodeState json) client cid \<lparr>calls = h, env = e\<rparr>) \<noteq> Ok None)"

text \<open>
  One law per panic of the sources: \<open>RunContainer\<close> of a runc that cannot be started, a null entry among the processes of a
  configuration, a line of \<open>/proc/self/cgroup\<close> without a colon, and a container whose identifier ends within an escape.
\<close>

locale outcome_policy =
  fixes E :: "environment \<Rightarrow> bool" and A :: "abort \<Rightarrow> bool" and x :: externals
  assumes exits: "A (Exit n)"
    and not_started: "E e \<Longrightarrow> r_cmd e h (RunCmd cmd) = CmdNotStarted err \<Longrightarrow> A nil_panic"
    and null_process: "x_yaml x d = Inr c \<Longrightarrow> None \<in> set (Processes c) \<Longrightarrow> A nil_panic"
    and short_line: "E e \<Longrightarrow> l \<in> set (fst (r_scan e h k)) \<Longrightarrow> length (strings_Split l CHR '':'') < 2 \<Longrightarrow> A (Panic ''index out of range'')"
    and truncated_id: "decodeList (x_json x) out = Inr cs \<Longrightarrow> st \<in> set cs \<Longrightarrow> res_in A (Decode (CS_ID st))"
begin

lemma ends_subsystemGrouping [fin_intros]: "ends E A (subsystemGrouping sub)"
proof -
  have "ends E A (bindM (sys_scan (ScanLines f)) (\<lambda>scanned. liftM (subsystemGroupingFromProcCgroup scanned sub)))" for f
  proof (rule ends_bindM_result [OF ends_primitives(13)])
    fix w scanned w'
    assume "E (env w)" and "sys_scan (ScanLines f) w = (Ok scanned, w')"
    then show "ends E A (liftM (subsystemGroupingFromProcCgroup scanned sub))"
      using short_line [of "env w"] by (intro ends_liftM grouping_in) (auto simp: sys_scan_def)
  qed
  then show ?thesis
    unfolding subsystemGrouping_def
    by (intro ends_bindM [OF ends_attemptM [OF ends_primitives(5)]] ends_splits ends_deferM ends_primitives)
qed

lemma ends_flock [fin_intros]:
  "ends E A (flock_Lock fl)" "ends E A (LockJob h job proc)" "ends E A (LockVolume sha h p)" "fl_locked fl \<Longrightarrow> ends E A (flock_Unlock fl)"
  "ends E (\<lambda>_. True) (flock_Unlock fl)"
  unfolding LockJob_def LockVolume_def flock_New_def flock_Lock_def flock_Unlock_def
  by (intro fin_intros | simp)+

lemma ends_host [fin_intros]:
  "ends E A (Lookup u)" "ends E A isRunningSystemd" "ends E A sysfeat_Fetch" "ends E A (MakeShared p)"
  "ends E A (OpenAppendChown p uid gid m)" "ends E A (checkDirExists d)"
  "ends E A (Env_JobNames be)" "ends E A SelfCgroupPath" "ends E A Setup"
  unfolding Lookup_def isRunningSystemd_def sysfeat_Fetch_def swapLimitSupported_def swapLimitSupportedCgroup1_def
    swapLimitSupportedCgroup2_def seccompSupported_def MakeShared_def OpenAppendChown_def
    checkDirExists_def Env_JobNames_def SelfCgroupPath_def Setup_def
    mountCgroupTmpfsIfNotPresent_def mountCgroupSubsystem_def Let_def
  by (intro fin_intros | simp add: ends_primitives split: go_error.split errno.split)+

lemma ends_cgroupsPath [fin_intros]: "ends E A (cgroupsPathForContainer cid)"
  unfolding cgroupsPathForContainer_def by (intro fin_intros)

text \<open>A parsed configuration comes from the decoder.\<close>

lemma ParseJobConfig_decoded: "cfg_ParseJobConfig (x_yaml x) c w = (Ok jc, w') \<Longrightarrow> None \<in> set (Processes jc) \<Longrightarrow> A nil_panic"
  using null_process by (auto simp: cfg_ParseJobConfig_def ParseJobConfig_def bindM_eq_Ok liftM_def returnM_def res_sum_Ok)

lemma ends_ParseJobConfig [fin_intros]: "ends E A (cfg_ParseJobConfig (x_yaml x) c)"
  unfolding cfg_ParseJobConfig_def
proof (rule ends_bindM_result)
  show "ends E A (ParseJobConfig (x_yaml x) (cfg_JobConfig c))" unfolding ParseJobConfig_def by (intro fin_intros)
  fix w jc w'
  assume "ParseJobConfig (x_yaml x) (cfg_JobConfig c) w = (Ok jc, w')"
  then have "None \<in> set (Processes jc) \<Longrightarrow> A nil_panic"
    using null_process by (auto simp: ParseJobConfig_def bindM_eq_Ok liftM_def res_sum_Ok)
  then show "ends E A (bindM (liftM (JobConfig_Validate jc (boshEnv c) (cfg_DefaultVolumes c))) (\<lambda>_. returnM jc))"
    by (intro fin_intros null_process_in)
qed

lemma ends_load_process [fin_intros]: "ends E A (load_process x c nm)"
  unfolding load_process_def
  by (rule ends_bindM_result) (auto intro!: fin_intros null_process_in dest: ParseJobConfig_decoded)

section \<open>The adapter, the client and the lifecycle\<close>

lemma ends_open_log_files [fin_intros]: "ends E A (open_log_files paths u files)"
proof (induction paths arbitrary: files)
  case (Cons path paths)
  show ?case unfolding open_log_files.simps by (intro fin_intros Cons.IH)
qed (simp add: fin_intros)

lemma ends_prepare_volumes [fin_intros]: "ends E A (prepare_volumes (program_adapter sha f h cg) vols ds ps)"
proof (induction vols arbitrary: ds ps)
  case (Cons v vols)
  show ?case
    unfolding prepare_volumes.simps makeShared_def program_adapter_def NewRuncAdapter_def RuncAdapter.simps
    by (intro fin_intros Cons.IH [unfolded program_adapter_def NewRuncAdapter_def])
qed (simp add: fin_intros)

lemma ends_globExpand [fin_intros]: "ends E A (globExpandVolumes (program_adapter sha f h cg) vols)"
proof (induction vols)
  case (Cons v vols)
  then show ?case by (auto simp: program_adapter_def NewRuncAdapter_def intro!: fin_intros)
qed (simp add: fin_intros)

lemma ends_adapter [fin_intros]:
  "ends E A (CreateJobPrerequisites (program_adapter sha f h cg) c p u)"
  "(\<And>g cid. cg = Some g \<Longrightarrow> ends E A (g cid)) \<Longrightarrow> ends E A (BuildSpec ord toBytes (program_adapter sha f h cg) c p u)"
proof -
  show "ends E A (CreateJobPrerequisites (program_adapter sha f h cg) c p u)"
    unfolding CreateJobPrerequisites_def createDirs_def createDirFor_def chownPaths_def createLogFiles_def Let_def
    by (intro fin_intros)
  assume cg: "\<And>g cid. cg = Some g \<Longrightarrow> ends E A (g cid)"
  have "ends E A (cgroup_options (program_adapter sha f h cg) c)"
    using cg by (auto simp: cgroup_options_def program_adapter_def NewRuncAdapter_def split: option.splits intro!: fin_intros)
  then show "ends E A (BuildSpec ord toBytes (program_adapter sha f h cg) c p u)"
    unfolding BuildSpec_def optional_mount_def unrestricted_mounts_def Let_def by (intro fin_intros)
qed

lemma ends_RunContainer [fin_intros]: "ends E A (RunContainer c pf b cid d out err)"
  using not_started by (auto simp: ends_def RunContainer_def Let_def io_simps split: cmd_result.splits option.splits)

lemma ends_client [fin_intros]:
  "ends E A (CreateBundle enc b spec u)" "ends E A (Exec c cid k i out err)" "ends E A (ContainerState_op dm ds c cid)"
  "ends E A (ListContainers dl c)" "ends E A (SignalContainer c cid s)" "ends E A (DeleteContainer c cid)" "ends E A (DestroyBundle b)"
  unfolding CreateBundle_def Exec_def ContainerState_op_def ListContainers_def SignalContainer_def DeleteContainer_def DestroyBundle_def
  by (intro fin_intros)+

lemma ends_lifecycle [fin_intros]:
  "ends E A (setupProcess (program_lifecycle x be locks sd f) c p)"
  "ends E A (StartProcess (program_lifecycle x be locks sd f) c p)"
  "ends E A (RunProcess (program_lifecycle x be locks sd f) c p)"
  "ends E A (StatProcess (program_lifecycle x be locks sd f) c)"
  "ends E A (RemoveProcess (program_lifecycle x be locks sd f) c)"
  "ends E A (ListProcesses (program_lifecycle x be locks sd f))"
  "ends E A (OpenShell (program_lifecycle x be locks sd f) c i out err)"
proof -
  show *: "ends E A (setupProcess (program_lifecycle x be locks sd f) c p)" for p
    unfolding setupProcess_def lifecycle_of_sel runc_ops_sel
    by (intro fin_intros) (simp add: ends_cgroupsPath)
  show "ends E A (StartProcess (program_lifecycle x be locks sd f) c p)"
    "ends E A (RunProcess (program_lifecycle x be locks sd f) c p)"
    "ends E A (StatProcess (program_lifecycle x be locks sd f) c)"
    "ends E A (RemoveProcess (program_lifecycle x be locks sd f) c)"
    "ends E A (ListProcesses (program_lifecycle x be locks sd f))"
    "ends E A (OpenShell (program_lifecycle x be locks sd f) c i out err)"
    unfolding StartProcess_def RunProcess_def StatProcess_def RemoveProcess_def ListProcesses_def OpenShell_def
      lifecycle_of_sel(1) runc_ops_sel
    by (intro fin_intros *)+
qed

section \<open>The commands\<close>

lemma ends_newRuncLifecycle [fin_intros]: "ends E A (newRuncLifecycle x be locks)"
  unfolding newRuncLifecycle_def by (intro fin_intros)

lemma ends_with_lifecycle:
  assumes "\<And>sd f. ends E A (k (program_lifecycle x be locks sd f))"
  shows "ends E A (bindM (newRuncLifecycle x be locks) k)"
  by (rule ends_bindM_result [OF ends_newRuncLifecycle]) (metis newRuncLifecycle_Ok assms)

lemma ends_states [fin_intros]:
  "ends E A (current_state be' c (program_lifecycle x be locks sd f))"
  "ends E A (remove_stale c (program_lifecycle x be locks sd f) st)"
  "ends E A (running_process (program_lifecycle x be locks sd f) c)"
  unfolding current_state_def remove_stale_def running_process_def forceCleanupBrokenRuncState_def Let_def
  by (intro fin_intros)+

text \<open>The table of \<open>bpm list\<close> has only names of configured processes, which decode.\<close>

lemma ends_listing [fin_intros]:
  "ends E A (configured_processes x be jobs)"
  "(\<And>q. q \<in> set qs \<Longrightarrow> res_in A (Decode (P_Name q))) \<Longrightarrow> ends E A (merge_running ps qs)"
  "(\<And>p. p \<in> set ps \<Longrightarrow> \<exists>n. P_Name p = Encode n) \<Longrightarrow> ends E A (PrintJobs ps)"
proof -
  show "ends E A (configured_processes x be jobs)"
  proof (induction jobs)
    case (Cons job jobs)
    show ?case
      unfolding configured_processes.simps
    proof (rule ends_bindM_result [OF ends_attemptM [OF ends_ParseJobConfig]])
      fix w r w'
      assume "attemptM (cfg_ParseJobConfig (x_yaml x) (NewBPMConfig be job [])) w = (Ok r, w')"
      then have "None \<in> set (Processes jc) \<Longrightarrow> A nil_panic" if "r = Inr jc" for jc
        using that ParseJobConfig_decoded by (auto simp: attemptM_Inr)
      then show "ends E A (case r of
         Inl err \<Rightarrow>
           if os_IsNotExist err then configured_processes x be jobs
           else thenM (sys_do (Fprintf StdErr ''invalid config for %s: %s'' [AStr job, AErr err])) (configured_processes x be jobs)
       | Inr jobCfg \<Rightarrow>
           bindM (liftM (stopped_rows be job (Processes jobCfg))) (\<lambda>rows.
           bindM (configured_processes x be jobs) (\<lambda>rest. returnM (rows @ rest))))"
        by (cases r) (auto intro!: fin_intros Cons.IH null_process_in)
    qed
  qed (simp add: fin_intros)
  show "(\<And>q. q \<in> set qs \<Longrightarrow> res_in A (Decode (P_Name q))) \<Longrightarrow> ends E A (merge_running ps qs)"
  proof (induction qs arbitrary: ps)
    case (Cons q qs)
    have "res_in A (updateProcess ps q)"
      using Cons.prems [of q] by (auto simp: updateProcess_def split: option.splits res.splits)
    moreover have "ends E A (merge_running ps' qs)" for ps' using Cons.prems by (intro Cons.IH) simp
    ultimately show ?case unfolding merge_running.simps by (intro fin_intros)
  qed (simp add: fin_intros)
  assume names: "\<And>p. p \<in> set ps \<Longrightarrow> \<exists>n. P_Name p = Encode n"
  have row: "ends E A (printRow tw args)" for tw args
    unfolding printRow_def Let_def split_def by (intro fin_intros)
  have "(\<And>p. p \<in> set ps \<Longrightarrow> \<exists>n. P_Name p = Encode n) \<Longrightarrow> ends E A (print_processes tw ps)" for ps tw
  proof (induction ps arbitrary: tw)
    case (Cons p ps)
    from Cons.prems [of p] obtain n where "P_Name p = Encode n" by auto
    then have "res_in A (process_row p)" by (simp add: process_row_def jobid.dec_enc bind_res_def)
    with Cons show ?case unfolding print_processes.simps by (auto intro!: ends_bindM ends_liftM row)
  qed (simp add: fin_intros)
  from this [OF names] show "ends E A (PrintJobs ps)" unfolding PrintJobs_def by (intro fin_intros row)
qed

lemma configured_names:
  "configured_processes y be jobs w = (Ok ps, w') \<Longrightarrow> p \<in> set ps \<Longrightarrow> \<exists>n. P_Name p = Encode n"
proof (induction jobs arbitrary: w ps)
  case (Cons job jobs)
  have rows: "stopped_rows be job cs = Ok rows \<Longrightarrow> p \<in> set rows \<Longrightarrow> \<exists>n. P_Name p = Encode n" for cs rows
    by (induction be job cs arbitrary: rows rule: stopped_rows.induct) (auto simp: bind_res_eq_Ok cfg_ContainerID_eq, blast)
  from Cons.prems(1) obtain r :: "go_error + JobConfig" and w1 where "(case r of
         Inl err \<Rightarrow>
           if os_IsNotExist err then configured_processes y be jobs
           else thenM (sys_do (Fprintf StdErr ''invalid config for %s: %s'' [AStr job, AErr err])) (configured_processes y be jobs)
       | Inr jobCfg \<Rightarrow>
           bindM (liftM (stopped_rows be job (Processes jobCfg))) (\<lambda>rows.
           bindM (configured_processes y be jobs) (\<lambda>rest. returnM (rows @ rest)))) w1 = (Ok ps, w')"
    unfolding configured_processes.simps bindM_eq_Ok [of "attemptM _"] by blast
  with Cons.prems(2) show ?case
    by (cases r) (auto simp: bindM_eq_Ok thenM_eq_Ok liftM_def returnM_def split: if_splits dest: Cons.IH rows)
qed (simp add: returnM_def)

lemma replace_process_names: "replace_process ps q = Some ps' \<Longrightarrow> map P_Name ps' = map P_Name ps"
  by (induction ps arbitrary: ps') (auto split: if_splits option.splits)

lemma merge_names: "merge_running ps qs w = (Ok out, w') \<Longrightarrow> map P_Name out = map P_Name ps"
proof (induction qs arbitrary: ps w)
  case (Cons q qs)
  then show ?case
    by (auto simp: bindM_eq_Ok thenM_eq_Ok liftM_def updateProcess_def split: option.splits res.splits prod.splits
        dest!: Cons.IH replace_process_names)
qed (simp add: returnM_def)

lemma ListProcesses_names:
  "ListProcesses (program_lifecycle x be locks sd f) w = (Ok qs, w') \<Longrightarrow> q \<in> set qs \<Longrightarrow> res_in A (Decode (P_Name q))"
  using truncated_id
  by (auto simp: ListProcesses_def ListContainers_def lifecycle_of_sel(1) runc_ops_sel bindM_eq_Ok liftM_def returnM_def res_sum_Ok throwM_def
      newProcessFromContainerState_def split: option.splits)

lemma ends_listContainers [fin_intros]: "ends E A (listContainers x be locks)"
  unfolding listContainers_def
proof (intro ends_bindM [OF ends_host(7)] ends_bindM_result [OF ends_listing(1)] ends_with_lifecycle)
  fix jobs w ps w' sd f
  assume ps: "configured_processes x be jobs w = (Ok ps, w')"
  let ?lc = "program_lifecycle x be locks sd f"
  show "ends E A (bindM (attemptM (ListProcesses ?lc)) (\<lambda>r.
       case r of
         Inl err \<Rightarrow> thenM (sys_do (Fprintf StdErr (''failed to list jobs: %s'' @ [CHR 0x0A]) [AErr err])) (throwM err)
       | Inr runningProcesses \<Rightarrow>
           bindM (merge_running ps runningProcesses) (\<lambda>all.
           bindM (attemptM (PrintJobs all)) (\<lambda>r'.
             case r' of
               Inl err \<Rightarrow> thenM (sys_do (Fprintf StdErr (''failed to display jobs: %s'' @ [CHR 0x0A]) [AErr err])) (throwM err)
             | Inr _ \<Rightarrow> returnM ()))))"
  proof (rule ends_bindM_result [OF ends_attemptM [OF ends_lifecycle(6)]])
    fix w r w'
    assume r: "attemptM (ListProcesses ?lc) w = (Ok r, w')"
    show "ends E A (case r of
         Inl err \<Rightarrow> thenM (sys_do (Fprintf StdErr (''failed to list jobs: %s'' @ [CHR 0x0A]) [AErr err])) (throwM err)
       | Inr runningProcesses \<Rightarrow>
           bindM (merge_running ps runningProcesses) (\<lambda>all.
           bindM (attemptM (PrintJobs all)) (\<lambda>r'.
             case r' of
               Inl err \<Rightarrow> thenM (sys_do (Fprintf StdErr (''failed to display jobs: %s'' @ [CHR 0x0A]) [AErr err])) (throwM err)
             | Inr _ \<Rightarrow> returnM ())))"
    proof (cases r)
      case (Inr qs)
      have m: "ends E A (merge_running ps qs)"
        using ListProcesses_names r by (intro ends_listing(2)) (auto simp: Inr attemptM_Inr)
      have "\<exists>n. P_Name p = Encode n" if "merge_running ps qs v = (Ok out, v')" "p \<in> set out" for v out v' p
      proof -
        have "P_Name p \<in> set (map P_Name ps)" using merge_names [OF that(1)] that(2) by (metis in_set_conv_nth length_map nth_map nth_mem)
        with configured_names [OF ps] show ?thesis by auto
      qed
      then show ?thesis unfolding Inr sum.case
        by (intro ends_bindM_result [OF m] ends_bindM ends_attemptM ends_listing(3)) (auto intro!: fin_intros split: sum.split)
    qed (simp add: fin_intros)
  qed
qed

lemma ends_bodies [fin_intros]:
  "ends E A (start x be locks c nm)" "ends E A (run x be locks vols es c nm)" "ends E A (pidForJob x be locks c)"
  "ends E A (shell x be locks c)" "ends E A (version u v args)" "ends E A root_run"
proof -
  show "ends E A (start x be locks c nm)"
    unfolding start_def by (intro ends_bindM [OF ends_load_process] ends_with_lifecycle; (intro fin_intros)?)
  show "ends E A (pidForJob x be locks c)" "ends E A (shell x be locks c)"
    unfolding pidForJob_def shell_def by (intro ends_with_lifecycle fin_intros)+
  show "ends E A (version u v args)" "ends E A root_run"
    unfolding version_def root_run_def by (intro fin_intros exits)+
  show "ends E A (run x be locks vols es c nm)"
    unfolding run_def Let_def split_def
    by (intro ends_bindM ends_thenM ends_load_process ends_liftM ends_with_lifecycle
        AddVolumes_in [OF surjective_pairing] AddEnvVars_in [OF surjective_pairing]; (intro fin_intros)?)
qed

lemma ends_pre [fin_intros]:
  "ends E A (rootPre be)" "ends E A (persistentPre s be i)" "ends E A (lifecyclePre be locks pf args)"
  unfolding persistentPre_def rootPre_def lifecyclePre_def setupBpmLogs_def acquireLifecycleLock_def Let_def
  by (intro fin_intros exits)+

lemma ends_release [fin_intros]: "fl_locked lock \<Longrightarrow> ends E A (releaseLifecycleLock lock)"
  unfolding releaseLifecycleLock_def by (intro fin_intros)

text \<open>A command under its lock, which it releases only while it holds it.\<close>

lemma ends_locked:
  assumes "\<And>cfg nm. ends E A (act cfg nm)"
  shows "ends E A (bindM (lifecyclePre be locks pf args) (\<lambda>(cfg, nm, lock). thenM (act cfg nm) (releaseLifecycleLock lock)))"
  by (rule ends_bindM_result [OF ends_pre(3)]) (auto split: prod.split intro!: ends_thenM assms ends_release elim: lifecyclePre_Ok)

section \<open>The loops, for any fuel\<close>

lemma ends_forward_loop: "A NoFuel \<Longrightarrow> (\<And>r. ends E A (fin r)) \<Longrightarrow> ends E A (forward_loop fin fuel)"
proof (induction fuel)
  case (Suc fuel)
  show ?case
    unfolding forward_loop.simps by (intro ends_bindM [OF ends_primitives(12)]) (auto intro!: fin_intros Suc split: event.split)
qed (simp add: ends_abortM)

lemma ends_ended: "ends E A (trace_ended r)" "ends E A (logs_ended r)"
proof -
  show "ends E A (trace_ended r)" by (cases r rule: trace_ended.cases) (auto intro!: fin_intros)
  show "ends E A (logs_ended r)" unfolding logs_ended_def by (intro fin_intros)
qed

lemma ends_logsDontExist [fin_intros]: "ends E A (logsDontExist fs)"
proof (induction fs)
  case (Cons f fs)
  then show ?case unfolding logsDontExist.simps by (intro fin_intros)
qed (simp add: fin_intros)

lemma ends_watching:
  assumes "A NoFuel"
  shows "ends E A (trace fuel x be locks c)" "ends E A (logsForJob fuel fl c)"
proof -
  note loops = ends_forward_loop [where fuel = fuel, OF assms ends_ended(1)] ends_forward_loop [where fuel = fuel, OF assms ends_ended(2)]
  show "ends E A (trace fuel x be locks c)"
    unfolding trace_def trace_loop_def Let_def by (intro ends_with_lifecycle; intro fin_intros loops)
  show "ends E A (logsForJob fuel fl c)"
    unfolding logsForJob_def logs_loop_def Let_def by (intro fin_intros loops)
qed

text \<open>The wait of \<open>stop\<close> panics when runc no longer knows the container.\<close>

lemma ends_stop_loop:
  assumes "A NoFuel" and "\<And>e. E e \<Longrightarrow> never_gone (x_json x) e"
  shows "ends E A (StopProcess fuel (program_lifecycle x be locks sd f) c p t)"
proof -
  let ?lc = "program_lifecycle x be locks sd f"
  have stopped: "ends E A (container_stopped ?lc cid)" for cid
    unfolding container_stopped_def lifecycle_of_sel(1) runc_ops_sel
  proof (rule ends_bindM_result [OF ends_attemptM [OF ends_client(3)]])
    fix w r w'
    let ?m = "ContainerState_op (decodeMsg (x_json x)) (decodeState (x_json x)) (NewRuncClient (RuncPath be) (RuncRoot be) sd) cid"
    assume "E (env w)" and "attemptM ?m w = (Ok r, w')"
    then have "r \<noteq> Inr None"
      using assms(2) [of "env w"] by (auto simp: attemptM_Inr never_gone_def dest: spec [of _ "calls w"] ) (metis fst_conv world.surjective old.unit.exhaust)
    then show "ends E A (case r of Inl err \<Rightarrow> returnM False | Inr None \<Rightarrow> abortM nil_panic
        | Inr (Some st) \<Rightarrow> returnM (St_Status st = ContainerStateStopped))"
      by (auto intro!: fin_intros split: sum.split option.split)
  qed
  have "ends E A (stop_loop fuel ?lc cid)" for cid
  proof (induction fuel)
    case (Suc fuel)
    show ?case
      unfolding stop_loop.simps lifecycle_of_sel(1) runc_ops_sel by (intro fin_intros stopped Suc.IH)
  qed (simp add: ends_abortM assms(1))
  then show ?thesis
    unfolding StopProcess_def lifecycle_of_sel(1) runc_ops_sel by (intro fin_intros stopped)
qed

lemma ends_stop:
  assumes "A NoFuel" and "\<And>e. E e \<Longrightarrow> never_gone (x_json x) e"
  shows "ends E A (stop fuel x be locks c nm)"
  unfolding stop_def by (intro ends_with_lifecycle; intro fin_intros ends_stop_loop [OF assms])

text \<open>Every command, whatever the fuel.\<close>

lemma ends_command:
  assumes "A NoFuel" and "s_externals s = x" and "i_command i = StopCommand \<Longrightarrow> (\<And>e. E e \<Longrightarrow> never_gone (x_json x) e)"
  shows "ends E A (run_invocation s be i)"
proof -
  have "ends E A (command_body s be i locks)" for locks
  proof (cases "i_command i")
    case StopCommand
    then show ?thesis
      unfolding command_body_def stopPre_def stopPost_def Let_def assms(2)
      by (simp add: ends_locked ends_stop [OF assms(1) assms(3)])
  qed (auto simp: command_body_def with_config_def Let_def startPre_def startPost_def runPre_def runPost_def assms(2)
      intro!: ends_locked fin_intros ends_watching assms(1))
  then show ?thesis unfolding run_invocation_def by (intro fin_intros)
qed

end

end
