(* ===== verification/Runtime.thy ===== *)
theory Runtime
  imports Commands
begin

text \<open>
  What the commands do to the containers of the host. runc is not part of the program: its documented
  behaviour is a hypothesis on the environment, with the set of the containers that exist as a function of
  the calls made so far. Under it, \<open>start\<close> and \<open>stop\<close> refine the two operations of an abstract machine whose
  state is that set: they insert and remove one container and leave every other one alone.
\<close>

section \<open>What runc is asked to do\<close>

datatype runc_request = Detached string | Foreground string | Delete string

fun request_container :: "runc_request \<Rightarrow> string" where
  "request_container (Detached cid) = cid"
| "request_container (Foreground cid) = cid"
| "request_container (Delete cid) = cid"

text \<open>The arguments of a runc command line without the global options of \<open>buildCmd\<close>.\<close>

definition runc_arguments :: "string list \<Rightarrow> string list" where
  "runc_arguments args = dropWhile (\<lambda>a. a = ''--systemd-cgroup'') (drop 2 args)"

fun request_of :: "string list \<Rightarrow> runc_request option" where
  "request_of (sub # rest) =
     (if rest = [] then None
      else if sub = ''run'' then Some (if ''--detach'' \<in> set (butlast rest) then Detached (last rest) else Foreground (last rest))
      else if sub = ''delete'' then Some (Delete (last rest)) else None)"
| "request_of [] = None"

definition requests :: "bosh_env \<Rightarrow> call \<Rightarrow> runc_request option" where
  "requests be x =
     (case x of
        RunCmd k \<Rightarrow>
          if cmd_path k = RuncPath be \<and> take 2 (cmd_args k) = [''--root'', RuncRoot be]
          then request_of (runc_arguments (cmd_args k)) else None
      | _ \<Rightarrow> None)"

text \<open>The file in which runc keeps the state of a container.\<close>

definition state_file :: "bosh_env \<Rightarrow> string \<Rightarrow> string" where
  "state_file be cid = filepath_Join [RuncRoot be, cid, ''state.json'']"

text \<open>A call that can make a container appear or disappear: a request to runc that names it, or the removal
  of its state file or of a directory above that file.\<close>

definition concerns :: "bosh_env \<Rightarrow> string \<Rightarrow> call \<Rightarrow> bool" where
  "concerns be cid x \<longleftrightarrow>
     (case x of
        RemoveAll p \<Rightarrow> prefix (path_elems p) (path_elems (state_file be cid))
      | _ \<Rightarrow> (case requests be x of Some r \<Rightarrow> request_container r = cid | None \<Rightarrow> False))"

section \<open>The behaviour of runc\<close>

text \<open>
  \<open>live h\<close> is the set of the containers that exist after the calls \<open>h\<close>; \<open>own\<close> are the containers that nobody else
  creates or deletes meanwhile. A detached run that succeeds leaves the container in existence, a run in the
  foreground that succeeds has deleted it again, as has a delete; no other call changes whether it exists; and a
  request for the state succeeds only for a container that exists, and fails with the message that bpm looks for
  only for one that does not.
\<close>

definition run_creates :: "bosh_env \<Rightarrow> environment \<Rightarrow> (call list \<Rightarrow> string set) \<Rightarrow> string \<Rightarrow> bool" where
  "run_creates be e live cid \<longleftrightarrow>
     (\<forall>h x. requests be x = Some (Detached cid) \<longrightarrow> r_cmd e h x = CmdOk \<longrightarrow> cid \<in> live (h @ [x]))"

definition run_cleans_up :: "bosh_env \<Rightarrow> environment \<Rightarrow> (call list \<Rightarrow> string set) \<Rightarrow> string \<Rightarrow> bool" where
  "run_cleans_up be e live cid \<longleftrightarrow>
     (\<forall>h x. requests be x = Some (Foreground cid) \<longrightarrow> r_cmd e h x = CmdOk \<longrightarrow> cid \<notin> live (h @ [x]))"

definition delete_removes :: "bosh_env \<Rightarrow> environment \<Rightarrow> (call list \<Rightarrow> string set) \<Rightarrow> string \<Rightarrow> bool" where
  "delete_removes be e live cid \<longleftrightarrow>
     (\<forall>h x. requests be x = Some (Delete cid) \<longrightarrow> r_cmd e h x = CmdOk \<longrightarrow> cid \<notin> live (h @ [x]))"

definition others_keep :: "bosh_env \<Rightarrow> (call list \<Rightarrow> string set) \<Rightarrow> string \<Rightarrow> bool" where
  "others_keep be live cid \<longleftrightarrow> (\<forall>h x. \<not> concerns be cid x \<longrightarrow> (cid \<in> live (h @ [x]) \<longleftrightarrow> cid \<in> live h))"

definition state_tells :: "bosh_env \<Rightarrow> json_codec \<Rightarrow> environment \<Rightarrow> (call list \<Rightarrow> string set) \<Rightarrow> string \<Rightarrow> bool" where
  "state_tells be json e live cid \<longleftrightarrow>
     (\<forall>h sd. let x = state_request (NewRuncClient (RuncPath be) (RuncRoot be) sd) cid in
        (r_cmd e h x = CmdOk \<longrightarrow> cid \<in> live h) \<and>
        (r_cmd e h x \<noteq> CmdOk \<longrightarrow>
           (case decodeMsg json (r_out e h x) of
              Inl _ \<Rightarrow> True | Inr msg \<Rightarrow> strings_Contains msg ''container does not exist'' \<longrightarrow> cid \<notin> live h)))"

definition runc_behaves ::
  "bosh_env \<Rightarrow> json_codec \<Rightarrow> environment \<Rightarrow> (call list \<Rightarrow> string set) \<Rightarrow> string set \<Rightarrow> bool" where
  "runc_behaves be json e live own \<longleftrightarrow>
     foreign_errors json e \<and>
     (\<forall>cid\<in>own. proper_elem cid \<and> run_creates be e live cid \<and> run_cleans_up be e live cid \<and>
        delete_removes be e live cid \<and> others_keep be live cid \<and> state_tells be json e live cid)"

section \<open>The abstract machine\<close>

datatype a_op = AStart string | AStop string

fun a_step :: "a_op \<Rightarrow> string set \<Rightarrow> string set" where
  "a_step (AStart cid) S = insert cid S"
| "a_step (AStop cid) S = S - {cid}"

section \<open>The requests of the client\<close>

abbreviation runc_of :: "bosh_env \<Rightarrow> bool \<Rightarrow> RuncClient" where
  "runc_of be sd \<equiv> NewRuncClient (RuncPath be) (RuncRoot be) sd"

lemma runc_arguments_buildCmd:
  "sub \<noteq> ''--systemd-cgroup'' \<Longrightarrow> runc_arguments (cmd_args (buildCmd c sub extra)) = sub # extra"
  by (simp add: runc_arguments_def buildCmd_def exec_Command_def)

lemma requests_buildCmd:
  assumes "sub \<noteq> ''--systemd-cgroup''"
  shows "requests be (RunCmd (buildCmd (runc_of be sd) sub extra)) = request_of (sub # extra)"
    and "requests be (RunCmd ((buildCmd (runc_of be sd) sub extra)\<lparr>cmd_stdout := out, cmd_stderr := err\<rparr>)) = request_of (sub # extra)"
  using runc_arguments_buildCmd [OF assms, of "runc_of be sd" extra]
  by (simp_all add: requests_def buildCmd_def exec_Command_def NewRuncClient_def)

lemma sets_up_not_concerns: "sets_up x \<Longrightarrow> \<not> concerns be cid x"
  by (cases x) (auto simp: concerns_def requests_def sets_up_def command_of_def)

lemma observes_not_concerns: "observes x \<Longrightarrow> \<not> concerns be cid x"
  by (cases x) (auto simp: concerns_def requests_def observes_def)

lemma clock_not_concerns: "clock_call x \<Longrightarrow> \<not> concerns be cid x"
  by (cases x) (auto simp: concerns_def requests_def clock_call_def)

lemma concerns_run [simp]:
  "concerns be cid (RunCmd k) \<longleftrightarrow> (case requests be (RunCmd k) of Some r \<Rightarrow> request_container r = cid | None \<Rightarrow> False)"
  by (simp add: concerns_def)

lemma not_concerns [simp]: "\<not> concerns be cid (CombinedOutputCmd k)" "\<not> concerns be cid (CloseFd n)"
  by (simp_all add: concerns_def requests_def)

section \<open>Which containers an action concerns\<close>

lemma state_file_eq:
  "is_rooted (env_root be) \<Longrightarrow> proper_elem cid \<Longrightarrow>
    state_file be cid = rooted_path (path_elems (env_root be) @ [''sys'', ''run'', ''bpm-runc'', cid, ''state.json''])"
  using path_elems_rooted_proper [of "env_root be"] by (simp add: state_file_def RuncRoot_eq Join_rooted_list)

lemma concerns_RemoveAll:
  assumes "is_rooted (env_root be)" and "proper_elem cid" and "list_all proper_elem es"
  shows "concerns be cid (RemoveAll (rooted_path (path_elems (env_root be) @ es))) \<longleftrightarrow>
    prefix es [''sys'', ''run'', ''bpm-runc'', cid, ''state.json'']"
  using assms path_elems_rooted_proper [of "env_root be"] by (simp add: concerns_def state_file_eq)

text \<open>The only container that a call can concern.\<close>

definition concerns_only :: "bosh_env \<Rightarrow> string \<Rightarrow> call \<Rightarrow> bool" where
  "concerns_only be cid x \<longleftrightarrow> (\<forall>cid'. proper_elem cid' \<longrightarrow> concerns be cid' x \<longrightarrow> cid' = cid)"

lemma concerns_onlyI: "(\<And>cid'. \<not> concerns be cid' x) \<Longrightarrow> concerns_only be cid x"
  by (simp add: concerns_only_def)

lemma concerns_only_requests [simp]:
  "concerns_only be cid (state_request (runc_of be sd) cid)"
  "concerns_only be cid (RunCmd (buildCmd (runc_of be sd) ''kill'' [cid, s]))"
  "concerns_only be cid (RunCmd (buildCmd (runc_of be sd) ''delete'' [''--force'', cid]))"
  by (simp_all add: concerns_only_def requests_buildCmd)

lemma concerns_only_run:
  "args \<noteq> [] \<Longrightarrow> last args = cid \<Longrightarrow>
    concerns_only be cid (RunCmd ((buildCmd (runc_of be sd) ''run'' args)\<lparr>cmd_stdout := out, cmd_stderr := err\<rparr>))"
  by (simp add: concerns_only_def requests_buildCmd)

text \<open>The client's interface, read with this notion of what concerns a container.\<close>

interpretation fr: runc_api "runc_client_ops j (runc_of be sd)" "concerns_only be"
proof (unfold_locales, goal_cases)
  case (1 cid)
  then show ?case by (simp add: emits_intros)
next
  case (2 cid s)
  then show ?case by (simp add: SignalContainer_def emits_intros)
next
  case (3 cid)
  then show ?case by (simp add: DeleteContainer_def emits_intros)
next
  case (4 cid pidfile b detach out err)
  then show ?case by (auto simp: RunContainer_def Let_def intro!: emits_intros concerns_only_run)
qed (rule runc.state_total runc.signal_total runc.delete_total)+

lemma program_concerns_only: "lifecycle_api (program_lifecycle x be locks sd f) (concerns_only be)"
  unfolding lifecycle_api_def lifecycle_of_sel by (rule fr.runc_api_axioms)

lemma proper_ContainerID [simp]: "proper_elem (cfg_ContainerID c)"
  by (simp add: cfg_ContainerID_eq Encode_proper_elem)

lemma body_concerns_only:
  assumes "well_named c" and "boshEnv c = be" and "body_call (concerns_only be) be c y"
  shows "concerns_only be (cfg_ContainerID c) y"
proof -
  have r: "is_rooted (env_root be)" and n: "proper_elem (jobName c)" "proper_elem (procName c)"
    using assms(1,2) by (auto simp: well_named_def)
  have "concerns_only be cid (RemoveAll (cfg_BundlePath c))" "concerns_only be cid (RemoveAll (Path_External (cfg_PidFile c)))" for cid
    using r n assms(1,2) by (simp_all add: concerns_only_def concerns_RemoveAll cfg_BundlePath_eq cfg_paths External_path_of)
  moreover have "concerns_only be cid (RemoveAll (filepath_Join [RuncRoot be, cid, ''state.json'']))" if "proper_elem cid" for cid
    using r that by (simp add: concerns_only_def state_file_eq concerns_RemoveAll flip: state_file_def)
  moreover have "observes y \<or> sets_up y \<or> clock_call y \<Longrightarrow> concerns_only be cid y" for cid
    using sets_up_not_concerns observes_not_concerns clock_not_concerns by (blast intro: concerns_onlyI)
  ultimately show ?thesis using assms(3) by (auto simp: body_call_def)
qed

lemma emits_concerns_only:
  assumes "well_named c" and "boshEnv c = be"
  shows "emits (concerns_only be (cfg_ContainerID c)) (start x be locks c nm)"
    and "emits (concerns_only be (cfg_ContainerID c)) (stop fuel x be locks c nm)"
    and "emits (concerns_only be (cfg_ContainerID c)) (run x be locks vols es c nm)"
  by (rule emits_mono [OF emits_bodies(1) [OF program_concerns_only]] emits_mono [OF emits_bodies(2) [OF program_concerns_only]]
      emits_mono [OF emits_bodies(3) [OF program_concerns_only]], erule body_concerns_only [OF assms])+

section \<open>Which containers a command acts on\<close>

text \<open>A runc command line, without the global options, that runs, deletes or signals the container \<open>cid\<close>, and a
  call that, if it is a runc command, is one of these on the program's own runc directory, or only asks for a
  state or a list. (A hook is run without arguments.)\<close>

fun runc_line :: "string \<Rightarrow> string list \<Rightarrow> bool" where
  "runc_line cid (sub # rest) \<longleftrightarrow>
     rest \<noteq> [] \<and> (sub \<in> {''run'', ''delete''} \<and> last rest = cid \<or> sub = ''kill'' \<and> hd rest = cid)"
| "runc_line cid [] \<longleftrightarrow> False"

definition acts_only :: "bosh_env \<Rightarrow> string \<Rightarrow> call \<Rightarrow> bool" where
  "acts_only be cid x \<longleftrightarrow>
     (case command_of x of
        None \<Rightarrow> True
      | Some k \<Rightarrow> cmd_path k = RuncPath be \<longrightarrow>
          cmd_args k = [] \<or> observes x \<or>
          take 2 (cmd_args k) = [''--root'', RuncRoot be] \<and> runc_line cid (runc_arguments (cmd_args k)))"

lemma acts_only_buildCmd:
  assumes "sub \<noteq> ''--systemd-cgroup''" and "runc_line cid (sub # extra)"
  shows "acts_only be cid (RunCmd (buildCmd (runc_of be sd) sub extra))"
    and "acts_only be cid (RunCmd ((buildCmd (runc_of be sd) sub extra)\<lparr>cmd_stdout := out, cmd_stderr := err\<rparr>))"
  using runc_arguments_buildCmd [OF assms(1), of "runc_of be sd" extra] assms(2)
  by (simp_all add: acts_only_def command_of_def buildCmd_def exec_Command_def NewRuncClient_def)

lemma acts_only_observes: "observes x \<Longrightarrow> acts_only be cid x"
  by (simp add: acts_only_def split: option.split)

interpretation ao: runc_api "runc_client_ops j (runc_of be sd)" "acts_only be"
proof (unfold_locales, goal_cases)
  case (1 cid)
  then show ?case by (simp add: emits_intros acts_only_observes)
next
  case (2 cid s)
  then show ?case by (simp add: SignalContainer_def emits_intros acts_only_buildCmd)
next
  case (3 cid)
  then show ?case by (simp add: DeleteContainer_def emits_intros acts_only_buildCmd)
next
  case (4 cid pidfile b detach out err)
  then show ?case by (auto simp: RunContainer_def Let_def intro!: emits_intros acts_only_buildCmd)
qed (rule runc.state_total runc.signal_total runc.delete_total)+

lemma program_acts_only: "lifecycle_api (program_lifecycle x be locks sd f) (acts_only be)"
  unfolding lifecycle_api_def lifecycle_of_sel by (rule ao.runc_api_axioms)

lemma body_acts_only: "body_call (acts_only be) be c y \<Longrightarrow> acts_only be (cfg_ContainerID c) y"
  by (cases y) (auto simp: body_call_def acts_only_def sets_up_def clock_call_def command_of_def)

lemma emits_acts_only:
  "emits (acts_only be (cfg_ContainerID c)) (start x be locks c nm)"
  "emits (acts_only be (cfg_ContainerID c)) (stop fuel x be locks c nm)"
  "emits (acts_only be (cfg_ContainerID c)) (run x be locks vols es c nm)"
  by (rule emits_mono [OF emits_bodies(1) [OF program_acts_only]] emits_mono [OF emits_bodies(2) [OF program_acts_only]]
      emits_mono [OF emits_bodies(3) [OF program_acts_only]], erule body_acts_only)+

section \<open>What a command leaves behind\<close>

lemma live_frame:
  assumes "others_keep be live cid" and "list_all (\<lambda>x. \<not> concerns be cid x) tr"
  shows "cid \<in> live (h @ tr) \<longleftrightarrow> cid \<in> live h"
  using assms(2)
proof (induction tr arbitrary: h)
  case (Cons x tr)
  from Cons.prems Cons.IH [of "h @ [x]"] assms(1) show ?case by (simp add: others_keep_def)
qed simp

lemma live_observed:
  "others_keep be live cid \<Longrightarrow> list_all observes tr \<Longrightarrow> cid \<in> live (h @ tr) \<longleftrightarrow> cid \<in> live h"
  by (rule live_frame) (auto simp: list_all_iff dest: observes_not_concerns)

lemma StatProcess_world:
  "snd (StatProcess (lifecycle_of json ord toBytes client a) c w) = record_call (state_request client (cfg_ContainerID c)) w"
  by (auto simp: StatProcess_def ContainerState_op_def io_simps res_sum_def split: option.splits sum.splits)

lemma StatProcess_live:
  assumes "runc_behaves be json (env w) live own" and "cfg_ContainerID c \<in> own"
    and "StatProcess (lifecycle_of json ord toBytes (runc_of be sd) a) c w = (r, w')"
  shows "is_ok r \<Longrightarrow> cfg_ContainerID c \<in> live (calls w')" and "r = Err IsNotExistError \<Longrightarrow> cfg_ContainerID c \<notin> live (calls w')"
proof -
  let ?id = "cfg_ContainerID c" and ?x = "state_request (runc_of be sd) (cfg_ContainerID c)"
  have w': "calls w' = calls w @ [?x]"
    using assms(3) StatProcess_world [of json ord toBytes "runc_of be sd" a c w] by simp
  have b: "foreign_errors json (env w)" "others_keep be live ?id" "state_tells be json (env w) live ?id"
    using assms(1,2) by (auto simp: runc_behaves_def)
  have keep: "?id \<in> live (calls w') \<longleftrightarrow> ?id \<in> live (calls w)" using b(2) w' by (simp add: others_keep_def)
  show "?id \<in> live (calls w')" if "is_ok r"
  proof -
    have "r_cmd (env w) (calls w) ?x = CmdOk"
      using that assms(3)
      by (auto simp: StatProcess_def ContainerState_op_def io_simps split: option.splits)
    with b(3) keep show ?thesis by (auto simp: state_tells_def Let_def)
  qed
  show "?id \<notin> live (calls w')" if "r = Err IsNotExistError"
  proof -
    have "cmd_err (r_cmd (env w) (calls w) ?x) \<noteq> None \<and>
        decodeContainerStateErr (decodeMsg json) (r_out (env w) (calls w) ?x) (the (cmd_err (r_cmd (env w) (calls w) ?x))) = None"
      using that assms(3) b(1)
      by (auto simp: StatProcess_def ContainerState_op_def io_simps foreign_errors_def res_sum_def decodeContainerStateErr_def
          split: option.splits sum.splits if_splits)
    with b(3) keep show ?thesis
      by (auto simp: state_tells_def Let_def decodeContainerStateErr_def split: sum.splits if_splits)
  qed
qed

lemma StartProcess_live:
  assumes "runc_behaves be json e live own" and "cfg_ContainerID c \<in> own"
    and "StartProcess (lifecycle_of json ord toBytes (runc_of be sd) a) c p w = (Ok (), w')" and "env w' = e"
  shows "cfg_ContainerID c \<in> live (calls w')"
proof -
  let ?id = "cfg_ContainerID c"
  from assms(3) obtain out err w1 where
    s: "setupProcess (lifecycle_of json ord toBytes (runc_of be sd) a) c p w = (Ok (out, err), w1)"
    by (auto simp: StartProcess_def bindM_eq_Ok)
  let ?x = "run_command (runc_of be sd) c out err"
  have "RunContainer (runc_of be sd) (Path_External (cfg_PidFile c)) (cfg_BundlePath c) ?id True [Fd out] [Fd err] w1 =
      (case r_cmd (env w1) (calls w1) ?x of CmdOk \<Rightarrow> Ok (0, None)
         | CmdFailed s e \<Rightarrow> Ok (case s of Some n \<Rightarrow> n | None \<Rightarrow> 1, Some e)
         | CmdNotStarted e \<Rightarrow> Abort (Panic ''nil pointer dereference''), record_call ?x w1)"
    using run_container_outcome [of "[Fd err]" "[Fd out]" "runc_of be sd" "cfg_BundlePath c" True "Path_External (cfg_PidFile c)" ?id w1]
    by (simp add: Let_def run_command_def)
  with assms(3) s have ok: "r_cmd (env w1) (calls w1) ?x = CmdOk" "env w1 = env w'"
      "calls w' = calls w1 @ [?x, CloseFd err, CloseFd out]"
    by (auto simp: StartProcess_def bindM_def deferM_def sys_err_def liftM_def res_of_def split: cmd_result.splits option.splits)
  have "requests be ?x = Some (Detached ?id)" by (simp add: run_command_def requests_buildCmd)
  with ok assms have "?id \<in> live (calls w1 @ [?x])" by (auto simp: runc_behaves_def run_creates_def)
  moreover have "?id \<in> live ((calls w1 @ [?x]) @ [CloseFd err, CloseFd out]) \<longleftrightarrow> ?id \<in> live (calls w1 @ [?x])"
    using assms(1,2) by (intro live_frame [where be = be]) (auto simp: runc_behaves_def)
  ultimately show ?thesis using ok(3) by simp
qed

lemma RemoveProcess_live:
  assumes "runc_behaves be json e live own" and "cfg_ContainerID c \<in> own" and "well_named c" and "boshEnv c = be"
    and "RemoveProcess (lifecycle_of json ord toBytes (runc_of be sd) a) c w = (Ok (), w')" and "env w' = e"
  shows "cfg_ContainerID c \<notin> live (calls w')"
proof -
  let ?id = "cfg_ContainerID c" and ?x = "RunCmd (buildCmd (runc_of be sd) ''delete'' [''--force'', cfg_ContainerID c])"
  have r: "is_rooted (env_root be)" and n: "proper_elem (jobName c)" "proper_elem (procName c)"
    using assms(3,4) by (auto simp: well_named_def)
  from assms(5) have ok: "r_cmd (env w') (calls w) ?x = CmdOk"
    by (auto simp: RemoveProcess_def DeleteContainer_def DestroyBundle_def thenM_eq_Ok run_cmd_cases sys_err_def split: option.splits)
  have "requests be ?x = Some (Delete ?id)" by (simp add: requests_buildCmd)
  with ok assms(1,2,6) have "?id \<notin> live (calls w @ [?x])" by (auto simp: runc_behaves_def delete_removes_def)
  moreover have "?id \<in> live ((calls w @ [?x]) @ tl (removal (runc_of be sd) c)) \<longleftrightarrow> ?id \<in> live (calls w @ [?x])"
  proof (rule live_frame [where be = be])
    show "others_keep be live ?id" using assms(1,2) by (auto simp: runc_behaves_def)
    show "list_all (\<lambda>x. \<not> concerns be ?id x) (tl (removal (runc_of be sd) c))"
      using r n assms(3,4)
      by (simp add: removal_def concerns_RemoveAll cfg_BundlePath_eq cfg_paths External_path_of)
  qed
  ultimately show ?thesis using RemoveProcess_Ok [OF assms(5)] by (simp add: removal_def)
qed

lemma current_state_running:
  assumes "current_state be c lc w = (Ok ProcessStateRunning, w')"
  shows "\<exists>q. StatProcess lc c w = (Ok q, w')"
proof -
  from assms obtain a w1 where "attemptM (StatProcess lc c) w = (Ok a, w1)"
    and "(case a of
         Inl err \<Rightarrow> if \<not> lifecycle_IsNotExist err then thenM (forceCleanupBrokenRuncState be c lc) (returnM []) else returnM []
       | Inr process \<Rightarrow> returnM (P_Status process)) w1 = (Ok ProcessStateRunning, w')"
    by (auto simp: current_state_def bindM_eq_Ok)
  then show ?thesis
    by (cases a) (auto simp: attemptM_Inr returnM_def thenM_eq_Ok ProcessStateRunning_def split: if_splits)
qed

lemma start_live:
  assumes "runc_behaves be (x_json x) (env w) live own" and "cfg_ContainerID c \<in> own"
    and "start x be locks c nm w = (Ok (), w')"
  shows "cfg_ContainerID c \<in> live (calls w')"
proof -
  have e: "env w' = env w" using emits_env [OF emits_bodies_anything(1), of x be locks c nm w] assms(3) by simp
  from assms(3) obtain p w1 lc w2 state w3 where
    l: "load_process x c nm w = (Ok p, w1)" and lc: "newRuncLifecycle x be locks w1 = (Ok lc, w2)"
    and cs: "current_state be c lc w2 = (Ok state, w3)"
    and k: "(if state = ProcessStateRunning then returnM ()
       else thenM (remove_stale c lc state)
         (mapErrM (\<lambda>err. Errorf ''failed to start job-process: %s'' [AErr err]) (StartProcess lc c p))) w3 = (Ok (), w')"
    by (auto simp: start_def bindM_eq_Ok)
  obtain sd f where lc': "lc = program_lifecycle x be locks sd f" using newRuncLifecycle_Ok [OF lc] by blast
  have e2: "env w2 = env w"
    using emits_env [OF emits_load_process, of x c nm w] emits_env [OF emits_newRuncLifecycle, of x be locks w1] l lc by simp
  show ?thesis
  proof (cases "state = ProcessStateRunning")
    case True
    with cs obtain q where "StatProcess lc c w2 = (Ok q, w3)" using current_state_running by blast
    moreover have "w' = w3" using k True by (simp add: returnM_def)
    moreover note StatProcess_live(1) [OF assms(1) [folded e2] assms(2)]
    ultimately show ?thesis unfolding lc' by auto
  next
    case False
    with k obtain w4 where "StartProcess lc c p w4 = (Ok (), w')" by (auto simp: thenM_eq_Ok)
    from StartProcess_live [OF assms(1,2) this [unfolded lc'] e] show ?thesis .
  qed
qed

lemma stop_live:
  assumes "runc_behaves be (x_json x) (env w) live own" and "cfg_ContainerID c \<in> own" and "well_named c" and "boshEnv c = be"
    and "stop fuel x be locks c nm w = (Ok (), w')"
  shows "cfg_ContainerID c \<notin> live (calls w')"
proof -
  have e: "env w' = env w" using emits_env [OF emits_bodies_anything(2), of fuel x be locks c nm w] assms(5) by simp
  from assms(5) obtain lc w1 r w2 where
    lc: "newRuncLifecycle x be locks w = (Ok lc, w1)" and r: "attemptM (StatProcess lc c) w1 = (Ok r, w2)"
    and k: "(case r of
         Inl err \<Rightarrow> if lifecycle_IsNotExist err then returnM () else throwM (Errorf ''failed to get job-process status: %s'' [AErr err])
       | Inr _ \<Rightarrow>
           bindM (load_process x c nm) (\<lambda>procCfg.
           thenM (ignoreM (StopProcess fuel lc c procCfg DefaultStopTimeout))
             (mapErrM (\<lambda>err. Errorf ''failed to cleanup job-process: %s'' [AErr err]) (RemoveProcess lc c)))) w2 = (Ok (), w')"
    by (auto simp: stop_def bindM_eq_Ok)
  obtain sd f where lc': "lc = program_lifecycle x be locks sd f" using newRuncLifecycle_Ok [OF lc] by blast
  have e1: "env w1 = env w" using emits_env [OF emits_newRuncLifecycle, of x be locks w] lc by simp
  show ?thesis
  proof (cases r)
    case (Inl err)
    with k have "err = IsNotExistError" "w' = w2"
      by (auto simp: returnM_def throwM_def split: if_splits elim: lifecycle_IsNotExist.elims)
    moreover have "StatProcess lc c w1 = (Err err, w2)" using r Inl by (simp add: attemptM_Inl)
    moreover note StatProcess_live(2) [OF assms(1) [folded e1] assms(2)]
    ultimately show ?thesis unfolding lc' by auto
  next
    case (Inr q)
    with k obtain w4 where "RemoveProcess lc c w4 = (Ok (), w')" by (auto simp: bindM_eq_Ok thenM_eq_Ok)
    from RemoveProcess_live [OF assms(1-4) this [unfolded lc'] e] show ?thesis .
  qed
qed

section \<open>Refinement\<close>

text \<open>The commands that a host is given one after the other.\<close>

datatype bpm_op = StartJob string string | StopJob string string

fun op_config :: "bosh_env \<Rightarrow> bpm_op \<Rightarrow> bpm_config" where
  "op_config be (StartJob job proc) = NewBPMConfig be job proc"
| "op_config be (StopJob job proc) = NewBPMConfig be job proc"

fun perform :: "nat \<Rightarrow> externals \<Rightarrow> bosh_env \<Rightarrow> Handle \<Rightarrow> bpm_op \<Rightarrow> unit io" where
  "perform fuel x be locks (StartJob job proc) = start x be locks (NewBPMConfig be job proc) proc"
| "perform fuel x be locks (StopJob job proc) = stop fuel x be locks (NewBPMConfig be job proc) proc"

fun abstract_op :: "bosh_env \<Rightarrow> bpm_op \<Rightarrow> a_op" where
  "abstract_op be (StartJob job proc) = AStart (cfg_ContainerID (NewBPMConfig be job proc))"
| "abstract_op be (StopJob job proc) = AStop (cfg_ContainerID (NewBPMConfig be job proc))"

definition admissible :: "bosh_env \<Rightarrow> string set \<Rightarrow> bpm_op \<Rightarrow> bool" where
  "admissible be own op \<longleftrightarrow> well_named (op_config be op) \<and> cfg_ContainerID (op_config be op) \<in> own"

lemma boshEnv_op_config [simp]: "boshEnv (op_config be op) = be"
  by (cases op) (simp_all add: NewBPMConfig_def)

lemma other_containers:
  assumes "runc_behaves be json e live own" and "emits (concerns_only be cid) m" and "m w = (r, w')"
    and "cid' \<in> own" and "cid' \<noteq> cid"
  shows "cid' \<in> live (calls w') \<longleftrightarrow> cid' \<in> live (calls w)"
proof -
  have b: "others_keep be live cid'" "proper_elem cid'" using assms(1,4) by (auto simp: runc_behaves_def)
  obtain tr where tr: "calls w' = calls w @ tr" "list_all (concerns_only be cid) tr"
    using emits_trace [OF assms(2,3)] by blast
  from tr(2) have "list_all (\<lambda>x. \<not> concerns be cid' x) tr"
    using b(2) assms(5) by (auto simp: list_all_iff concerns_only_def)
  from live_frame [OF b(1) this] tr(1) show ?thesis by simp
qed

lemma perform_refines:
  assumes "runc_behaves be (x_json x) (env w) live own" and "admissible be own op" and "perform fuel x be locks op w = (Ok (), w')"
  shows "live (calls w') \<inter> own = a_step (abstract_op be op) (live (calls w) \<inter> own)" and "env w' = env w"
proof -
  let ?c = "op_config be op"
  have c: "well_named ?c" "boshEnv ?c = be" "cfg_ContainerID ?c \<in> own" using assms(2) by (simp_all add: admissible_def)
  have em: "emits (concerns_only be (cfg_ContainerID ?c)) (perform fuel x be locks op)"
    using emits_concerns_only [OF c(1,2)] by (cases op) simp_all
  from emits_env [OF em, of w] assms(3) show "env w' = env w" by simp
  have other: "cid' \<in> live (calls w') \<longleftrightarrow> cid' \<in> live (calls w)" if "cid' \<in> own" "cid' \<noteq> cfg_ContainerID ?c" for cid'
    using other_containers [OF assms(1) em assms(3) that] .
  show "live (calls w') \<inter> own = a_step (abstract_op be op) (live (calls w) \<inter> own)"
  proof (cases op)
    case (StartJob job proc)
    with assms(3) c(3) start_live [OF assms(1), of ?c] have "cfg_ContainerID ?c \<in> live (calls w')" by simp
    with other c(3) StartJob show ?thesis by auto
  next
    case (StopJob job proc)
    with assms(3) c stop_live [OF assms(1), of ?c] have "cfg_ContainerID ?c \<notin> live (calls w')" by simp
    with other c(3) StopJob show ?thesis by auto
  qed
qed

text \<open>C2: refinement of the containers of the host. When runc behaves as documented, any sequence of \<open>start\<close> and
  \<open>stop\<close> commands that succeed takes the set of existing containers through exactly the steps of the abstract machine:
  each \<open>start\<close> adds the container of its process, each \<open>stop\<close> removes it, and no other container appears or
  disappears.\<close>

theorem commands_refine_containers:
  assumes "runc_behaves be (x_json x) (env w) live own" and "list_all (admissible be own) ops"
    and "forM ops (perform fuel x be locks) w = (Ok (), w')"
  shows "live (calls w') \<inter> own = fold (\<lambda>op. a_step (abstract_op be op)) ops (live (calls w) \<inter> own)"
  using assms
proof (induction ops arbitrary: w)
  case (Cons op ops)
  then obtain w1 where 1: "perform fuel x be locks op w = (Ok (), w1)" and 2: "forM ops (perform fuel x be locks) w1 = (Ok (), w')"
    by (auto simp: thenM_eq_Ok)
  note step = perform_refines [OF Cons.prems(1) _ 1]
  have "admissible be own op" using Cons.prems(2) by simp
  with step Cons.IH [OF _ _ 2] Cons.prems(1,2) show ?case by simp
qed (simp add: returnM_def)

text \<open>C14: whatever \<open>start\<close>, \<open>stop\<close> or \<open>run\<close> do and however they end, by success, error or panic, every runc command
  they run that does more than ask for a state runs, deletes or signals the container of their own process, and
  every other container exists afterwards exactly when it existed before.\<close>

theorem other_containers_untouched:
  assumes "runc_behaves be (x_json x) (env w) live own" and "well_named c" and "boshEnv c = be"
    and "m \<in> {start x be locks c nm, stop fuel x be locks c nm, run x be locks vols es c nm}"
    and "cid \<in> own" and "cid \<noteq> cfg_ContainerID c"
  shows "list_all (acts_only be (cfg_ContainerID c)) (new_calls m w) \<and>
    (cid \<in> live (calls (snd (m w))) \<longleftrightarrow> cid \<in> live (calls w))"
proof -
  have "emits (concerns_only be (cfg_ContainerID c)) m"
    using assms(4) emits_concerns_only [OF assms(2,3)] by auto
  moreover have "emits (acts_only be (cfg_ContainerID c)) m" using assms(4) emits_acts_only by auto
  ultimately show ?thesis using other_containers [OF assms(1) _ surjective_pairing assms(5,6)] emitsD by blast
qed

section \<open>A host that behaves so\<close>

text \<open>A runc that keeps its containers in the history: every command succeeds, except a request for the state of a
  container that does not exist. The other answers are those of the calm environment, with a cgroup to read.\<close>

definition after_call :: "bosh_env \<Rightarrow> call \<Rightarrow> string set \<Rightarrow> string set" where
  "after_call be x S =
     (case requests be x of
        None \<Rightarrow> S | Some (Detached cid) \<Rightarrow> insert cid S | Some (Foreground cid) \<Rightarrow> S - {cid} | Some (Delete cid) \<Rightarrow> S - {cid})"

definition sim_live :: "bosh_env \<Rightarrow> call list \<Rightarrow> string set" where
  "sim_live be h = fold (after_call be) h {}"

definition sim_missing :: "bosh_env \<Rightarrow> call list \<Rightarrow> call \<Rightarrow> bool" where
  "sim_missing be h x \<longleftrightarrow> (case x of CombinedOutputCmd k \<Rightarrow> last (cmd_args k) \<notin> sim_live be h | _ \<Rightarrow> False)"

definition sim_env :: "bosh_env \<Rightarrow> environment" where
  "sim_env be = calm_env
     \<lparr>r_cmd := (\<lambda>h x. if sim_missing be h x then CmdFailed (Some 1) (Errorf ''exit status 1'' []) else CmdOk),
      r_out := (\<lambda>h x. if sim_missing be h x then ''container does not exist'' else []),
      r_scan := (\<lambda>h x. ([''0::/''], None))\<rparr>"

definition sim_json :: json_codec where
  "sim_json = example_json\<lparr>decodeMsg := Inr\<rparr>"

lemma sim_behaves: "runc_behaves be sim_json (sim_env be) (sim_live be) {cid. proper_elem cid}"
proof -
  have snoc: "sim_live be (h @ [x]) = after_call be x (sim_live be h)" for h x by (simp add: sim_live_def)
  have last: "last (cmd_args (buildCmd c sub (xs @ [cid]))) = cid" for c sub xs cid
    by (simp add: buildCmd_def exec_Command_def)
  have "others_keep be (sim_live be) cid" for cid
    by (auto simp: others_keep_def snoc after_call_def concerns_def requests_def split: option.splits runc_request.splits call.splits)
  moreover have "state_tells be sim_json (sim_env be) (sim_live be) cid" for cid
    using last [of _ "''--log-format''" "[''json'', ''state'']" cid]
    by (simp add: state_tells_def sim_env_def sim_missing_def sim_json_def)
  moreover have "foreign_errors sim_json (sim_env be)"
    by (simp add: foreign_errors_def sim_env_def sim_json_def example_json_def)
  ultimately show ?thesis
    by (simp add: runc_behaves_def run_creates_def run_cleans_up_def delete_removes_def snoc after_call_def)
qed

definition sim_externals :: externals where
  "sim_externals = example_externals\<lparr>x_json := sim_json\<rparr>"

abbreviation sim_be :: bosh_env where "sim_be \<equiv> NewEnv []"
abbreviation sim_cfg :: bpm_config where "sim_cfg \<equiv> example_cfg ''web'' ''web''"

lemmas sim_env_simps = sim_env_def calm_env_def sim_missing_def

lemma sim_load:
  "env w = sim_env be \<Longrightarrow>
    \<exists>w'. load_process sim_externals sim_cfg ''web'' w = (Ok plain_process, w') \<and> env w' = sim_env be \<and> calls w' = calls w @ [ReadFile (cfg_JobConfig sim_cfg)]"
  by (simp add: load_process_def cfg_ParseJobConfig_def ParseJobConfig_def sim_externals_def example_externals_def
      JobConfig_Validate_def plain_process_def example_process_def ProcessConfig_Validate_def processByNameFromJobConfig_def
      sim_env_simps io_simps res_sum_def bind_res_def)

lemma sim_newRuncLifecycle:
  "env w = sim_env be \<Longrightarrow>
    \<exists>w' sd f. newRuncLifecycle sim_externals be locks w = (Ok (program_lifecycle sim_externals be locks sd f), w')"
  by (simp add: newRuncLifecycle_def isRunningSystemd_def sysfeat_Fetch_def swapLimitSupported_def swapLimitSupportedCgroup1_def
      seccompSupported_def sim_env_simps io_simps res_sum_def fi_IsDir_def) blast

lemma sim_prerequisites:
  "env w = sim_env be \<Longrightarrow>
    \<exists>out err w'. CreateJobPrerequisites (program_adapter sha f h cg) sim_cfg plain_process u w = (Ok (out, err), w') \<and> env w' = sim_env be"
  by (simp add: CreateJobPrerequisites_def plain_process_def example_process_def checkDirExists_def createDirs_def createDirFor_def
      chownPaths_def createLogFiles_def OpenAppendChown_def sim_env_simps Let_def io_simps res_sum_def res_of_def
      program_adapter_def NewRuncAdapter_def)

lemma sim_BuildSpec:
  "env w = sim_env be \<Longrightarrow>
    \<exists>spec w'. BuildSpec ord toBytes (program_adapter sha f h (Some cgroupsPathForContainer)) sim_cfg plain_process u w = (Ok spec, w') \<and> env w' = sim_env be"
  by (simp add: BuildSpec_def optional_mount_def checkDirExists_def unrestricted_mounts_def cgroup_options_def limit_options_def
      cgroupsPathForContainer_def SelfCgroupPath_def isRunningSystemd_def
      plain_process_def example_process_def program_adapter_def NewRuncAdapter_def
      bind_res_def sim_env_simps Let_def io_simps res_sum_def fi_IsDir_def)

lemma sim_setup:
  assumes "env w = sim_env be"
  shows "\<exists>out err w'. setupProcess (program_lifecycle sim_externals be' locks sd f) sim_cfg plain_process w = (Ok (out, err), w') \<and>
    env w' = sim_env be"
proof -
  have "strconv_Atoi ''1000'' = Inr 1000" by code_simp
  then obtain u w1 where 1: "Lookup VcapUser w = (Ok u, w1)" "env w1 = sim_env be"
    using assms by (simp add: Lookup_def sim_env_simps io_simps res_sum_def user_of_def bind_res_def)
  obtain out err w2 where 2: "CreateJobPrerequisites (program_adapter (x_sha256 sim_externals) f locks (Some cgroupsPathForContainer))
      sim_cfg plain_process u w1 = (Ok (out, err), w2)" "env w2 = sim_env be"
    using sim_prerequisites [OF 1(2)] by blast
  obtain spec w3 where 3: "BuildSpec (x_ord sim_externals) (x_toBytes sim_externals)
      (program_adapter (x_sha256 sim_externals) f locks (Some cgroupsPathForContainer)) sim_cfg plain_process u w2 = (Ok spec, w3)"
      "env w3 = sim_env be"
    using sim_BuildSpec [OF 2(2)] by blast
  obtain w4 where 4: "CreateBundle (encodeSpec (x_json sim_externals)) (cfg_BundlePath sim_cfg) spec u w3 = (Ok (), w4)" "env w4 = sim_env be"
    using 3(2) by (simp add: CreateBundle_def sim_env_simps io_simps res_of_def res_sum_def)
  have "PHooks plain_process = None" by (simp add: plain_process_def example_process_def)
  then show ?thesis
    using 1(1) 2(1) 3(1) 4 by (simp add: setupProcess_def bindM_Ok thenM_def mapErrM_eq_Ok [THEN iffD2] returnM_def)
qed

lemma sim_start:
  assumes "env w = sim_env be" and "cfg_ContainerID sim_cfg \<notin> sim_live be (calls w)"
  shows "\<exists>w'. start sim_externals be locks sim_cfg ''web'' w = (Ok (), w') \<and> env w' = sim_env be"
proof -
  let ?id = "cfg_ContainerID sim_cfg"
  obtain w1 where 1: "load_process sim_externals sim_cfg ''web'' w = (Ok plain_process, w1)" "env w1 = sim_env be"
    using sim_load [OF assms(1)] by blast
  obtain w2 sd f where 2: "newRuncLifecycle sim_externals be locks w1 = (Ok (program_lifecycle sim_externals be locks sd f), w2)"
    using sim_newRuncLifecycle [OF 1(2)] by blast
  have e2: "env w2 = sim_env be" using emits_env [OF emits_newRuncLifecycle, of sim_externals be locks w1] 2 1(2) by simp
  obtain t1 t2 where t: "calls w1 = calls w @ t1" "calls w2 = calls w1 @ t2" "list_all observes t1" "list_all observes t2"
    using emits_trace [OF emits_load_process 1(1)] emits_trace [OF emits_newRuncLifecycle 2] by blast
  have "others_keep be (sim_live be) ?id" using sim_behaves [of be] by (auto simp: runc_behaves_def)
  from live_observed [OF this, of "t1 @ t2" "calls w"] t assms(2) have "?id \<notin> sim_live be (calls w2)" by simp
  then have "sim_missing be (calls w2) (state_request (runc_of be sd) ?id)"
    by (simp add: sim_missing_def buildCmd_def exec_Command_def)
  then have 3: "current_state be sim_cfg (program_lifecycle sim_externals be locks sd f) w2 =
      (Ok [], record_call (state_request (runc_of be sd) ?id) w2)"
    using e2 by (simp add: current_state_def StatProcess_def ContainerState_op_def io_simps sim_env_def decodeContainerStateErr_def
        sim_externals_def sim_json_def strings_HasPrefix_def)
  obtain out err w4 where 4: "setupProcess (program_lifecycle sim_externals be locks sd f) sim_cfg plain_process
      (record_call (state_request (runc_of be sd) ?id) w2) = (Ok (out, err), w4)" "env w4 = sim_env be"
    using sim_setup [of "record_call (state_request (runc_of be sd) ?id) w2" be be sd f locks] e2 by auto
  have "\<exists>w'. StartProcess (program_lifecycle sim_externals be locks sd f) sim_cfg plain_process
      (record_call (state_request (runc_of be sd) ?id) w2) = (Ok (), w') \<and> env w' = sim_env be"
    using 4 by (simp add: StartProcess_def bindM_Ok RunContainer_def Let_def sys_defs seq_defs res_of_def sim_env_simps)
  with 1(1) 2 3 show ?thesis
    by (simp add: start_def bindM_Ok thenM_def remove_stale_def ProcessStateRunning_def ProcessStateFailed_def returnM_def)
qed

lemma sim_StopProcess:
  assumes "env w = sim_env be" and "cfg_ContainerID c \<in> sim_live be (calls w)"
  shows "\<exists>w'. ignoreM (StopProcess (Suc 0) (program_lifecycle sim_externals be locks sd f) c p t) w = (Ok (), w') \<and> env w' = sim_env be"
proof -
  let ?k = "RunCmd (buildCmd (runc_of be sd) ''kill'' [cfg_ContainerID c, Signal_String (ParseShutdownSignal p)])"
  have "sim_live be (h @ [?k]) = sim_live be h" for h
    by (simp add: sim_live_def after_call_def requests_buildCmd)
  with assms(2) have "\<not> sim_missing be (calls w @ [?k]) (state_request (runc_of be sd) (cfg_ContainerID c))"
    by (simp add: sim_missing_def buildCmd_def exec_Command_def)
  with assms(1) show ?thesis
    by (simp add: StopProcess_def container_stopped_def SignalContainer_def ContainerState_op_def io_simps sim_env_def calm_env_def
        sim_externals_def sim_json_def example_json_def res_sum_def res_of_def ContainerStateStopped_def)
qed

lemma sim_stop:
  assumes "env w = sim_env be" and "cfg_ContainerID sim_cfg \<in> sim_live be (calls w)"
  shows "\<exists>w'. stop 1 sim_externals be locks sim_cfg ''web'' w = (Ok (), w')"
proof -
  let ?id = "cfg_ContainerID sim_cfg"
  obtain w1 sd f where 1: "newRuncLifecycle sim_externals be locks w = (Ok (program_lifecycle sim_externals be locks sd f), w1)"
    using sim_newRuncLifecycle [OF assms(1)] by blast
  have e1: "env w1 = sim_env be" using emits_env [OF emits_newRuncLifecycle, of sim_externals be locks w] 1 assms(1) by simp
  obtain t where t: "calls w1 = calls w @ t" "list_all observes t" using emits_trace [OF emits_newRuncLifecycle 1] by blast
  have keep: "others_keep be (sim_live be) ?id" using sim_behaves [of be] by (auto simp: runc_behaves_def)
  from live_observed [OF this t(2), of "calls w"] t(1) assms(2) have l1: "?id \<in> sim_live be (calls w1)" by simp
  then have "\<not> sim_missing be (calls w1) (state_request (runc_of be sd) ?id)"
    by (simp add: sim_missing_def buildCmd_def exec_Command_def)
  then have "\<exists>q w2. StatProcess (program_lifecycle sim_externals be locks sd f) sim_cfg w1 = (Ok q, w2) \<and> env w2 = sim_env be \<and>
      calls w2 = calls w1 @ [state_request (runc_of be sd) ?id]"
    using e1 by (simp add: StatProcess_def ContainerState_op_def io_simps sim_env_def sim_externals_def sim_json_def example_json_def res_sum_def)
  then obtain q w2 where 2: "StatProcess (program_lifecycle sim_externals be locks sd f) sim_cfg w1 = (Ok q, w2)" "env w2 = sim_env be"
      "calls w2 = calls w1 @ [state_request (runc_of be sd) ?id]" by blast
  obtain w3 where 3: "load_process sim_externals sim_cfg ''web'' w2 = (Ok plain_process, w3)" "env w3 = sim_env be"
      "calls w3 = calls w2 @ [ReadFile (cfg_JobConfig sim_cfg)]"
    using sim_load [OF 2(2)] by blast
  have "?id \<in> sim_live be (calls w3)" using l1 live_observed [OF keep, of "[_, _]" "calls w1"] 2(3) 3(3) by simp
  from sim_StopProcess [OF 3(2) this] obtain w4 where
    4: "ignoreM (StopProcess (Suc 0) (program_lifecycle sim_externals be locks sd f) sim_cfg plain_process DefaultStopTimeout) w3 = (Ok (), w4)"
      "env w4 = sim_env be" by blast
  obtain w5 where "RemoveProcess (program_lifecycle sim_externals be locks sd f) sim_cfg w4 = (Ok (), w5)"
    using 4(2) by (simp add: RemoveProcess_def DeleteContainer_def DestroyBundle_def io_simps sim_env_simps res_of_def)
  with 1 2(1) 3(1) 4(1) show ?thesis
    unfolding stop_def One_nat_def by (simp add: bindM_Ok attemptM_Inr [THEN iffD2] thenM_def)
qed

definition sim_world :: world where
  "sim_world = \<lparr>calls = [], env = sim_env sim_be\<rparr>"

lemma sim_cfg_named: "well_named sim_cfg"
  by (rule example_cfg_well_named) (simp_all add: proper_elem_def)

lemma sim_start_world:
  "\<exists>w'. start sim_externals sim_be (NewHandle ''/l'') sim_cfg ''web'' sim_world = (Ok (), w') \<and> env w' = sim_env sim_be \<and>
     cfg_ContainerID sim_cfg \<in> sim_live sim_be (calls w')"
proof -
  have "env sim_world = sim_env sim_be" "cfg_ContainerID sim_cfg \<notin> sim_live sim_be (calls sim_world)"
    by (simp_all add: sim_world_def sim_live_def)
  from sim_start [OF this] obtain w' where
    s: "start sim_externals sim_be (NewHandle ''/l'') sim_cfg ''web'' sim_world = (Ok (), w')" "env w' = sim_env sim_be" by blast
  have "runc_behaves sim_be (x_json sim_externals) (env sim_world) (sim_live sim_be) {cid. proper_elem cid}"
    using sim_behaves [of sim_be] by (simp add: sim_externals_def sim_world_def)
  from start_live [OF this _ s(1)] s show ?thesis by auto
qed

theorem commands_refine_containers_witness:
  "runc_behaves sim_be (x_json sim_externals) (env sim_world) (sim_live sim_be) {cid. proper_elem cid} \<and>
   (case forM [StartJob ''web'' ''web'', StopJob ''web'' ''web''] (perform 1 sim_externals sim_be (NewHandle ''/l'')) sim_world of
      (Ok _, w') \<Rightarrow> sim_live sim_be (calls w') \<inter> {cid. proper_elem cid} = {}
    | _ \<Rightarrow> False)"
proof -
  let ?ops = "[StartJob ''web'' ''web'', StopJob ''web'' ''web'']"
  have b: "runc_behaves sim_be (x_json sim_externals) (env sim_world) (sim_live sim_be) {cid. proper_elem cid}"
    using sim_behaves [of sim_be] by (simp add: sim_externals_def sim_world_def)
  have a: "list_all (admissible sim_be {cid. proper_elem cid}) ?ops"
    using sim_cfg_named by (simp add: admissible_def example_cfg_def)
  obtain w1 where 1: "start sim_externals sim_be (NewHandle ''/l'') sim_cfg ''web'' sim_world = (Ok (), w1)"
    "env w1 = sim_env sim_be" "cfg_ContainerID sim_cfg \<in> sim_live sim_be (calls w1)"
    using sim_start_world by blast
  obtain w2 where 2: "stop 1 sim_externals sim_be (NewHandle ''/l'') sim_cfg ''web'' w1 = (Ok (), w2)"
    using sim_stop [OF 1(2,3)] by blast
  have f: "forM ?ops (perform 1 sim_externals sim_be (NewHandle ''/l'')) sim_world = (Ok (), w2)"
    using 1(1) 2 by (simp add: thenM_def bindM_Ok returnM_def flip: example_cfg_def)
  have "sim_live sim_be (calls sim_world) = {}" by (simp add: sim_world_def sim_live_def)
  with commands_refine_containers [OF b a f] have "sim_live sim_be (calls w2) \<inter> {cid. proper_elem cid} = {}" by simp
  with b f show ?thesis by simp
qed

theorem other_containers_untouched_witness:
  "runc_behaves sim_be (x_json sim_externals) (env sim_world) (sim_live sim_be) {cid. proper_elem cid} \<and> well_named sim_cfg \<and>
   ''db'' \<notin> sim_live sim_be (calls (snd (start sim_externals sim_be (NewHandle ''/l'') sim_cfg ''web'' sim_world)))"
proof -
  have b: "runc_behaves sim_be (x_json sim_externals) (env sim_world) (sim_live sim_be) {cid. proper_elem cid}"
    using sim_behaves [of sim_be] by (simp add: sim_externals_def sim_world_def)
  have "cfg_ContainerID sim_cfg = ''bpm-web''" by code_simp
  then have "''db'' \<in> sim_live sim_be (calls (snd (start sim_externals sim_be (NewHandle ''/l'') sim_cfg ''web'' sim_world))) \<longleftrightarrow>
      ''db'' \<in> sim_live sim_be (calls sim_world)"
    by (intro other_containers_untouched [OF b sim_cfg_named, THEN conjunct2])
      (auto simp: example_cfg_def NewBPMConfig_def proper_elem_def)
  with b sim_cfg_named show ?thesis by (simp add: sim_world_def sim_live_def)
qed

end
