(* ===== verification/Progress.thy ===== *)
theory Progress
  imports Outcomes Runtime
begin

text \<open>
  That the commands get their work done. \<open>Runtime\<close> says what a command that succeeds has achieved; here the
  commands do succeed, on a host that does its part: a total correctness logic \<open>succeeds e m\<close> (in the environment \<open>e\<close> the
  action \<open>m\<close> returns a value, from every history) with one rule for each construct, what the host has to answer,
  and the lemma that any sequence of \<open>bpm start\<close> and \<open>bpm stop\<close> runs to its end and leaves exactly the
  containers it should.
\<close>

section \<open>Actions that return a value\<close>

named_theorems ok_intros \<open>actions that return a value\<close>

definition succeeds :: "environment \<Rightarrow> 'a io \<Rightarrow> bool" where
  "succeeds e m \<longleftrightarrow> (\<forall>w. env w = e \<longrightarrow> (\<exists>a w'. m w = (Ok a, w') \<and> env w' = e))"

abbreviation no_abort :: "environment \<Rightarrow> 'a io \<Rightarrow> bool" where
  "no_abort e \<equiv> ends (\<lambda>e'. e' = e) (\<lambda>_. False)"

lemma succeedsE:
  assumes "succeeds e m" and "env w = e"
  obtains a w' where "m w = (Ok a, w')" and "env w' = e"
  using assms unfolding succeeds_def by blast

lemma succeeds_returnM [ok_intros]: "succeeds e (returnM a)"
  by (simp add: succeeds_def returnM_def)

lemma succeeds_liftM [ok_intros]: "r = Ok a \<Longrightarrow> succeeds e (liftM r)"
  by (simp add: succeeds_def liftM_def)

lemma succeeds_bindM_result:
  assumes "succeeds e m" and "\<And>w a w'. env w = e \<Longrightarrow> m w = (Ok a, w') \<Longrightarrow> succeeds e (f a)"
  shows "succeeds e (bindM m f)"
  unfolding succeeds_def
proof (intro allI impI)
  fix w :: world
  assume "env w = e"
  with assms(1) obtain a w' where m: "m w = (Ok a, w')" "env w' = e" by (rule succeedsE)
  from assms(2) [OF \<open>env w = e\<close> m(1)] m(2) obtain b w'' where "f a w' = (Ok b, w'')" "env w'' = e" by (rule succeedsE)
  with m show "\<exists>b w''. bindM m f w = (Ok b, w'') \<and> env w'' = e" by (simp add: bindM_Ok)
qed

lemma succeeds_bindM [ok_intros]: "succeeds e m \<Longrightarrow> (\<And>a. succeeds e (f a)) \<Longrightarrow> succeeds e (bindM m f)"
  by (rule succeeds_bindM_result)

lemma succeeds_thenM [ok_intros]: "succeeds e m \<Longrightarrow> succeeds e k \<Longrightarrow> succeeds e (thenM m k)"
  by (simp add: thenM_def succeeds_bindM)

lemma succeeds_mapErrM [ok_intros]: "succeeds e m \<Longrightarrow> succeeds e (mapErrM f m)"
  by (simp add: succeeds_def)

lemma succeeds_handled:
  assumes "no_abort e m"
  shows "succeeds e (attemptM m)" "succeeds e (ignoreM m)"
proof -
  have "\<exists>r w'. m w = (r, w') \<and> env w' = e \<and> (\<forall>x. r \<noteq> Abort x)" if "env w = e" for w
    using endsD [OF assms that, of "fst (m w)" "snd (m w)"] that by (auto simp: res_in_def) (metis surjective_pairing)
  then show "succeeds e (attemptM m)" "succeeds e (ignoreM m)"
    by (fastforce simp: succeeds_def attemptM_def ignoreM_def split: res.split)+
qed

lemma succeeds_attemptM: "succeeds e m \<Longrightarrow> succeeds e (attemptM m)"
  unfolding succeeds_def by (metis attemptM_Inr)

lemma attempt_succeeds:
  assumes "succeeds e m" and "env w = e" and "attemptM m w = (Ok r, w')"
  obtains a where "r = Inr a"
  using assms unfolding succeeds_def attemptM_def by fastforce

text \<open>After an attempt that cannot fail, only the branch without an error matters.\<close>

lemma succeeds_attempt_case:
  assumes "succeeds e m" and "\<And>a. succeeds e (g (Inr a))"
  shows "succeeds e (bindM (attemptM m) g)"
  by (rule succeeds_bindM_result [OF succeeds_attemptM [OF assms(1)]]) (metis attempt_succeeds assms)

lemma succeeds_deferM [ok_intros]:
  assumes "succeeds e m" and "ends (\<lambda>e'. e' = e) (\<lambda>_. True) d"
  shows "succeeds e (deferM m d)"
  unfolding succeeds_def
proof (intro allI impI)
  fix w :: world
  assume "env w = e"
  with assms(1) obtain a w' where m: "m w = (Ok a, w')" "env w' = e" by (rule succeedsE)
  with endsD [OF assms(2) m(2), of "fst (d w')" "snd (d w')"] show "\<exists>a w''. deferM m d w = (Ok a, w'') \<and> env w'' = e"
    by (auto simp: deferM_def split: prod.split)
qed

lemma succeeds_forM [ok_intros]: "(\<And>x. x \<in> set xs \<Longrightarrow> succeeds e (f x)) \<Longrightarrow> succeeds e (forM xs f)"
  by (induction xs) (simp_all add: ok_intros)

lemma succeeds_splits [ok_intros]:
  "(b \<Longrightarrow> succeeds e m) \<Longrightarrow> (\<not> b \<Longrightarrow> succeeds e n) \<Longrightarrow> succeeds e (if b then m else n)"
  "(\<And>x y. p = (x, y) \<Longrightarrow> succeeds e (h x y)) \<Longrightarrow> succeeds e (case p of (x, y) \<Rightarrow> h x y)"
  "(v = None \<Longrightarrow> succeeds e n) \<Longrightarrow> (\<And>x. v = Some x \<Longrightarrow> succeeds e (h1 x)) \<Longrightarrow> succeeds e (case v of None \<Rightarrow> n | Some x \<Rightarrow> h1 x)"
  by (simp_all split: prod.splits option.splits)

lemma succeeds_silent [ok_intros]:
  "succeeds e (sys_flag c)" "succeeds e (sys_do c)" "succeeds e (sys_scan c)" "succeeds e (sys_out c)" "succeeds e (sys_cmd c)"
  by (simp_all add: succeeds_def sys_defs)

section \<open>A host that does its part\<close>

text \<open>System calls succeed, a file is there or is not, the caller is root, the account database has readable
  identifiers, and the kernel's list of cgroups is well formed.\<close>

definition serving :: "environment \<Rightarrow> bool" where
  "serving e \<longleftrightarrow>
     (\<forall>h c. r_err e h c = None \<and> (\<exists>n. r_fd e h c = Inr n) \<and> (\<exists>b. r_bool e h c = Inr b) \<and> (\<exists>s. r_text e h c = Inr s) \<and>
        (\<exists>ss. r_texts e h c = Inr ss) \<and> (\<forall>err. r_stat e h c = Inl err \<longrightarrow> os_IsNotExist err) \<and>
        (\<forall>l\<in>set (fst (r_scan e h c)). 2 \<le> length (strings_Split l CHR '':'')) \<and> snd (r_scan e h c) = None) \<and>
     (\<forall>h. \<exists>u. r_user e h CurrentUser = Inr u \<and> (u_Uid u = ''0'' \<or> u_Gid u = ''0'')) \<and>
     (\<forall>h nm. \<exists>u v. r_user e h (LookupUser nm) = Inr u \<and> user_of u = Ok v)"

text \<open>Programs that bpm runs end successfully, but for what \<open>bpm run\<close> runs in the foreground; and runc need not run a container
  that exists already.\<close>

definition runs_programs :: "bosh_env \<Rightarrow> (call list \<Rightarrow> string set) \<Rightarrow> environment \<Rightarrow> bool" where
  "runs_programs be live e \<longleftrightarrow>
     (\<forall>h k. (\<forall>cid. requests be (RunCmd k) \<noteq> Some (Foreground cid) \<and> (requests be (RunCmd k) = Some (Detached cid) \<longrightarrow> cid \<notin> live h)) \<longrightarrow>
        r_cmd e h (RunCmd k) = CmdOk)"

text \<open>The job's configuration is on disk, is valid and has the process; what the process asks of the host, a memory limit that
  can be read and a persistent disk, is provided.\<close>

definition loads :: "externals \<Rightarrow> environment \<Rightarrow> bpm_config \<Rightarrow> string \<Rightarrow> ProcessConfig \<Rightarrow> bool" where
  "loads x e c nm p \<longleftrightarrow>
     (\<exists>d jc. (\<forall>h. r_text e h (ReadFile (cfg_JobConfig c)) = Inr d) \<and> x_yaml x d = Inr jc \<and>
        JobConfig_Validate jc (boshEnv c) (cfg_DefaultVolumes c) = Ok () \<and> processByNameFromJobConfig jc nm = Ok p)"

definition provided :: "externals \<Rightarrow> environment \<Rightarrow> bpm_config \<Rightarrow> ProcessConfig \<Rightarrow> bool" where
  "provided x e c p \<longleftrightarrow>
     (\<forall>l s. PLimits p = Some l \<longrightarrow> Memory l = Some s \<longrightarrow> (\<exists>b. x_toBytes x s = Inr b)) \<and>
     (PersistentDisk p \<longrightarrow> (\<forall>h. \<exists>fi. r_stat e h (Stat (filepath_Dir (Path_External (cfg_StoreDir c)))) = Inr fi))"

text \<open>No container is found half created, with its first process not yet started.\<close>

definition never_half_created :: "bosh_env \<Rightarrow> json_codec \<Rightarrow> environment \<Rightarrow> string \<Rightarrow> bool" where
  "never_half_created be json e cid \<longleftrightarrow>
     (\<forall>h sd st. r_cmd e h (state_request (runc_of be sd) cid) = CmdOk \<longrightarrow>
        decodeState json (r_out e h (state_request (runc_of be sd) cid)) = Inr st \<longrightarrow> St_Status st \<notin> {''creating'', ''created''})"

text \<open>runc answers a question for the state of a container, or says that there is none.\<close>

definition state_known :: "bosh_env \<Rightarrow> json_codec \<Rightarrow> environment \<Rightarrow> string \<Rightarrow> bool" where
  "state_known be json e cid \<longleftrightarrow>
     (\<forall>h sd. let x = state_request (runc_of be sd) cid in
        (case r_cmd e h x of
           CmdOk \<Rightarrow> (\<exists>st. decodeState json (r_out e h x) = Inr st)
         | _ \<Rightarrow> (\<exists>msg. decodeMsg json (r_out e h x) = Inr msg \<and> strings_Contains msg ''container does not exist'')))"

text \<open>A timer fires within \<open>n\<close> rounds of the wait that started it.\<close>

definition timer_fires :: "nat \<Rightarrow> environment \<Rightarrow> bool" where
  "timer_fires n e \<longleftrightarrow>
     (\<forall>h t tr. list_all (\<lambda>c. \<forall>t. c \<noteq> NewTimer t) tr \<longrightarrow> n \<le> selects tr \<longrightarrow> r_event e (h @ NewTimer t # tr) Select = TimedOut)"

section \<open>The building blocks on such a host\<close>

lemma succeeds_calls [ok_intros]:
  assumes "serving e"
  shows "succeeds e (sys_err c)" "succeeds e (sys_fd c)" "succeeds e (sys_bool c)" "succeeds e (sys_text c)" "succeeds e (sys_texts c)"
  using assms by (auto simp: succeeds_def serving_def sys_defs res_of_def res_sum_def split: option.split sum.split)
    (metis sum.distinct(1))+

lemma succeeds_Lookup [ok_intros]:
  assumes "serving e"
  shows "succeeds e (Lookup nm)"
  unfolding succeeds_def
proof (intro allI impI)
  fix w :: world
  assume e: "env w = e"
  from assms obtain u v where "r_user e (calls w) (LookupUser nm) = Inr u" "user_of u = Ok v" unfolding serving_def by blast
  with e show "\<exists>a w'. Lookup nm w = (Ok a, w') \<and> env w' = e" by (simp add: Lookup_def io_simps)
qed

text \<open>A command other than a run of a container that exists.\<close>

lemma succeeds_run_cmd [ok_intros]:
  "runs_programs be live e \<Longrightarrow> (\<And>cid. requests be (RunCmd k) \<noteq> Some (Detached cid) \<and> requests be (RunCmd k) \<noteq> Some (Foreground cid)) \<Longrightarrow>
    succeeds e (run_cmd k)"
  by (simp add: succeeds_def runs_programs_def run_cmd_cases)

text \<open>A question whether a file is there.\<close>

lemma succeeds_stat_case [ok_intros]:
  assumes "serving e" and "\<And>err. os_IsNotExist err \<Longrightarrow> succeeds e (g (Inl err))" and "\<And>fi. succeeds e (g (Inr fi))"
  shows "succeeds e (bindM (attemptM (sys_stat c)) g)"
proof (rule succeeds_bindM_result)
  show "succeeds e (attemptM (sys_stat c))" by (intro succeeds_handled ends_primitives)
  fix w r w'
  assume "env w = e" and "attemptM (sys_stat c) w = (Ok r, w')"
  with assms(1) have "r = Inl err \<Longrightarrow> os_IsNotExist err" for err
    by (auto simp: serving_def attemptM_Inl sys_stat_def res_sum_def split: sum.splits)
  with assms(2,3) show "succeeds e (g r)" by (cases r) auto
qed

lemma succeeds_locks [ok_intros]:
  assumes "serving e"
  shows "succeeds e (LockJob h job proc)" "succeeds e (LockVolume sha h path)" "fl_locked fl \<Longrightarrow> succeeds e (flock_Unlock fl)"
  unfolding LockJob_def LockVolume_def flock_New_def flock_Lock_def flock_Unlock_def
  by (intro ok_intros assms | simp)+

lemma ends_flock_Unlock: "ends E (\<lambda>_. True) (flock_Unlock fl)"
  unfolding flock_Unlock_def by (intro fin_intros | simp)+

lemma succeeds_host [ok_intros]:
  assumes "serving e"
  shows "succeeds e isRunningSystemd" "succeeds e sysfeat_Fetch" "succeeds e (checkDirExists d)" "succeeds e (MakeShared p)"
    "succeeds e (OpenAppendChown p uid gid m)"
  unfolding isRunningSystemd_def sysfeat_Fetch_def swapLimitSupported_def swapLimitSupportedCgroup1_def swapLimitSupportedCgroup2_def
    seccompSupported_def checkDirExists_def MakeShared_def OpenAppendChown_def Let_def
  by (intro succeeds_attempt_case ok_intros assms | simp add: ok_intros)+

lemma grouping_Ok:
  assumes "\<forall>l\<in>set (fst f). 2 \<le> length (strings_Split l CHR '':'')" and "snd f = None"
  shows "\<exists>g. subsystemGroupingFromProcCgroup f sub = Ok g"
proof -
  have "\<forall>l\<in>set ls. 2 \<le> length (strings_Split l CHR '':'') \<Longrightarrow> \<exists>g. grouping_of_lines ls sub = Ok g" for ls
    by (induction ls) (auto simp: Let_def)
  with assms show ?thesis by (fastforce simp: subsystemGroupingFromProcCgroup_def bind_res_def split: option.split)
qed

lemma succeeds_Setup [ok_intros]:
  assumes "serving e"
  shows "succeeds e Setup"
proof -
  have scan: "succeeds e (bindM (sys_scan (ScanLines f)) (\<lambda>scanned. liftM (subsystemGroupingFromProcCgroup scanned sub)))" for f sub
  proof (rule succeeds_bindM_result [OF succeeds_silent(3)])
    fix w scanned w'
    assume "env w = e" and "sys_scan (ScanLines f) w = (Ok scanned, w')"
    then have "(\<forall>l\<in>set (fst scanned). 2 \<le> length (strings_Split l CHR '':'')) \<and> snd scanned = None"
      using assms by (auto simp: sys_scan_def serving_def)
    with grouping_Ok [of scanned sub] show "succeeds e (liftM (subsystemGroupingFromProcCgroup scanned sub))"
      by (auto intro: ok_intros)
  qed
  have "succeeds e (subsystemGrouping sub)" for sub
    unfolding subsystemGrouping_def
    by (intro succeeds_attempt_case ok_intros assms) (simp, intro ok_intros scan fin_intros)
  moreover have "succeeds e (mountCgroupSubsystem g)" for g
    unfolding mountCgroupSubsystem_def Let_def
    by (intro succeeds_stat_case [OF assms] succeeds_thenM succeeds_attempt_case succeeds_calls assms) (simp_all add: ok_intros assms)
  ultimately show ?thesis
    unfolding Setup_def mountCgroupTmpfsIfNotPresent_def by (intro ok_intros assms)
qed

lemma succeeds_rootPre [ok_intros]:
  assumes "serving e"
  shows "succeeds e (rootPre be)"
  unfolding rootPre_def Let_def
proof (rule succeeds_bindM_result)
  have "\<exists>u. r_user e h CurrentUser = Inr u" for h using assms unfolding serving_def by blast
  then show "succeeds e (mapErrM (\<lambda>err. Errorf ''unable to get current user: %w'' [AWrap err]) (sys_user CurrentUser))"
    by (simp add: succeeds_def sys_user_def) (metis res_sum_Ok)
  fix w usr w'
  assume "env w = e" and "mapErrM (\<lambda>err. Errorf ''unable to get current user: %w'' [AWrap err]) (sys_user CurrentUser) w = (Ok usr, w')"
  then have "r_user e (calls w) CurrentUser = Inr usr" by (simp add: sys_user_def res_sum_Ok)
  moreover from assms obtain u where "r_user e (calls w) CurrentUser = Inr u" "u_Uid u = ''0'' \<or> u_Gid u = ''0''"
    unfolding serving_def by blast
  ultimately have "\<not> (u_Uid usr \<noteq> ''0'' \<and> u_Gid usr \<noteq> ''0'')" by auto
  then show "succeeds e (if u_Uid usr \<noteq> ''0'' \<and> u_Gid usr \<noteq> ''0''
     then throwM (Errorf (''bpm must be run as root. Please run '' @ [CHR 0x27] @ ''sudo -i'' @ [CHR 0x27] @ '' to become the root user.'') [])
     else thenM (sys_err (MkdirAll (LocksPath be) perm_0700))
       (bindM isRunningSystemd (\<lambda>systemd.
        thenM (if \<not> systemd then mapErrM (\<lambda>err. Errorf ''unable to setup cgroups: %w'' [AWrap err]) Setup else returnM ())
        (returnM (NewHandle (LocksPath be))))))"
    by (simp only: if_False) (intro ok_intros assms)
qed

section \<open>Setting a process up\<close>

lemma succeeds_prepare_volumes:
  assumes "serving e"
  shows "succeeds e (prepare_volumes (program_adapter sha f locks cg) vols dirs paths)"
proof (induction vols arbitrary: dirs paths)
  case (Cons vol vols)
  have "succeeds e (makeShared (program_adapter sha f locks cg) v)" for v
    unfolding makeShared_def program_adapter_def NewRuncAdapter_def
    by (simp, intro ok_intros assms ends_flock_Unlock)
  moreover have "succeeds e (if b then sys_err (Chmod (Path vol) perm_0700) else returnM ())" for b by (intro ok_intros assms)
  ultimately show ?case
    unfolding prepare_volumes.simps
    by (intro succeeds_thenM succeeds_splits(1) succeeds_stat_case [OF assms] succeeds_returnM Cons.IH)
      (simp_all add: succeeds_thenM Cons.IH)
qed (simp add: ok_intros)

lemma succeeds_createLogFiles [ok_intros]:
  assumes "serving e"
  shows "succeeds e (createLogFiles c u)"
proof -
  have "succeeds e (open_log_files ps u fs)" for ps fs
  proof (induction ps arbitrary: fs)
    case (Cons p ps)
    then show ?case
      unfolding open_log_files.simps by (intro succeeds_attempt_case ok_intros assms) simp
  qed (simp add: ok_intros)
  then show ?thesis unfolding createLogFiles_def by (intro ok_intros)
qed

lemma succeeds_prerequisites:
  assumes "serving e" and "provided x e c p"
  shows "succeeds e (CreateJobPrerequisites (program_adapter sha f locks cg) c p u)"
proof -
  let ?d = "filepath_Dir (Path_External (cfg_StoreDir c))"
  have disk: "succeeds e (bindM (checkDirExists ?d) (\<lambda>storeExists. if \<not> storeExists then throwM err else returnM r))"
    if "PersistentDisk p" for err and r :: "string list"
  proof (rule succeeds_bindM_result [OF succeeds_host(3) [OF assms(1)]])
    fix w b w'
    assume "env w = e" and "checkDirExists ?d w = (Ok b, w')"
    moreover from that assms(2) obtain fi where "r_stat e (calls w) (Stat ?d) = Inr fi" unfolding provided_def by blast
    ultimately have b by (simp add: checkDirExists_def io_simps)
    then show "succeeds e (if \<not> b then throwM err else returnM r)" by (simp add: ok_intros)
  qed
  have "succeeds e (if PersistentDisk p then bindM (checkDirExists ?d) (\<lambda>storeExists. if \<not> storeExists then throwM err else returnM r) else returnM r')"
    for err and r r' :: "string list" by (intro succeeds_splits(1) disk succeeds_returnM)
  then show ?thesis
    unfolding CreateJobPrerequisites_def createDirs_def createDirFor_def chownPaths_def Let_def
    by (intro succeeds_thenM succeeds_bindM succeeds_splits(2) succeeds_forM succeeds_prepare_volumes succeeds_createLogFiles
        succeeds_calls(1) assms(1))
qed

lemma succeeds_glob:
  "serving e \<Longrightarrow> succeeds e (globExpandVolumes (program_adapter sha f locks cg) vols)"
proof (induction vols)
  case (Cons v vols)
  have "succeeds e (a_glob (program_adapter sha f locks cg) p)" for p
    unfolding program_adapter_def NewRuncAdapter_def by (simp add: ok_intros Cons.prems)
  with Cons show ?case unfolding globExpandVolumes.simps by (intro ok_intros)
qed (simp add: ok_intros)

lemma no_abort_cgroupsPath: "no_abort e (cgroupsPathForContainer cid)"
  unfolding cgroupsPathForContainer_def SelfCgroupPath_def isRunningSystemd_def by (intro fin_intros)

lemma succeeds_BuildSpec:
  assumes "serving e" and "provided x e c p"
  shows "succeeds e (BuildSpec (x_ord x) (x_toBytes x) (program_adapter sha f locks (Some cgroupsPathForContainer)) c p u)"
proof -
  let ?ft = "a_features (program_adapter sha f locks (Some cgroupsPathForContainer))"
  have "\<exists>limits. limit_options (x_toBytes x) ft (PLimits p) = Ok limits" for ft
    using assms(2) by (cases "PLimits p"; cases "Memory (the (PLimits p))") (auto simp: provided_def limit_options_def bind_res_def)
  then obtain limits where limits: "limit_options (x_toBytes x) ?ft (PLimits p) = Ok limits" by blast
  have cg: "succeeds e (cgroup_options (program_adapter sha f locks (Some cgroupsPathForContainer)) c)"
    unfolding cgroup_options_def program_adapter_def NewRuncAdapter_def
    by (simp, intro ok_intros succeeds_handled no_abort_cgroupsPath)
  have um: "succeeds e (unrestricted_mounts (program_adapter sha f locks cg) c p bms)" for cg bms
    unfolding unrestricted_mounts_def by (intro ok_intros succeeds_glob assms(1))
  show ?thesis
    unfolding BuildSpec_def optional_mount_def Let_def by (intro ok_intros assms(1) cg um) (rule limits)
qed

lemma requests_hook: "requests be (RunCmd ((exec_Command p [])\<lparr>cmd_env := en, cmd_stdout := out, cmd_stderr := err\<rparr>)) = None"
  by (simp add: requests_def exec_Command_def)

lemma succeeds_setupProcess:
  assumes "serving e" and "runs_programs be live e" and "provided x e c p"
  shows "succeeds e (setupProcess (program_lifecycle x be' locks sd f) c p)"
  unfolding setupProcess_def lifecycle_of_sel runc_ops_sel CreateBundle_def
  by (intro ok_intros assms succeeds_prerequisites [OF assms(1,3)] succeeds_BuildSpec [OF assms(1,3)] succeeds_run_cmd [OF assms(2)] fin_intros)
    (simp add: requests_hook)

lemma succeeds_RemoveProcess:
  assumes "serving e" and "runs_programs be live e"
  shows "succeeds e (RemoveProcess (program_lifecycle x be locks sd f) c)"
  unfolding RemoveProcess_def lifecycle_of_sel runc_ops_sel DeleteContainer_def DestroyBundle_def
  by (intro ok_intros assms succeeds_run_cmd [OF assms(2)]) (simp add: requests_buildCmd)

lemma load_process_Ok:
  assumes "loads x e c nm p" and "env w = e"
  shows "load_process x c nm w = (Ok p, record_call (ReadFile (cfg_JobConfig c)) w)"
  using assms unfolding loads_def
  by (auto simp: load_process_def cfg_ParseJobConfig_def ParseJobConfig_def io_simps)

lemma succeeds_newRuncLifecycle [ok_intros]: "serving e \<Longrightarrow> succeeds e (newRuncLifecycle x be locks)"
  unfolding newRuncLifecycle_def by (intro ok_intros)

section \<open>Starting\<close>

definition obliging :: "bosh_env \<Rightarrow> externals \<Rightarrow> (call list \<Rightarrow> string set) \<Rightarrow> string set \<Rightarrow> environment \<Rightarrow> bool" where
  "obliging be x live own e \<longleftrightarrow> serving e \<and> runs_programs be live e \<and> runc_behaves be (x_json x) e live own"

lemma obligingD:
  assumes "obliging be x live own e"
  shows "serving e" "runs_programs be live e" "runc_behaves be (x_json x) e live own"
    "cid \<in> own \<Longrightarrow> others_keep be live cid"
  using assms by (simp_all add: obliging_def runc_behaves_def)

lemma StartProcess_runs:
  assumes o: "obliging be x live own e" and own: "cfg_ContainerID c \<in> own" and p: "provided x e c p"
    and w: "env w = e" "cfg_ContainerID c \<notin> live (calls w)"
  shows "\<exists>w'. StartProcess (program_lifecycle x be locks sd f) c p w = (Ok (), w')"
proof -
  let ?lc = "program_lifecycle x be locks sd f" and ?id = "cfg_ContainerID c"
  obtain io w1 where s: "setupProcess ?lc c p w = (Ok io, w1)" "env w1 = e"
    using succeedsE [OF succeeds_setupProcess [OF obligingD(1,2) [OF o] p] w(1)] by metis
  obtain out err where io: "io = (out, err)" by (cases io)
  have "emits sets_up (setupProcess ?lc c p)" by (rule prog.emits_setupProcess)
  from emits_trace [OF this s(1)] obtain tr where tr: "calls w1 = calls w @ tr" "list_all sets_up tr" by blast
  have "list_all (\<lambda>y. \<not> concerns be ?id y) tr" using tr(2) by (auto simp: list_all_iff dest: sets_up_not_concerns)
  from live_frame [OF obligingD(4) [OF o own] this] w(2) tr(1) have "?id \<notin> live (calls w1)" by simp
  then have "r_cmd e (calls w1) (run_command (runc_of be sd) c out err) = CmdOk"
    using obligingD(2) [OF o] by (simp add: runs_programs_def run_command_def requests_buildCmd)
  with s io show ?thesis
    by (simp add: StartProcess_def bindM_Ok RunContainer_def run_command_def Let_def io_simps res_of_def)
qed

lemma RemoveProcess_removes:
  assumes o: "obliging be x live own e" and "cfg_ContainerID c \<in> own" and "well_named c" and "boshEnv c = be" and "env w = e"
  obtains w' where "RemoveProcess (program_lifecycle x be locks sd f) c w = (Ok (), w')" "env w' = e" "cfg_ContainerID c \<notin> live (calls w')"
proof -
  obtain w' where r: "RemoveProcess (program_lifecycle x be locks sd f) c w = (Ok (), w')" "env w' = e"
    using succeedsE [OF succeeds_RemoveProcess [OF obligingD(1,2) [OF o]] assms(5)] by (metis old.unit.exhaust)
  with RemoveProcess_live [OF obligingD(3) [OF o] assms(2-4) r] that show thesis by blast
qed

text \<open>A container whose state runc cannot tell is removed by force.\<close>

lemma broken_state_cleared:
  assumes o: "obliging be x live own e" and c: "cfg_ContainerID c \<in> own" "well_named c" "boshEnv c = be"
    and st: "StatProcess (program_lifecycle x be locks sd f) c w = (Err err, w1)" "\<not> lifecycle_IsNotExist err" and e1: "env w1 = e"
  shows "\<exists>w'. current_state be c (program_lifecycle x be locks sd f) w = (Ok [], w') \<and> env w' = e \<and> cfg_ContainerID c \<notin> live (calls w')"
proof -
  let ?lc = "program_lifecycle x be locks sd f" and ?y = "RemoveAll (filepath_Join [RuncRoot be, cfg_ContainerID c, ''state.json''])"
  have "r_err e (calls w1) ?y = None" using obligingD(1) [OF o] by (simp add: serving_def)
  moreover obtain w' where "RemoveProcess ?lc c (record_call ?y w1) = (Ok (), w')" "env w' = e" "cfg_ContainerID c \<notin> live (calls w')"
    using RemoveProcess_removes [OF o c, of "record_call ?y w1"] e1 unfolding record_call_simps by blast
  ultimately show ?thesis
    using st e1
    by (simp add: current_state_def forceCleanupBrokenRuncState_def Let_def bindM_def thenM_def attemptM_def mapErrM_def sys_err_def returnM_def)
qed

text \<open>What the look at the container before a start leads to: the process runs, or no container is left in the way once
  what is stale has been removed.\<close>

lemma current_state_clears:
  assumes o: "obliging be x live own e" and c: "cfg_ContainerID c \<in> own" "well_named c" "boshEnv c = be"
    and half: "never_half_created be (x_json x) e (cfg_ContainerID c) \<or> cfg_ContainerID c \<notin> live (calls w)" and w: "env w = e"
  obtains (Running) w' where "current_state be c (program_lifecycle x be locks sd f) w = (Ok ProcessStateRunning, w')"
  | (Cleared) state w1 w' where "current_state be c (program_lifecycle x be locks sd f) w = (Ok state, w1)" "state \<noteq> ProcessStateRunning"
      "remove_stale c (program_lifecycle x be locks sd f) state w1 = (Ok (), w')" "env w' = e" "cfg_ContainerID c \<notin> live (calls w')"
proof -
  let ?lc = "program_lifecycle x be locks sd f"
  obtain r w1 where st: "StatProcess ?lc c w = (r, w1)" by (cases "StatProcess ?lc c w")
  have e1: "env w1 = e" using emits_env [OF emits_StatProcess, of "x_json x" "x_ord x" "x_toBytes x" "runc_of be sd"] st w by (metis snd_conv)
  note live = StatProcess_live [OF obligingD(3) [OF o, folded w] c(1) st]
  note remove = RemoveProcess_removes [OF o c]
  show thesis
  proof (cases r)
    case (Ok q)
    then have cs: "current_state be c ?lc w = (Ok (P_Status q), w1)"
      using st by (simp add: current_state_def bindM_def attemptM_def returnM_def)
    have "calls w1 = calls w @ [state_request (runc_of be sd) (cfg_ContainerID c)]"
      using StatProcess_world [of "x_json x" "x_ord x" "x_toBytes x" "runc_of be sd"] st by (metis record_call_simps(1) snd_conv)
    with live(1) Ok live_frame [OF obligingD(4) [OF o c(1)], of "[state_request (runc_of be sd) (cfg_ContainerID c)]" "calls w"]
    have "cfg_ContainerID c \<in> live (calls w)" by simp
    with half have half: "never_half_created be (x_json x) e (cfg_ContainerID c)" by blast
    have "P_Status q = ProcessStateRunning \<or> P_Status q = ProcessStateFailed"
      using st Ok half w
      by (auto simp: StatProcess_def ContainerState_op_def io_simps never_half_created_def newProcessFromContainerState_def
          containerStateToString_def res_sum_def split: option.splits sum.splits if_splits)
    moreover obtain w' where "RemoveProcess ?lc c w1 = (Ok (), w')" "env w' = e" "cfg_ContainerID c \<notin> live (calls w')"
      using remove [OF e1] by blast
    ultimately show thesis
      using that cs by (auto simp: remove_stale_def ProcessStateRunning_def ProcessStateFailed_def)
  next
    case (Err err)
    show thesis
    proof (cases "lifecycle_IsNotExist err")
      case True
      then have "err = IsNotExistError" by (rule lifecycle_IsNotExist.elims)
      then show thesis
        using that(2) [of "[]" w1 w1] live(2) st Err e1
        by (simp add: current_state_def bindM_def attemptM_def returnM_def remove_stale_def ProcessStateRunning_def ProcessStateFailed_def)
    next
      case False
      with broken_state_cleared [OF o c st [unfolded Err] _ e1] obtain w' where
        "current_state be c ?lc w = (Ok [], w')" "env w' = e" "cfg_ContainerID c \<notin> live (calls w')" by blast
      with that(2) [of "[]" w' w'] show thesis
        by (simp add: returnM_def remove_stale_def ProcessStateRunning_def ProcessStateFailed_def)
    qed
  next
    case (Abort a)
    with st show thesis by (auto simp: StatProcess_def ContainerState_op_def io_simps res_sum_def split: option.splits sum.splits)
  qed
qed

lemma start_runs:
  assumes o: "obliging be x live own e" and c: "cfg_ContainerID c \<in> own" "well_named c" "boshEnv c = be"
    and half: "never_half_created be (x_json x) e (cfg_ContainerID c) \<or> cfg_ContainerID c \<notin> live (calls w)" and l: "loads x e c nm p" and p: "provided x e c p" and w: "env w = e"
  shows "\<exists>w'. start x be locks c nm w = (Ok (), w')"
proof -
  let ?w1 = "record_call (ReadFile (cfg_JobConfig c)) w"
  note load = load_process_Ok [OF l w]
  obtain lc w2 where lc: "newRuncLifecycle x be locks ?w1 = (Ok lc, w2)" "env w2 = e"
    using succeedsE [OF succeeds_newRuncLifecycle [OF obligingD(1) [OF o]], of ?w1] w unfolding record_call_simps by blast
  obtain sd f where lc': "lc = program_lifecycle x be locks sd f" using newRuncLifecycle_Ok [OF lc(1)] by blast
  obtain tr where "calls w2 = calls ?w1 @ tr" "list_all observes tr" using emits_trace [OF emits_newRuncLifecycle lc(1)] by blast
  with live_observed [OF obligingD(4) [OF o c(1)], of "ReadFile (cfg_JobConfig c) # tr" "calls w"] half
  have half: "never_half_created be (x_json x) e (cfg_ContainerID c) \<or> cfg_ContainerID c \<notin> live (calls w2)" by simp
  show ?thesis
    using o c half lc(2)
  proof (cases rule: current_state_clears [where locks = locks and sd = sd and f = f])
    case (Running w')
    with load lc show ?thesis by (simp add: start_def bindM_Ok lc' returnM_def)
  next
    case (Cleared state w3 w4)
    obtain w' where "StartProcess lc c p w4 = (Ok (), w')"
      using StartProcess_runs [OF o c(1) p Cleared(4,5)] unfolding lc' by blast
    with load lc Cleared(1-3) show ?thesis by (simp add: start_def bindM_Ok thenM_def lc')
  qed
qed

section \<open>Stopping\<close>

text \<open>While a container exists, the wait never finds it gone.\<close>

lemma container_stopped_live:
  assumes o: "obliging be x live own e" and "cid \<in> own" and w: "env w = e" and "cid \<in> live (calls w)"
  shows "\<exists>b. container_stopped (program_lifecycle x be locks sd f) cid w = (Ok b, record_call (state_request (runc_of be sd) cid) w)"
proof -
  let ?x = "state_request (runc_of be sd) cid"
  have tells: "state_tells be (x_json x) e live cid" using obligingD(3) [OF o] assms(2) by (simp add: runc_behaves_def)
  have "decodeContainerStateErr (decodeMsg (x_json x)) (r_out e (calls w) ?x) err \<noteq> None" if "cmd_err (r_cmd e (calls w) ?x) = Some err" for err
  proof -
    from that have "r_cmd e (calls w) ?x \<noteq> CmdOk" by auto
    with tells assms(4) show ?thesis
      by (auto simp: state_tells_def Let_def decodeContainerStateErr_def split: sum.splits)
  qed
  then show ?thesis
    using w by (auto simp: container_stopped_def ContainerState_op_def io_simps res_sum_def split: option.splits sum.splits)
qed

definition quiet_call :: "call \<Rightarrow> bool" where
  "quiet_call c \<longleftrightarrow> (\<forall>t. c \<noteq> NewTimer t)"

lemma timer_firesD:
  "timer_fires n e \<Longrightarrow> calls w = h @ NewTimer t # tr \<Longrightarrow> list_all quiet_call tr \<Longrightarrow> n \<le> selects tr \<Longrightarrow>
    r_event e (calls w) Select = TimedOut"
  by (simp add: timer_fires_def quiet_call_def [abs_def])

lemma stop_loop_returns:
  assumes o: "obliging be x live own e" and own: "cid \<in> own" and t: "timer_fires n e"
  shows "env w = e \<Longrightarrow> cid \<in> live (calls w) \<Longrightarrow> calls w = h @ NewTimer t # tr \<Longrightarrow> list_all quiet_call tr \<Longrightarrow>
    0 < fuel \<Longrightarrow> n < selects tr + fuel \<Longrightarrow> \<exists>r w'. stop_loop fuel (program_lifecycle x be locks sd f) cid w = (r, w') \<and> (\<forall>a. r \<noteq> Abort a)"
proof (induction fuel arbitrary: w tr)
  case (Suc fuel)
  let ?lc = "program_lifecycle x be locks sd f" and ?x = "state_request (runc_of be sd) cid"
  show ?case
  proof (cases "r_event (env w) (calls w) Select = TimedOut")
    case True
    from lc.stop_loop_timeout [OF this] show ?thesis by (metis res.distinct(5))
  next
    case False
    have keep: "cid \<in> live (calls (record_call Select w))" "cid \<in> live (calls (record_call ?x (record_call Select w)))"
      using live_frame [OF obligingD(4) [OF o own], of "[Select]" "calls w"] live_frame [OF obligingD(4) [OF o own], of "[Select, ?x]" "calls w"] Suc.prems(2)
      by (simp_all add: clock_not_concerns clock_call_def)
    obtain b where b: "container_stopped ?lc cid (record_call Select w) = (Ok b, record_call ?x (record_call Select w))"
      using container_stopped_live [where w = "record_call Select w" and sd = sd and f = f and locks = locks, OF o own] Suc.prems(1) keep(1) by auto
    have "selects tr < n" using timer_firesD [OF t Suc.prems(3,4)] False Suc.prems(1) by (simp add: not_le [symmetric]) blast
    show ?thesis
    proof (cases b)
      case False
      have "\<exists>r w'. stop_loop fuel ?lc cid (record_call ?x (record_call Select w)) = (r, w') \<and> (\<forall>a. r \<noteq> Abort a)"
        using Suc.prems keep(2) \<open>selects tr < n\<close>
        by (intro Suc.IH [where tr = "tr @ [Select, ?x]"]) (simp_all add: quiet_call_def selects_def)
      with \<open>r_event (env w) (calls w) Select \<noteq> TimedOut\<close> b False show ?thesis
        by (simp add: lc.stop_loop_tick del: stop_loop.simps)
    qed (use False b in \<open>simp add: lc.stop_loop_tick del: stop_loop.simps\<close>)
  qed
qed simp

lemma StopProcess_returns:
  assumes o: "obliging be x live own e" and own: "cfg_ContainerID c \<in> own" and t: "timer_fires n e" "n < fuel"
    and w: "env w = e" "cfg_ContainerID c \<in> live (calls w)"
  shows "\<exists>w'. ignoreM (StopProcess fuel (program_lifecycle x be locks sd f) c p tm) w = (Ok (), w') \<and> env w' = e"
proof -
  let ?lc = "program_lifecycle x be locks sd f" and ?id = "cfg_ContainerID c"
  let ?k = "RunCmd (buildCmd (runc_of be sd) ''kill'' [?id, Signal_String (ParseShutdownSignal p)])" and ?x = "state_request (runc_of be sd) ?id"
  note frame = live_frame [OF obligingD(4) [OF o own], where h = "calls w"]
  have sent: "SignalContainer (runc_of be sd) ?id (ParseShutdownSignal p) w = (Ok (), record_call ?k w)"
    using obligingD(2) [OF o] w(1) by (simp add: SignalContainer_def run_cmd_cases runs_programs_def requests_buildCmd)
  have "?id \<in> live (calls (record_call ?k w))" using frame [of "[?k]"] w(2) by (simp add: requests_buildCmd)
  then obtain b where b: "container_stopped ?lc ?id (record_call ?k w) = (Ok b, record_call ?x (record_call ?k w))"
    using container_stopped_live [where w = "record_call ?k w" and sd = sd and f = f and locks = locks, OF o own] w(1) by auto
  let ?w3 = "record_call (NewTicker ContainerStatePollInterval) (record_call (NewTimer tm) (record_call ?x (record_call ?k w)))"
  have "?id \<in> live (calls ?w3)"
    using frame [of "[?k, ?x, NewTimer tm, NewTicker ContainerStatePollInterval]"] w(2)
    by (simp add: requests_buildCmd clock_not_concerns clock_call_def)
  then obtain r w4 where l: "stop_loop fuel ?lc ?id ?w3 = (r, w4)" "\<forall>a. r \<noteq> Abort a"
    using stop_loop_returns [where w = ?w3 and h = "calls w @ [?k, ?x]" and t = tm and tr = "[NewTicker ContainerStatePollInterval]"
        and fuel = fuel and sd = sd and f = f and locks = locks, OF o own t(1)] t(2) w(1)
    by (auto simp: quiet_call_def selects_def)
  have "env (snd (StopProcess fuel ?lc c p tm w)) = e"
    using emits_env [OF lc.emits_StopProcess, of fuel "x_json x" "x_ord x" "x_toBytes x" "runc_of be sd"] w(1) by auto
  moreover have "\<exists>r w'. StopProcess fuel ?lc c p tm w = (r, w') \<and> (\<forall>a. r \<noteq> Abort a)"
    using sent b l by (auto simp: StopProcess_def thenM_def bindM_Ok sys_do_def deferM_def returnM_def)
  ultimately show ?thesis by (auto simp: ignoreM_def split: res.split)
qed

lemma stop_runs:
  assumes o: "obliging be x live own e" and c: "cfg_ContainerID c \<in> own" "well_named c" "boshEnv c = be"
    and known: "state_known be (x_json x) e (cfg_ContainerID c)" and l: "loads x e c nm p"
    and t: "timer_fires n e" "n < fuel" and w: "env w = e"
  shows "\<exists>w'. stop fuel x be locks c nm w = (Ok (), w')"
proof -
  let ?id = "cfg_ContainerID c"
  obtain lc w1 where lc: "newRuncLifecycle x be locks w = (Ok lc, w1)" "env w1 = e"
    using succeedsE [OF succeeds_newRuncLifecycle [OF obligingD(1) [OF o]] w] by blast
  obtain sd f where lc': "lc = program_lifecycle x be locks sd f" using newRuncLifecycle_Ok [OF lc(1)] by blast
  let ?x = "state_request (runc_of be sd) ?id"
  have stat: "(\<exists>q. StatProcess lc c w1 = (Ok q, record_call ?x w1)) \<or> StatProcess lc c w1 = (Err IsNotExistError, record_call ?x w1)"
    using known [unfolded state_known_def Let_def, rule_format, of "calls w1" sd] lc(2)
    by (auto simp: lc' StatProcess_def ContainerState_op_def decodeContainerStateErr_def io_simps split: cmd_result.splits)
  show ?thesis
  proof (cases "\<exists>q. StatProcess lc c w1 = (Ok q, record_call ?x w1)")
    case True
    then obtain q where q: "StatProcess lc c w1 = (Ok q, record_call ?x w1)" ..
    let ?w3 = "record_call (ReadFile (cfg_JobConfig c)) (record_call ?x w1)"
    have load: "load_process x c nm (record_call ?x w1) = (Ok p, ?w3)" by (rule load_process_Ok [OF l]) (simp add: lc(2))
    have "?id \<in> live (calls (record_call ?x w1))"
      using StatProcess_live(1) [OF _ c(1) q [unfolded lc']] obligingD(3) [OF o] lc(2) by simp
    then have "?id \<in> live (calls ?w3)"
      using live_frame [OF obligingD(4) [OF o c(1)], of "[ReadFile (cfg_JobConfig c)]" "calls (record_call ?x w1)"]
      by (simp add: observes_not_concerns)
    then obtain w4 where s: "ignoreM (StopProcess fuel lc c p DefaultStopTimeout) ?w3 = (Ok (), w4)" "env w4 = e"
      using StopProcess_returns [OF o c(1) t, where w = ?w3 and sd = sd and f = f and locks = locks and p = p and tm = DefaultStopTimeout]
        lc(2) unfolding lc' by auto
    obtain w' where "RemoveProcess lc c w4 = (Ok (), w')" using RemoveProcess_removes [where locks = locks and sd = sd and f = f, OF o c s(2)] unfolding lc' by blast
    with lc q load s show ?thesis by (simp add: stop_def bindM_Ok thenM_def attemptM_def)
  next
    case False
    with stat lc show ?thesis by (auto simp: stop_def bindM_Ok attemptM_def returnM_def)
  qed
qed

section \<open>Whole invocations\<close>

fun op_invocation :: "bpm_op \<Rightarrow> invocation" where
  "op_invocation (StartJob job proc) = \<lparr>i_command = StartCommand, i_process = proc, i_version = False, i_args = [job]\<rparr>"
| "op_invocation (StopJob job proc) = \<lparr>i_command = StopCommand, i_process = proc, i_version = False, i_args = [job]\<rparr>"

fun op_process :: "bpm_op \<Rightarrow> string" where
  "op_process (StartJob job proc) = proc"
| "op_process (StopJob job proc) = proc"

text \<open>What a command needs, given the containers that exist: a container in the way of a start may be running or have ended, but must
  not be half created.\<close>

definition ready :: "bosh_env \<Rightarrow> externals \<Rightarrow> environment \<Rightarrow> string set \<Rightarrow> bpm_op \<Rightarrow> bool" where
  "ready be x e S op \<longleftrightarrow>
     (let c = op_config be op in
      case op of
        StartJob job proc \<Rightarrow> (\<exists>p. loads x e c proc p \<and> provided x e c p) \<and>
          (never_half_created be (x_json x) e (cfg_ContainerID c) \<or> cfg_ContainerID c \<notin> S)
      | StopJob job proc \<Rightarrow> (\<exists>p. loads x e c proc p) \<and> state_known be (x_json x) e (cfg_ContainerID c))"

fun all_ready :: "bosh_env \<Rightarrow> externals \<Rightarrow> environment \<Rightarrow> string set \<Rightarrow> bpm_op list \<Rightarrow> bool" where
  "all_ready be x e S [] \<longleftrightarrow> True"
| "all_ready be x e S (op # ops) \<longleftrightarrow> ready be x e S op \<and> all_ready be x e (a_step (abstract_op be op) S) ops"

lemma perform_runs:
  assumes "obliging be x live own e" and "admissible be own op" and "ready be x e (live (calls w) \<inter> own) op"
    and "timer_fires n e" "n < fuel" and "env w = e"
  shows "\<exists>w'. perform fuel x be locks op w = (Ok (), w')"
  using assms start_runs [OF assms(1), of "op_config be op"] stop_runs [OF assms(1), of "op_config be op"] boshEnv_op_config [of be op]
  by (cases op) (auto simp: admissible_def ready_def Let_def)

text \<open>An action between whose calls no container comes or goes.\<close>

definition spares :: "bosh_env \<Rightarrow> call \<Rightarrow> bool" where
  "spares be y \<longleftrightarrow> (\<forall>cid. \<not> concerns be cid y)"

lemma spares_calls:
  "prepares y \<Longrightarrow> spares be y" "cgroup_call y \<Longrightarrow> spares be y" "observes y \<Longrightarrow> spares be y"
proof -
  show "prepares y \<Longrightarrow> spares be y" "cgroup_call y \<Longrightarrow> spares be y"
    by (cases y; simp add: spares_def prepares_def cgroup_call_def concerns_def requests_def)+
  show "observes y \<Longrightarrow> spares be y" by (simp add: spares_def observes_not_concerns)
qed

lemma emits_spares: "emits (spares be) (rootPre be')" "emits (spares be) (lifecyclePre be' locks pf args)"
  "emits (spares be) (releaseLifecycleLock lock)"
proof -
  have "emits (spares be) Setup" by (rule emits_mono [OF emits_Setup spares_calls(2)])
  then show "emits (spares be) (rootPre be')"
    unfolding rootPre_def Let_def by (intro emits_intros) (simp_all add: spares_calls)
  show "emits (spares be) (lifecyclePre be' locks pf args)" by (rule emits_mono [OF emits_lifecyclePre spares_calls(1)])
  show "emits (spares be) (releaseLifecycleLock lock)"
    unfolding releaseLifecycleLock_def by (intro emits_intros) (simp add: spares_calls)
qed

lemma live_spared:
  assumes "obliging be x live own e" and "emits (spares be) m" and "m w = (r, w')"
  shows "live (calls w') \<inter> own = live (calls w) \<inter> own"
proof -
  obtain tr where tr: "calls w' = calls w @ tr" "list_all (spares be) tr" using emits_trace [OF assms(2,3)] by blast
  have "cid \<in> live (calls w') \<longleftrightarrow> cid \<in> live (calls w)" if "cid \<in> own" for cid
    unfolding tr(1) using tr(2) by (intro live_frame [OF obligingD(4) [OF assms(1) that]]) (auto simp: list_all_iff spares_def)
  then show ?thesis by blast
qed

lemma succeeds_lifecyclePre:
  assumes "serving e" and "validateInput be pf args = Ok v"
  shows "succeeds e (lifecyclePre be locks pf args)"
  unfolding lifecyclePre_def setupBpmLogs_def acquireLifecycleLock_def by (intro ok_intros assms(1)) (rule assms(2))

lemma validateInput_op:
  "op_process op \<noteq> [] \<Longrightarrow> validateInput be (op_process op) (i_args (op_invocation op)) = Ok (op_config be op, op_process op)"
  by (cases op) (simp_all add: validateInput_def Let_def)

lemma run_invocation_op:
  "run_invocation s be (op_invocation op) =
    bindM (rootPre be) (\<lambda>locks. bindM (lifecyclePre be locks (op_process op) (i_args (op_invocation op))) (\<lambda>(cfg, nm, lock).
      thenM (case op of StartJob _ _ \<Rightarrow> start (s_externals s) be locks cfg nm | StopJob _ _ \<Rightarrow> stop (s_fuel s) (s_externals s) be locks cfg nm)
        (releaseLifecycleLock lock)))"
  by (cases op) (simp_all add: run_invocation_def persistentPre_def command_body_def [abs_def] startPre_def stopPre_def startPost_def stopPost_def)

lemma invocation_runs:
  assumes o: "obliging be (s_externals s) live own e" and a: "admissible be own op" and r: "ready be (s_externals s) e (live (calls w) \<inter> own) op"
    and t: "timer_fires n e" "n < s_fuel s" and w: "env w = e"
  shows "\<exists>w'. run_invocation s be (op_invocation op) w = (Ok (), w') \<and> env w' = e \<and>
    live (calls w') \<inter> own = a_step (abstract_op be op) (live (calls w) \<inter> own)"
proof -
  let ?x = "s_externals s"
  have "op_process op \<noteq> []" using a by (cases op) (auto simp: admissible_def well_named_def NewBPMConfig_def proper_elem_def)
  note v0 = validateInput_op [OF this, of be]
  obtain locks w1 where 1: "rootPre be w = (Ok locks, w1)" "env w1 = e"
    using succeedsE [OF succeeds_rootPre [OF obligingD(1) [OF o]] w] by blast
  obtain y w2 where 2: "lifecyclePre be locks (op_process op) (i_args (op_invocation op)) w1 = (Ok y, w2)" "env w2 = e"
    using succeedsE [OF succeeds_lifecyclePre [OF obligingD(1) [OF o] v0] 1(2)] by blast
  obtain cfg nm lock where y: "y = (cfg, nm, lock)" by (cases y)
  have v: "cfg = op_config be op" "nm = op_process op" "fl_locked lock"
    using lifecyclePre_Ok [OF 2(1) [unfolded y]] v0 by auto
  have same: "live (calls w2) \<inter> own = live (calls w) \<inter> own"
    using live_spared [OF o emits_spares(1) 1(1)] live_spared [OF o emits_spares(2) 2(1)] by simp
  obtain w3 where 3: "perform (s_fuel s) ?x be locks op w2 = (Ok (), w3)" using perform_runs [OF o a r [folded same] t 2(2)] by blast
  note step = perform_refines [OF obligingD(3) [OF o, folded 2(2)] a 3]
  obtain w4 where 4: "releaseLifecycleLock lock w3 = (Ok (), w4)" "env w4 = e"
    using v(3) obligingD(1) [OF o] step(2) 2(2)
    by (simp add: releaseLifecycleLock_def flock_Unlock_def io_simps serving_def)
  have "live (calls w4) \<inter> own = live (calls w3) \<inter> own"
    by (rule live_spared [OF o emits_spares(3) 4(1)])
  also have "\<dots> = a_step (abstract_op be op) (live (calls w2) \<inter> own)" by (rule step(1))
  also note same
  finally show ?thesis
    using 1 2 3 4 v unfolding run_invocation_op by (cases op) (simp_all add: bindM_Ok thenM_def y)
qed

section \<open>The program, run again and again\<close>

text \<open>The status that a process of the program ends with; Go's is 2 after a panic.\<close>

fun process_status :: "unit res \<Rightarrow> int" where
  "process_status (Abort (Exit n)) = n"
| "process_status (Abort (Panic _)) = 2"
| "process_status _ = 0"

text \<open>One process of the program after the other, each from its command line, with the statuses.\<close>

fun session :: "setting \<Rightarrow> command_line list \<Rightarrow> world \<Rightarrow> int list \<times> world" where
  "session s [] w = ([], w)"
| "session s (l # ls) w = (let (r, w1) = main s l w; (ns, w2) = session s ls w1 in (process_status r # ns, w2))"

fun op_line :: "bpm_op \<Rightarrow> command_line" where
  "op_line (StartJob job proc) = \<lparr>l_command = C_start, l_flags = [(''process'', FString proc)], l_args = [job]\<rparr>"
| "op_line (StopJob job proc) = \<lparr>l_command = C_stop, l_flags = [(''process'', FString proc)], l_args = [job]\<rparr>"

lemma op_line_invocation:
  "\<exists>g. apply_flags (Flags (command_table s be (l_command (op_line op))) @ root_flags) (l_flags (op_line op)) (init_globals s be) = Ok g \<and>
     invocation_of (op_line op) g = op_invocation op"
  by (cases op) (simp_all add: startCommand_def stopCommand_def processFlag_def StringVarP_def invocation_of_def init_globals_sel)

lemma main_runs:
  assumes o: "obliging be (s_externals s) live own e" and a: "admissible be own op" and r: "ready be (s_externals s) e (live (calls w) \<inter> own) op"
    and t: "timer_fires n e" "n < s_fuel s" and rt: "r_out e (calls w) (Getenv ''BPM_BOSH_ROOT'') = rt" "be = NewEnv rt" and w: "env w = e"
  shows "\<exists>w'. main s (op_line op) w = (Abort (Exit 0), w') \<and> env w' = e \<and>
    live (calls w') \<inter> own = a_step (abstract_op be op) (live (calls w) \<inter> own)"
proof -
  let ?w = "record_call (Getenv ''BPM_BOSH_ROOT'') w"
  have same: "live (calls ?w) \<inter> own = live (calls w) \<inter> own"
    by (rule live_spared [OF o emits_sys(12) [of "spares be", OF spares_calls(3)], of "Getenv ''BPM_BOSH_ROOT''" w]) (simp_all add: sys_str_def)
  obtain w' where 1: "run_invocation s be (op_invocation op) ?w = (Ok (), w')" "env w' = e"
      "live (calls w') \<inter> own = a_step (abstract_op be op) (live (calls w) \<inter> own)"
    using invocation_runs [OF o a r [folded same] t, of ] w same by auto
  obtain g where "apply_flags (Flags (command_table s be (l_command (op_line op))) @ root_flags) (l_flags (op_line op)) (init_globals s be) = Ok g"
      "invocation_of (op_line op) g = op_invocation op" using op_line_invocation by blast
  with 1 main_succeeds [of be w s "op_line op" g w'] rt w show ?thesis by simp
qed

text \<open>The program gets done what it is asked for: every process in a sequence of \<open>bpm start\<close> and \<open>bpm stop\<close> command lines exits with
  status 0, and the containers afterwards are exactly those that the abstract machine computes.\<close>

lemma session_runs:
  assumes "obliging be (s_externals s) live own (env w)" and "list_all (admissible be own) ops"
    and "all_ready be (s_externals s) (env w) (live (calls w) \<inter> own) ops" and "timer_fires n (env w)" and "n < s_fuel s"
    and "\<forall>h. r_out (env w) h (Getenv ''BPM_BOSH_ROOT'') = rt" and "be = NewEnv rt"
  shows "\<exists>w'. session s (map op_line ops) w = (replicate (length ops) 0, w') \<and>
    live (calls w') \<inter> own = fold (\<lambda>op. a_step (abstract_op be op)) ops (live (calls w) \<inter> own)"
  using assms
proof (induction ops arbitrary: w)
  case (Cons op ops)
  from main_runs [where w = w and op = op, OF Cons.prems(1) _ _ Cons.prems(4,5) _ Cons.prems(7)] Cons.prems(2,3,6) obtain w1 where
    1: "main s (op_line op) w = (Abort (Exit 0), w1)" "env w1 = env w"
      "live (calls w1) \<inter> own = a_step (abstract_op be op) (live (calls w) \<inter> own)" by auto
  with Cons.IH [of w1] Cons.prems show ?case by auto
qed simp

section \<open>A host that does its part exists\<close>

text \<open>The simulated runc, on a host where the caller is root.\<close>

definition kind_env :: "bosh_env \<Rightarrow> environment" where
  "kind_env be = (sim_env be)
     \<lparr>r_user := (\<lambda>h c. Inr (if c = CurrentUser then \<lparr>u_Uid = ''0'', u_Gid = ''0'', u_Username = ''root''\<rparr>
        else \<lparr>u_Uid = ''1000'', u_Gid = ''1000'', u_Username = ''vcap''\<rparr>))\<rparr>"

definition kind_setting :: setting where
  "kind_setting = \<lparr>s_externals = sim_externals, s_version = ''1'', s_usage = (\<lambda>c. c), s_fuel = 1\<rparr>"

definition kind_world :: world where
  "kind_world = \<lparr>calls = [], env = kind_env sim_be\<rparr>"

lemma kind_obliging: "obliging be sim_externals (sim_live be) {cid. proper_elem cid} (kind_env be)"
proof -
  have "strconv_Atoi ''1000'' = Inr 1000" by code_simp
  then have "serving (kind_env be)"
    by (auto simp: serving_def kind_env_def sim_env_def calm_env_def user_of_def bind_res_def)
  moreover have "runs_programs be (sim_live be) (kind_env be)"
    by (simp add: runs_programs_def kind_env_def sim_env_def sim_missing_def)
  moreover have "runc_behaves be sim_json (kind_env be) (sim_live be) {cid. proper_elem cid}"
    using sim_behaves [of be]
    by (simp add: runc_behaves_def run_creates_def run_cleans_up_def delete_removes_def state_tells_def foreign_errors_def kind_env_def)
  ultimately show ?thesis by (simp add: obliging_def sim_externals_def)
qed

lemma kind_ready:
  "ready sim_be sim_externals (kind_env sim_be) S (StartJob ''web'' ''web'')" "ready sim_be sim_externals (kind_env sim_be) S (StopJob ''web'' ''web'')"
proof -
  have "loads sim_externals (kind_env sim_be) sim_cfg ''web'' plain_process" "provided sim_externals (kind_env sim_be) sim_cfg plain_process"
    by (simp_all add: loads_def provided_def kind_env_def sim_env_def calm_env_def sim_externals_def example_externals_def JobConfig_Validate_def
        plain_process_def example_process_def ProcessConfig_Validate_def processByNameFromJobConfig_def bind_res_def)
  moreover have "never_half_created sim_be (x_json sim_externals) (kind_env sim_be) cid" "state_known sim_be (x_json sim_externals) (kind_env sim_be) cid" for cid
    by (auto simp: never_half_created_def state_known_def Let_def kind_env_def sim_env_def sim_externals_def sim_json_def example_json_def
        strings_HasPrefix_def split: cmd_result.splits)
  ultimately show "ready sim_be sim_externals (kind_env sim_be) S (StartJob ''web'' ''web'')"
    "ready sim_be sim_externals (kind_env sim_be) S (StopJob ''web'' ''web'')"
    unfolding example_cfg_def by (auto simp: ready_def Let_def)
qed

end
