(* ===== verification/Files.thy ===== *)
theory Files
  imports Progress
begin

text \<open>
  What the program does to files. The calls of the program are given the meaning that POSIX gives them: a disk holds the contents of
  files and the open descriptors with their offsets, \<open>open\<close> creates or truncates, \<open>write\<close> overwrites at the offset or appends,
  \<open>RemoveAll\<close> removes a tree. The theorems: up to any point at which the program may be killed, every file outside the few that belong
  to one container has lost nothing; and what \<open>config.json\<close> holds when runc reads it (used in the root theory).

  Paths are compared by their elements, links are not followed, and mounts do not change which file a path names. What failing calls leave
  behind and what child processes do to files are parameters.
\<close>

section \<open>The disk\<close>

type_synonym path = "string list"

text \<open>An open file: its path, whether it was opened for appending, and the offset of its descriptor.\<close>

record open_file =
  o_path :: path
  o_append :: bool
  o_offset :: nat

record disk =
  d_files :: "path \<Rightarrow> string option"
  d_open :: "nat \<Rightarrow> open_file option"

text \<open>What the host decides: how much of a write that fails has reached the file, which files a removal that fails has left, and
  what a child process makes of the files.\<close>

record host_effects =
  he_written :: "call list \<Rightarrow> call \<Rightarrow> nat"
  he_left :: "call list \<Rightarrow> call \<Rightarrow> path \<Rightarrow> bool"
  he_child :: "call list \<Rightarrow> call \<Rightarrow> (path \<Rightarrow> string option) \<Rightarrow> path \<Rightarrow> string option"

text \<open>\<open>write(2)\<close>: the bytes at the offset are replaced, and a gap before it is filled with zeros.\<close>

definition write_at :: "nat \<Rightarrow> string \<Rightarrow> string \<Rightarrow> string" where
  "write_at n s old = take n old @ replicate (n - length old) (CHR 0x00) @ s @ drop (n + length s) old"

definition open_at :: "string \<Rightarrow> open_flag list \<Rightarrow> nat \<Rightarrow> disk \<Rightarrow> disk" where
  "open_at p fl fd d =
     (let q = path_elems p in
      d\<lparr>d_files := (case d_files d q of
            None \<Rightarrow> if O_CREATE \<in> set fl then (d_files d)(q \<mapsto> []) else d_files d
          | Some s \<Rightarrow> if O_TRUNC \<in> set fl then (d_files d)(q \<mapsto> []) else d_files d),
        d_open := (d_open d)(fd \<mapsto> \<lparr>o_path = q, o_append = (O_APPEND \<in> set fl), o_offset = 0\<rparr>)\<rparr>)"

definition write_to :: "nat \<Rightarrow> string \<Rightarrow> disk \<Rightarrow> disk" where
  "write_to fd s d =
     (case d_open d fd of
        None \<Rightarrow> d
      | Some f \<Rightarrow>
          (case d_files d (o_path f) of
             None \<Rightarrow> d
           | Some old \<Rightarrow>
               let n = (if o_append f then length old else o_offset f) in
               d\<lparr>d_files := (d_files d)(o_path f \<mapsto> write_at n s old),
                 d_open := (d_open d)(fd \<mapsto> f\<lparr>o_offset := n + length s\<rparr>)\<rparr>))"

text \<open>A file that is removed while it is open is out of reach for every other program.\<close>

definition remove_tree :: "path \<Rightarrow> (path \<Rightarrow> bool) \<Rightarrow> disk \<Rightarrow> disk" where
  "remove_tree p keep d =
     d\<lparr>d_files := (\<lambda>q. if prefix p q \<and> \<not> keep q then None else d_files d q),
       d_open := (\<lambda>fd. case d_open d fd of
          None \<Rightarrow> None | Some f \<Rightarrow> if prefix p (o_path f) \<and> \<not> keep (o_path f) then None else Some f)\<rparr>"

definition disk_step :: "host_effects \<Rightarrow> environment \<Rightarrow> call list \<Rightarrow> call \<Rightarrow> disk \<Rightarrow> disk" where
  "disk_step he e h x d =
     (case x of
        OpenFile p fl m \<Rightarrow> (case r_fd e h x of Inl _ \<Rightarrow> d | Inr fd \<Rightarrow> open_at p fl fd d)
      | WriteFd fd s \<Rightarrow> write_to fd (case r_err e h x of None \<Rightarrow> s | Some _ \<Rightarrow> take (he_written he h x) s) d
      | CloseFd fd \<Rightarrow> d\<lparr>d_open := (d_open d)(fd := None)\<rparr>
      | RemoveAll p \<Rightarrow> remove_tree (path_elems p) (case r_err e h x of None \<Rightarrow> (\<lambda>_. False) | Some _ \<Rightarrow> he_left he h x) d
      | RunCmd k \<Rightarrow> d\<lparr>d_files := he_child he h x (d_files d)\<rparr>
      | OutputCmd k \<Rightarrow> d\<lparr>d_files := he_child he h x (d_files d)\<rparr>
      | CombinedOutputCmd k \<Rightarrow> d\<lparr>d_files := he_child he h x (d_files d)\<rparr>
      | StartCmd k \<Rightarrow> d\<lparr>d_files := he_child he h x (d_files d)\<rparr>
      | _ \<Rightarrow> d)"

fun disk_after :: "host_effects \<Rightarrow> environment \<Rightarrow> call list \<Rightarrow> call list \<Rightarrow> disk \<Rightarrow> disk" where
  "disk_after he e h [] d = d"
| "disk_after he e h (x # tr) d = disk_after he e (h @ [x]) tr (disk_step he e h x d)"

lemma disk_after_append: "disk_after he e h (t @ t') d = disk_after he e (h @ t) t' (disk_after he e h t d)"
  by (induction t arbitrary: h d) simp_all

lemma write_at_start [simp]: "write_at 0 s old = s @ drop (length s) old"
  by (simp add: write_at_def)

lemma write_at_end: "write_at (length old) s old = old @ s"
  by (simp add: write_at_def)

section \<open>Nothing is lost\<close>

text \<open>Files of \<open>P\<close> only grow at their end.\<close>

definition only_grow :: "(path \<Rightarrow> bool) \<Rightarrow> (path \<Rightarrow> string option) \<Rightarrow> (path \<Rightarrow> string option) \<Rightarrow> bool" where
  "only_grow P F F' \<longleftrightarrow> (\<forall>q s. P q \<longrightarrow> F q = Some s \<longrightarrow> (\<exists>s'. F' q = Some (s @ s')))"

definition children_spare :: "(path \<Rightarrow> bool) \<Rightarrow> host_effects \<Rightarrow> bool" where
  "children_spare P he \<longleftrightarrow> (\<forall>h x F. only_grow P F (he_child he h x F))"

lemma only_growD: "only_grow P F F' \<Longrightarrow> P q \<Longrightarrow> F q = Some s \<Longrightarrow> \<exists>s'. F' q = Some (s @ s')"
  by (simp add: only_grow_def)

lemma only_grow_refl [simp]: "only_grow P F F"
  by (auto simp: only_grow_def intro: exI [of _ "[]"])

lemma only_grow_trans: "only_grow P F G \<Longrightarrow> only_grow P G H \<Longrightarrow> only_grow P F H"
  unfolding only_grow_def by (metis append_assoc)

text \<open>A call, after the calls \<open>h\<close>, that takes nothing away from the files of \<open>P\<close>: it opens without truncating, removes none of them, and
  writes only what it has just opened, which is not one of them.\<close>

definition gentle :: "(path \<Rightarrow> bool) \<Rightarrow> environment \<Rightarrow> call list \<Rightarrow> call \<Rightarrow> bool" where
  "gentle P e h x \<longleftrightarrow>
     (case x of
        OpenFile p fl m \<Rightarrow> O_TRUNC \<notin> set fl
      | RemoveAll p \<Rightarrow> \<forall>q. prefix (path_elems p) q \<longrightarrow> \<not> P q
      | WriteFd fd s \<Rightarrow> \<exists>h' p fl m. h = h' @ [OpenFile p fl m] \<and> r_fd e h' (OpenFile p fl m) = Inr fd \<and> \<not> P (path_elems p)
      | _ \<Rightarrow> True)"

text \<open>The descriptor that the last call has opened belongs to its path.\<close>

definition tracks :: "environment \<Rightarrow> call list \<Rightarrow> disk \<Rightarrow> bool" where
  "tracks e h d \<longleftrightarrow>
     (\<forall>h' p fl m fd. h = h' @ [OpenFile p fl m] \<longrightarrow> r_fd e h' (OpenFile p fl m) = Inr fd \<longrightarrow>
        (\<exists>f. d_open d fd = Some f \<and> o_path f = path_elems p))"

lemma tracks_step: "tracks e (h @ [x]) (disk_step he e h x d)"
  by (auto simp: tracks_def disk_step_def open_at_def Let_def)

lemma open_at_grows: "O_TRUNC \<notin> set fl \<Longrightarrow> only_grow P (d_files d) (d_files (open_at p fl fd d))"
  by (auto simp: only_grow_def open_at_def Let_def split: option.splits)

lemma write_to_grows: "d_open d fd = Some f \<Longrightarrow> \<not> P (o_path f) \<Longrightarrow> only_grow P (d_files d) (d_files (write_to fd s d))"
  by (auto simp: only_grow_def write_to_def Let_def split: option.splits)

lemma remove_tree_grows: "\<forall>q. prefix p q \<longrightarrow> \<not> P q \<Longrightarrow> only_grow P (d_files d) (d_files (remove_tree p keep d))"
  by (auto simp: only_grow_def remove_tree_def)

lemma gentle_step:
  assumes "gentle P e h x" and "tracks e h d" and "children_spare P he"
  shows "only_grow P (d_files d) (d_files (disk_step he e h x d))"
proof (cases x)
  case (OpenFile p fl m)
  with assms(1) open_at_grows [of fl P d p] show ?thesis by (auto simp: disk_step_def gentle_def split: sum.split)
next
  case (WriteFd fd s)
  with assms(1,2) obtain f where "d_open d fd = Some f" "\<not> P (o_path f)" unfolding gentle_def tracks_def by fastforce
  then show ?thesis using write_to_grows [where P = P and f = f and fd = fd and d = d] by (simp add: disk_step_def WriteFd)
next
  case (RemoveAll p)
  with assms(1) remove_tree_grows [of "path_elems p" P] show ?thesis by (simp add: disk_step_def gentle_def)
qed (use assms(3) in \<open>simp_all add: disk_step_def children_spare_def\<close>)

section \<open>Calls that depend on the calls before them\<close>

text \<open>\<open>emits_at P m\<close> is like \<open>emits\<close> with a law that sees the environment and the calls so far.\<close>

fun lawful :: "(environment \<Rightarrow> call list \<Rightarrow> call \<Rightarrow> bool) \<Rightarrow> environment \<Rightarrow> call list \<Rightarrow> call list \<Rightarrow> bool" where
  "lawful P e h [] \<longleftrightarrow> True"
| "lawful P e h (x # tr) \<longleftrightarrow> P e h x \<and> lawful P e (h @ [x]) tr"

definition emits_at :: "(environment \<Rightarrow> call list \<Rightarrow> call \<Rightarrow> bool) \<Rightarrow> 'a io \<Rightarrow> bool" where
  "emits_at P m \<longleftrightarrow>
     (\<forall>w. env (snd (m w)) = env w \<and> (\<exists>tr. calls (snd (m w)) = calls w @ tr \<and> lawful P (env w) (calls w) tr))"

named_theorems at_intros \<open>actions whose calls are lawful where they are made\<close>

lemma lawful_append: "lawful P e h (t @ t') \<longleftrightarrow> lawful P e h t \<and> lawful P e (h @ t) t'"
  by (induction t arbitrary: h) simp_all

lemma emits_at_emits:
  assumes "emits Q m" and "\<And>e h x. Q x \<Longrightarrow> P e h x"
  shows "emits_at P m"
proof -
  have "list_all Q tr \<Longrightarrow> lawful P e h tr" for e h tr by (induction tr arbitrary: h) (simp_all add: assms(2))
  with assms(1) show ?thesis unfolding emits_def emits_at_def by blast
qed

lemma emits_atD:
  assumes "emits_at P m" and "m w = (r, w')"
  obtains tr where "env w' = env w" "calls w' = calls w @ tr" "lawful P (env w) (calls w) tr"
  using assms unfolding emits_at_def by (metis snd_conv)

lemma emits_at_bindM [at_intros]:
  assumes "emits_at P m" and "\<And>w a w'. m w = (Ok a, w') \<Longrightarrow> emits_at P (f a)"
  shows "emits_at P (bindM m f)"
  unfolding emits_at_def
proof
  fix w
  obtain r w1 where m: "m w = (r, w1)" by (cases "m w")
  from emits_atD [OF assms(1) m] obtain tr where t: "env w1 = env w" "calls w1 = calls w @ tr" "lawful P (env w) (calls w) tr" .
  show "env (snd (bindM m f w)) = env w \<and> (\<exists>tr. calls (snd (bindM m f w)) = calls w @ tr \<and> lawful P (env w) (calls w) tr)"
  proof (cases r)
    case (Ok a)
    obtain r2 w2 where f: "f a w1 = (r2, w2)" by (cases "f a w1")
    from emits_atD [OF assms(2) [OF m [unfolded Ok]] f] obtain t' where
      "env w2 = env w1" "calls w2 = calls w1 @ t'" "lawful P (env w1) (calls w1) t'" .
    with t m f Ok show ?thesis by (auto simp: bindM_def lawful_append)
  qed (use m t in \<open>auto simp: bindM_def\<close>)
qed

lemma emits_at_deferM [at_intros]:
  assumes "emits_at P m" and "emits_at P d"
  shows "emits_at P (deferM m d)"
  unfolding emits_at_def
proof
  fix w
  obtain r w1 where m: "m w = (r, w1)" by (cases "m w")
  obtain r2 w2 where d: "d w1 = (r2, w2)" by (cases "d w1")
  from emits_atD [OF assms(1) m] obtain t where 1: "env w1 = env w" "calls w1 = calls w @ t" "lawful P (env w) (calls w) t" .
  from emits_atD [OF assms(2) d] obtain t' where "env w2 = env w1" "calls w2 = calls w1 @ t'" "lawful P (env w1) (calls w1) t'" .
  with 1 m d show "env (snd (deferM m d w)) = env w \<and> (\<exists>tr. calls (snd (deferM m d w)) = calls w @ tr \<and> lawful P (env w) (calls w) tr)"
    by (auto simp: deferM_def lawful_append)
qed

lemma emits_at_handled [at_intros]:
  "emits_at P m \<Longrightarrow> emits_at P (attemptM m)" "emits_at P m \<Longrightarrow> emits_at P (mapErrM f m)" "emits_at P m \<Longrightarrow> emits_at P (ignoreM m)"
  by (simp_all add: emits_at_def)

lemma emits_at_thenM [at_intros]: "emits_at P m \<Longrightarrow> emits_at P k \<Longrightarrow> emits_at P (thenM m k)"
  unfolding thenM_def by (rule emits_at_bindM)

lemma emits_at_pure [at_intros]: "emits_at P (returnM a)" "emits_at P (throwM e)" "emits_at P (abortM x)" "emits_at P (liftM r)"
  by (simp_all add: emits_at_def seq_defs)

lemma emits_at_splits [at_intros]:
  "(b \<Longrightarrow> emits_at P m) \<Longrightarrow> (\<not> b \<Longrightarrow> emits_at P n) \<Longrightarrow> emits_at P (if b then m else n)"
  "(\<And>x y. p = (x, y) \<Longrightarrow> emits_at P (h x y)) \<Longrightarrow> emits_at P (case p of (x, y) \<Rightarrow> h x y)"
  "emits_at P n \<Longrightarrow> (\<And>x. v = Some x \<Longrightarrow> emits_at P (h1 x)) \<Longrightarrow> emits_at P (case v of None \<Rightarrow> n | Some x \<Rightarrow> h1 x)"
  "(\<And>x. s = Inl x \<Longrightarrow> emits_at P (h2 x)) \<Longrightarrow> (\<And>x. s = Inr x \<Longrightarrow> emits_at P (h3 x)) \<Longrightarrow> emits_at P (case s of Inl x \<Rightarrow> h2 x | Inr x \<Rightarrow> h3 x)"
  by (simp_all split: prod.splits option.splits sum.splits)

text \<open>A lawful run leaves the files as they should be, however early it is cut short.\<close>

lemma gentle_run:
  assumes "lawful (gentle P) e h tr" and "tracks e h d" and "children_spare P he" and "prefix t tr"
  shows "only_grow P (d_files d) (d_files (disk_after he e h t d))"
proof -
  from assms(1,4) have "lawful (gentle P) e h t" by (auto simp: prefix_def lawful_append)
  then show ?thesis
    using assms(2)
  proof (induction t arbitrary: h d)
    case (Cons x t)
    have "only_grow P (d_files d) (d_files (disk_step he e h x d))" using Cons.prems assms(3) by (auto intro: gentle_step)
    moreover have "only_grow P (d_files (disk_step he e h x d)) (d_files (disk_after he e (h @ [x]) t (disk_step he e h x d)))"
      using Cons.IH [OF _ tracks_step] Cons.prems(1) by simp
    ultimately show ?case by (simp add: only_grow_trans)
  qed simp
qed

section \<open>The program\<close>

text \<open>The files that belong to the container of a process: its bundle, its pid file and its state in runc.\<close>

definition container_file :: "bosh_env \<Rightarrow> bpm_config \<Rightarrow> path \<Rightarrow> bool" where
  "container_file be c q \<longleftrightarrow>
     (\<exists>p\<in>{cfg_BundlePath c, Path_External (cfg_PidFile c), state_file be (cfg_ContainerID c)}. prefix (path_elems p) q)"

text \<open>The calls that are gentle wherever they are made.\<close>

definition tame :: "(path \<Rightarrow> bool) \<Rightarrow> call \<Rightarrow> bool" where
  "tame P x \<longleftrightarrow>
     (case x of
        OpenFile p fl m \<Rightarrow> O_TRUNC \<notin> set fl
      | RemoveAll p \<Rightarrow> \<forall>q. prefix (path_elems p) q \<longrightarrow> \<not> P q
      | WriteFd fd s \<Rightarrow> False
      | _ \<Rightarrow> True)"

lemma tame_sys [simp]:
  "tame P (OpenFile p fl m) \<longleftrightarrow> O_TRUNC \<notin> set fl" "tame P (MkdirAll d md)" "tame P (FChown n u g)" "tame P (CloseFd n)" "tame P (Flock n lo)"
  "tame P (RunCmd k)" "tame P (StartCmd k)" "tame P (CombinedOutputCmd k)" "tame P (OutputCmd k)" "tame P (LookupUser nm)"
  "tame P (RemoveAll p) \<longleftrightarrow> (\<forall>q. prefix (path_elems p) q \<longrightarrow> \<not> P q)"
  by (simp_all add: tame_def)

lemma tame_calls:
  "observes x \<Longrightarrow> tame P x" "clock_call x \<Longrightarrow> tame P x" "arranges x \<Longrightarrow> tame P x" "cgroup_call x \<Longrightarrow> tame P x" "runc_on k cid x \<Longrightarrow> tame P x"
  "looks x \<Longrightarrow> tame P x"
  by (cases x; simp add: tame_def looks_def observes_def clock_call_def arranges_def cgroup_call_def runc_on_def command_of_def)+

lemma gentle_tame: "emits (tame P) m \<Longrightarrow> emits_at (gentle P) m"
  by (erule emits_at_emits) (auto simp: tame_def gentle_def split: call.splits)

lemma gentle_by:
  "emits observes m \<Longrightarrow> emits_at (gentle P) m" "emits arranges m \<Longrightarrow> emits_at (gentle P) m" "emits cgroup_call m \<Longrightarrow> emits_at (gentle P) m"
  "emits looks m \<Longrightarrow> emits_at (gentle P) m"
  by (rule gentle_tame, erule emits_mono, rule tame_calls, assumption)+

lemma gentle_CreateBundle:
  assumes "\<not> P (path_elems (filepath_Join [b, ''config.json'']))"
  shows "emits_at (gentle P) (CreateBundle enc b spec u)"
proof -
  have "emits_at (gentle P) (bindM (sys_fd (OpenFile (filepath_Join [b, ''config.json'']) [O_RDWR, O_CREATE] m))
      (\<lambda>f. deferM (sys_err (WriteFd f s)) (sys_err (CloseFd f))))" for m s
    using assms by (auto simp: emits_at_def gentle_def io_simps res_sum_def split: sum.split res.split)
  moreover have "emits_at (gentle P) (sys_err (MkdirAll d m))" for d m by (rule gentle_tame) (simp add: emits_intros)
  ultimately show ?thesis unfolding CreateBundle_def by (intro emits_at_thenM)
qed

lemma bundle_config_path:
  assumes "well_named c"
  shows "path_elems (filepath_Join [cfg_BundlePath c, ''config.json'']) = path_elems (cfg_BundlePath c) @ [''config.json'']"
  using assms path_elems_rooted_proper [of "env_root (boshEnv c)"]
  by (simp add: well_named_def cfg_BundlePath_eq Join_rooted_list proper_elem_def)

lemma gentle_sys [at_intros]: "tame P x \<Longrightarrow> emits_at (gentle P) (sys_err x)" "tame P (RunCmd k) \<Longrightarrow> emits_at (gentle P) (run_cmd k)"
  by (rule gentle_tame, simp add: emits_intros)+

lemma gentle_StatProcess [at_intros]: "emits_at (gentle P) (StatProcess (lifecycle_of json ord toBytes client a) c)"
  by (rule gentle_by(1) [OF emits_StatProcess])

lemma gentle_lifecycle:
  fixes x be locks sd f c
  defines "lc \<equiv> program_lifecycle x be locks sd f"
  assumes c: "well_named c" and P: "\<And>q. P q \<Longrightarrow> \<not> container_file be c q"
  shows "emits_at (gentle P) (StartProcess lc c p)" and "emits_at (gentle P) (RunProcess lc c p)"
    and "emits_at (gentle P) (RemoveProcess lc c)" and "emits_at (gentle P) (forceCleanupBrokenRuncState be c lc)"
    and "emits_at (gentle P) (StopProcess fuel lc c p t)"
proof -
  have gone: "tame P (RemoveAll d)" if "d \<in> {cfg_BundlePath c, Path_External (cfg_PidFile c), state_file be (cfg_ContainerID c)}" for d
    using that P by (auto simp: container_file_def)
  have "\<not> P (path_elems (filepath_Join [cfg_BundlePath c, ''config.json'']))"
    using P [of "path_elems (cfg_BundlePath c) @ [''config.json'']"] by (auto simp: bundle_config_path [OF c] container_file_def)
  then have written: "emits_at (gentle P) (CreateBundle enc (cfg_BundlePath c) spec u)" for enc spec u by (rule gentle_CreateBundle)
  have lookup: "emits_at (gentle P) (Lookup nm)" for nm by (rule gentle_tame) (simp add: Lookup_def emits_intros)
  have prereq: "emits_at (gentle P) (CreateJobPrerequisites (program_adapter (x_sha256 x) f locks (Some cgroupsPathForContainer)) c p u)" for u
    by (rule gentle_by(2) [OF emits_CreateJobPrerequisites])
  have spec: "emits_at (gentle P) (BuildSpec (x_ord x) (x_toBytes x) (program_adapter (x_sha256 x) f locks (Some cgroupsPathForContainer)) c p u)" for u
    by (rule gentle_by(2) [OF emits_BuildSpec]) (auto simp: emits_cgroupsPathForContainer)
  have sets: "emits_at (gentle P) (setupProcess lc c p)"
    unfolding setupProcess_def lc_def lifecycle_of_sel runc_ops_sel
    by (intro at_intros lookup prereq spec written) simp_all
  have "emits_at (gentle P) (RunContainer client pf b cid d out err)" for client pf b cid d out err
    by (rule gentle_tame) (simp add: emits_intros)
  with sets show "emits_at (gentle P) (StartProcess lc c p)" "emits_at (gentle P) (RunProcess lc c p)"
    unfolding StartProcess_def RunProcess_def by (auto simp: lc_def intro!: at_intros)
  show remove: "emits_at (gentle P) (RemoveProcess lc c)"
    unfolding RemoveProcess_def lc_def lifecycle_of_sel runc_ops_sel DeleteContainer_def DestroyBundle_def
    by (intro at_intros gone) simp_all
  then show "emits_at (gentle P) (forceCleanupBrokenRuncState be c lc)"
    unfolding forceCleanupBrokenRuncState_def Let_def by (intro at_intros gone) (simp_all add: state_file_def)
  show "emits_at (gentle P) (StopProcess fuel lc c p t)"
    unfolding lc_def by (rule gentle_tame, rule emits_mono [OF lc.emits_StopProcess]) (auto intro: tame_calls)
qed

lemma gentle_with_lifecycle:
  assumes "\<And>sd f. emits_at (gentle P) (k (program_lifecycle x be locks sd f))"
  shows "emits_at (gentle P) (bindM (newRuncLifecycle x be locks) k)"
  by (rule emits_at_bindM [OF gentle_by(1) [OF emits_newRuncLifecycle]]) (metis newRuncLifecycle_Ok assms)

lemma gentle_bodies:
  assumes c: "well_named c" and P: "\<And>q. P q \<Longrightarrow> \<not> container_file be c q"
  shows "emits_at (gentle P) (start x be locks c nm)" and "emits_at (gentle P) (stop fuel x be locks c nm)"
    and "emits_at (gentle P) (run x be locks vols es c nm)"
proof -
  note ops = gentle_lifecycle [OF assms] gentle_by(1) [OF emits_load_process] gentle_with_lifecycle
  show "emits_at (gentle P) (start x be locks c nm)"
    unfolding start_def current_state_def remove_stale_def
    by (rule emits_at_bindM [OF ops(6)]) (intro ops at_intros)
  show "emits_at (gentle P) (stop fuel x be locks c nm)"
    unfolding stop_def by (intro ops at_intros)
  show "emits_at (gentle P) (run x be locks vols es c nm)"
    unfolding run_def current_state_def remove_stale_def Let_def split_def
    by (rule emits_at_bindM [OF ops(6)]) (intro emits_at_thenM emits_at_pure ops; (intro ops at_intros)?)
qed

lemma gentle_lifecyclePre: "emits_at (gentle P) (lifecyclePre be locks pf args)"
  unfolding lifecyclePre_def setupBpmLogs_def acquireLifecycleLock_def Lookup_def
  by (rule gentle_tame) (intro emits_intros; simp)

lemma gentle_release: "emits_at (gentle P) (releaseLifecycleLock lock)"
  unfolding releaseLifecycleLock_def by (rule gentle_tame) (intro emits_intros; simp)

text \<open>A command whose body is gentle for the process that its command line names.\<close>

lemma gentle_locked:
  assumes "\<And>c nm. validateInput be pf args = Ok (c, nm) \<Longrightarrow> emits_at (gentle P) (act c nm)"
  shows "emits_at (gentle P) (bindM (lifecyclePre be locks pf args) (\<lambda>(c, nm, lock). thenM (act c nm) (releaseLifecycleLock lock)))"
proof (rule emits_at_bindM [OF gentle_lifecyclePre])
  fix w y w'
  assume "lifecyclePre be locks pf args w = (Ok y, w')"
  moreover obtain c nm lock where "y = (c, nm, lock)" by (cases y)
  ultimately show "emits_at (gentle P) (case y of (c, nm, lock) \<Rightarrow> thenM (act c nm) (releaseLifecycleLock lock))"
    using lifecyclePre_Ok [of be locks pf args w c nm lock w'] assms by (auto intro!: at_intros gentle_release)
qed

text \<open>Every process that the command line can name is one whose files \<open>P\<close> leaves out.\<close>

definition names_other :: "(path \<Rightarrow> bool) \<Rightarrow> bosh_env \<Rightarrow> invocation \<Rightarrow> bool" where
  "names_other P be i \<longleftrightarrow>
     (\<forall>c nm. validateInput be (i_process i) (i_args i) = Ok (c, nm) \<longrightarrow> well_named c \<and> (\<forall>q. P q \<longrightarrow> \<not> container_file be c q))"

lemma gentle_command_body:
  assumes "names_other P be i"
  shows "emits_at (gentle P) (command_body s be i locks)"
proof -
  note bodies = gentle_bodies [of _ P be]
  have other: "well_named c" "P q \<Longrightarrow> \<not> container_file be c q" if "validateInput be (i_process i) (i_args i) = Ok (c, nm)" for c nm q
    using assms that by (auto simp: names_other_def)
  show ?thesis
  proof (cases "i_command i")
    case StartCommand
    have "emits_at (gentle P) (start (s_externals s) be locks c nm)" if "validateInput be (i_process i) (i_args i) = Ok (c, nm)" for c nm
      using bodies(1) other [OF that] by blast
    then show ?thesis unfolding command_body_def Let_def StartCommand subcommand.case startPre_def startPost_def by (rule gentle_locked)
  next
    case StopCommand
    have "emits_at (gentle P) (stop (s_fuel s) (s_externals s) be locks c nm)" if "validateInput be (i_process i) (i_args i) = Ok (c, nm)" for c nm
      using bodies(2) other [OF that] by blast
    then show ?thesis unfolding command_body_def Let_def StopCommand subcommand.case stopPre_def stopPost_def by (rule gentle_locked)
  next
    case (RunCommand vols es)
    have "emits_at (gentle P) (run (s_externals s) be locks vols es c nm)" if "validateInput be (i_process i) (i_args i) = Ok (c, nm)" for c nm
      using bodies(3) other [OF that] by blast
    then show ?thesis unfolding command_body_def Let_def RunCommand subcommand.case runPre_def runPost_def by (rule gentle_locked)
  qed (auto simp: command_body_def root_run_def intro!: at_intros gentle_by(4) emits_with_config emits_looking)
qed

lemma gentle_run_invocation:
  assumes "names_other P be i"
  shows "emits_at (gentle P) (run_invocation s be i)"
proof -
  have "emits_at (gentle P) (rootPre be)"
    unfolding rootPre_def Let_def
    by (rule gentle_tame) (intro emits_intros emits_mono [OF emits_Setup tame_calls(4)]; simp add: tame_def)
  then show ?thesis
    unfolding run_invocation_def persistentPre_def by (intro at_intros gentle_by(4) [OF emits_looking(6)] gentle_command_body [OF assms])
qed

text \<open>What \<open>main\<close> does: the question for the root directory, the command, and printing.\<close>

lemma main_calls:
  assumes "be = NewEnv (r_out (env w) (calls w) (Getenv ''BPM_BOSH_ROOT''))"
    and "apply_flags (Flags (command_table s be (l_command l)) @ root_flags) (l_flags l) (init_globals s be) = Ok g"
  shows "\<exists>out. calls (snd (main s l w)) =
      calls (snd (run_invocation s be (invocation_of l g) (record_call (Getenv ''BPM_BOSH_ROOT'') w))) @ out \<and> list_all observes out"
proof -
  obtain r w1 where r: "run_invocation s be (invocation_of l g) (record_call (Getenv ''BPM_BOSH_ROOT'') w) = (r, w1)"
    by (cases "run_invocation s be (invocation_of l g) (record_call (Getenv ''BPM_BOSH_ROOT'') w)")
  from Execute_equivalent [OF assms(2) r] obtain shown where "Execute s be l (record_call (Getenv ''BPM_BOSH_ROOT'') w) =
      (r, if shown then record_call (Print StdErr (s_usage s (Use (command_table s be (l_command l))) @ [CHR 0x0A])) w1 else w1)"
    by blast
  with assms(1) r show ?thesis
    by (cases r) (auto simp: main_def sys_str_def sys_do_def bindM_def attemptM_def thenM_def abortM_def)
qed

text \<open>A command line whose flags the command knows names only processes whose files \<open>P\<close> leaves out.\<close>

definition line_names_other :: "(path \<Rightarrow> bool) \<Rightarrow> setting \<Rightarrow> bosh_env \<Rightarrow> command_line \<Rightarrow> bool" where
  "line_names_other P s be l \<longleftrightarrow>
     (\<forall>g. apply_flags (Flags (command_table s be (l_command l)) @ root_flags) (l_flags l) (init_globals s be) = Ok g \<longrightarrow>
        names_other P be (invocation_of l g))"

lemma lawful_observes: "list_all observes tr \<Longrightarrow> lawful (gentle P) e h tr"
  by (induction tr arbitrary: h) (auto simp: gentle_def observes_def split: call.splits)

lemma gentle_main:
  assumes "line_names_other P s (NewEnv (r_out (env w) (calls w) (Getenv ''BPM_BOSH_ROOT''))) l"
  shows "\<exists>tr. calls (snd (main s l w)) = calls w @ Getenv ''BPM_BOSH_ROOT'' # tr \<and>
    lawful (gentle P) (env w) (calls w @ [Getenv ''BPM_BOSH_ROOT'']) tr"
proof -
  let ?be = "NewEnv (r_out (env w) (calls w) (Getenv ''BPM_BOSH_ROOT''))" and ?w = "record_call (Getenv ''BPM_BOSH_ROOT'') w"
  let ?flags = "apply_flags (Flags (command_table s ?be (l_command l)) @ root_flags) (l_flags l) (init_globals s ?be)"
  show ?thesis
  proof (cases ?flags)
    case (Ok g)
    with assms have "names_other P ?be (invocation_of l g)" by (simp add: line_names_other_def)
    from gentle_run_invocation [OF this, of s] obtain tr where
      "calls (snd (run_invocation s ?be (invocation_of l g) ?w)) = calls ?w @ tr" "lawful (gentle P) (env ?w) (calls ?w) tr"
      unfolding emits_at_def by blast
    moreover from main_calls [OF refl Ok] obtain out where
      "calls (snd (main s l w)) = calls (snd (run_invocation s ?be (invocation_of l g) ?w)) @ out" "list_all observes out" by blast
    ultimately show ?thesis
      using lawful_observes [of out P] by (intro exI [of _ "tr @ out"]) (simp add: lawful_append)
  next
    case (Err e)
    let ?out = "[Print StdErr (s_usage s (Use (command_table s ?be (l_command l))) @ [CHR 0x0A]), Fprintf StdErr (''Error: %s'' @ [CHR 0x0A]) [AErr e]]"
    from Err have "calls (snd (main s l w)) = calls w @ Getenv ''BPM_BOSH_ROOT'' # ?out"
      by (simp add: main_def Execute_def sys_str_def sys_do_def bindM_def attemptM_def thenM_def abortM_def)
    moreover have "lawful (gentle P) (env w) (calls w @ [Getenv ''BPM_BOSH_ROOT'']) ?out" by (rule lawful_observes) simp
    ultimately show ?thesis by blast
  next
    case (Abort a)
    then show ?thesis by (simp add: main_def Execute_def sys_str_def bindM_def attemptM_def)
  qed
qed

text \<open>C7: the program destroys no data. However far a process of the program gets before it ends or is killed, for every command line and
  every answer of the host, a file that does not belong to the container of the process that the command line names has kept its
  whole content, with at most something appended: log files and lock files that exist are never truncated, and the only files
  removed or overwritten are the bundle, the pid file and the runc state of that container. What child processes do is up to them.\<close>

theorem files_only_grow:
  assumes "line_names_other P s (NewEnv (r_out (env w) (calls w) (Getenv ''BPM_BOSH_ROOT''))) l" and "children_spare P he"
    and "calls (snd (main s l w)) = calls w @ tr" and "prefix t tr"
  shows "only_grow P (d_files d) (d_files (disk_after he (env w) (calls w) t d))"
proof (cases t)
  case (Cons x t')
  from gentle_main [OF assms(1)] assms(3,4) Cons obtain tr' where
    "x = Getenv ''BPM_BOSH_ROOT''" "lawful (gentle P) (env w) (calls w @ [x]) tr'" "prefix t' tr'" by auto
  moreover have "tracks (env w) (calls w @ [x]) d" using tracks_step [of "env w" "calls w" x he d] calculation(1) by (simp add: disk_step_def)
  ultimately have "only_grow P (d_files d) (d_files (disk_after he (env w) (calls w @ [x]) t' d))"
    using gentle_run [OF _ _ assms(2)] by blast
  with \<open>x = _\<close> show ?thesis by (simp add: Cons disk_step_def)
qed simp

section \<open>The file that runc reads\<close>

text \<open>The content of a file, which a missing file does not have.\<close>

definition content :: "disk \<Rightarrow> path \<Rightarrow> string" where
  "content d q = (case d_files d q of None \<Rightarrow> [] | Some s \<Rightarrow> s)"

lemma content_arranged:
  assumes "list_all arranges tr"
  shows "content (disk_after he e h tr d) q = content d q"
proof -
  have step: "content (disk_step he e h x d) q = content d q" if "arranges x" for x h d
    using that by (cases x) (auto simp: content_def disk_step_def open_at_def Let_def arranges_def command_of_def split: sum.split option.split)
  show ?thesis using assms by (induction tr arbitrary: h d) (simp_all add: step)
qed

lemma CreateBundle_writes:
  assumes "CreateBundle (encodeSpec json) (cfg_BundlePath c) spec u w = (Ok (), w')"
    and "q = path_elems (filepath_Join [cfg_BundlePath c, ''config.json''])"
  obtains f where "calls w' = calls w @ bundle_calls json c spec f"
    "d_files (disk_after he (env w) (calls w) (bundle_calls json c spec f) d) q =
       Some (encodeSpec json spec @ drop (length (encodeSpec json spec)) (content d q))"
proof -
  let ?o = "OpenFile (filepath_Join [cfg_BundlePath c, ''config.json'']) [O_RDWR, O_CREATE] perm_0600"
  let ?m = "[MkdirAll (cfg_BundlePath c) perm_0700, MkdirAll (filepath_Join [cfg_BundlePath c, ''rootfs'']) perm_0755]"
  from assms(1) obtain f where f: "r_fd (env w) (calls w @ ?m) ?o = Inr f"
      "r_err (env w) (calls w @ ?m @ [?o]) (WriteFd f (encodeSpec json spec)) = None" "calls w' = calls w @ bundle_calls json c spec f"
    by (auto simp: CreateBundle_def bundle_calls_def thenM_eq_Ok bindM_eq_Ok sys_err_def sys_fd_def deferM_def res_of_def res_sum_def
        split: option.splits sum.splits)
  then have "d_files (disk_after he (env w) (calls w) (bundle_calls json c spec f) d) q =
      Some (encodeSpec json spec @ drop (length (encodeSpec json spec)) (content d q))"
    by (simp add: bundle_calls_def disk_step_def open_at_def write_to_def content_def assms(2) Let_def split: option.split)
  with f(3) that show thesis by blast
qed

text \<open>A hook of the process may do anything except to the file in question.\<close>

lemma hook_spares:
  assumes "\<And>h x F. he_child he h x F q = F q"
  shows "d_files (disk_after he e h (hook_calls p spec out err) d) q = d_files d q"
  using assms by (simp add: hook_calls_def disk_step_def split: option.split)

lemma setupProcess_writes:
  fixes json ord toBytes client sha f locks
  defines "a \<equiv> program_adapter sha f locks (Some cgroupsPathForContainer)"
  assumes s: "setupProcess (lifecycle_of json ord toBytes client a) c p w = (Ok (out, err), w')"
    and q: "q = path_elems (filepath_Join [cfg_BundlePath c, ''config.json''])" and hook: "\<And>h x F. he_child he h x F q = F q"
  obtains u w2 spec w3 pre fd where "fst (Lookup VcapUser w) = Ok u" and "BuildSpec ord toBytes a c p u w2 = (Ok spec, w3)"
    and "calls w' = calls w @ pre @ bundle_calls json c spec fd @ hook_calls p spec out err"
    and "d_files (disk_after he (env w) (calls w) (pre @ bundle_calls json c spec fd @ hook_calls p spec out err) d) q =
      Some (encodeSpec json spec @ drop (length (encodeSpec json spec)) (content d q))"
proof -
  from setupProcess_stages [OF s] obtain u w1 w2 spec w3 w4 where
    1: "Lookup VcapUser w = (Ok u, w1)" and 2: "CreateJobPrerequisites a c p u w1 = (Ok (out, err), w2)"
    and 3: "BuildSpec ord toBytes a c p u w2 = (Ok spec, w3)"
    and b: "CreateBundle (encodeSpec json) (cfg_BundlePath c) spec u w3 = (Ok (), w4)" and w': "calls w' = calls w4 @ hook_calls p spec out err" .
  have e: "emits arranges (Lookup VcapUser)" "emits arranges (CreateJobPrerequisites a c p u)" "emits arranges (BuildSpec ord toBytes a c p u)"
    by (auto simp: a_def Lookup_def emits_cgroupsPathForContainer intro!: emits_intros emits_CreateJobPrerequisites emits_BuildSpec)
  from emits_trace [OF e(1) 1] emits_trace [OF e(2) 2] emits_trace [OF e(3) 3] obtain t1 t2 t3 where
    t: "calls w3 = calls w @ t1 @ t2 @ t3" "list_all arranges (t1 @ t2 @ t3)" by auto
  have env3: "env w3 = env w" using emits_env [OF e(1), of w] emits_env [OF e(2), of w1] emits_env [OF e(3), of w2] 1 2 3 by simp
  let ?d = "disk_after he (env w) (calls w) (t1 @ t2 @ t3) d"
  obtain fd where "calls w4 = calls w3 @ bundle_calls json c spec fd"
    "d_files (disk_after he (env w3) (calls w3) (bundle_calls json c spec fd) ?d) q =
       Some (encodeSpec json spec @ drop (length (encodeSpec json spec)) (content ?d q))"
    using CreateBundle_writes [OF b q] by metis
  with t env3 w' content_arranged [OF t(2)] hook_spares [where he = he and q = q, OF hook] that [of u w2 spec w3 "t1 @ t2 @ t3" fd] 1 3
  show thesis by (simp add: disk_after_append)
qed

section \<open>On a concrete host\<close>

text \<open>Log files belong to no container.\<close>

lemma container_file_eq:
  assumes "well_named c" and "boshEnv c = be"
  shows "container_file be c q \<longleftrightarrow>
    (\<exists>es\<in>{[''data'', ''bpm'', ''bundles'', jobName c, procName c], [''sys'', ''run'', ''bpm'', jobName c, procName c @ ''.pid''],
           [''sys'', ''run'', ''bpm-runc'', cfg_ContainerID c, ''state.json'']}. prefix (root_elems c @ es) q)"
proof -
  have "is_rooted (env_root be)" "list_all proper_elem (root_elems c)" "proper_elem (jobName c)" "proper_elem (procName c)"
    using assms path_elems_rooted_proper [of "env_root (boshEnv c)"] by (auto simp: well_named_def)
  moreover have "proper_elem (procName c @ ''.pid'')" "proper_elem ''state.json''"
    using calculation(4) by (auto simp: proper_elem_def append_eq_Cons_conv)
  ultimately show ?thesis
    using assms by (simp add: container_file_def cfg_BundlePath_eq cfg_paths External_path_of state_file_eq)
qed

lemma logs_not_container_files:
  assumes "well_named c" and "boshEnv c = be" and "prefix (root_elems c @ [''sys'', ''log'']) q"
  shows "\<not> container_file be c q"
  using assms(3) unfolding container_file_eq [OF assms(1,2)] by (auto simp: prefix_def)

definition calm_effects :: host_effects where
  "calm_effects = \<lparr>he_written = (\<lambda>_ _. 0), he_left = (\<lambda>_ _ _. True), he_child = (\<lambda>_ _ F. F)\<rparr>"

definition old_disk :: "path \<Rightarrow> string \<Rightarrow> disk" where
  "old_disk q s = \<lparr>d_files = [q \<mapsto> s], d_open = (\<lambda>_. None)\<rparr>"

abbreviation web_log :: path where
  "web_log \<equiv> [''var'', ''vcap'', ''sys'', ''log'', ''web'', ''web.stdout.log'']"

theorem files_only_grow_witness:
  "fst (main kind_setting (op_line (StartJob ''web'' ''web'')) kind_world) = Abort (Exit 0) \<and>
   (\<exists>more. d_files (disk_after calm_effects (kind_env sim_be) []
      (calls (snd (main kind_setting (op_line (StartJob ''web'' ''web'')) kind_world))) (old_disk web_log ''booted'')) web_log = Some (''booted'' @ more))"
proof -
  let ?l = "op_line (StartJob ''web'' ''web'')" and ?P = "prefix [''var'', ''vcap'', ''sys'', ''log'']" and ?own = "{cid. proper_elem cid}"
  have be: "NewEnv (r_out (env kind_world) (calls kind_world) (Getenv ''BPM_BOSH_ROOT'')) = sim_be"
    by (simp add: kind_world_def kind_env_def sim_env_def sim_missing_def)
  have "names_other ?P sim_be (op_invocation (StartJob ''web'' ''web''))"
    unfolding names_other_def
  proof (intro allI impI)
    fix c nm
    assume "validateInput sim_be (i_process (op_invocation (StartJob ''web'' ''web''))) (i_args (op_invocation (StartJob ''web'' ''web''))) = Ok (c, nm)"
    then have c: "c = sim_cfg" by (auto simp: validateInput_def example_cfg_def Let_def)
    have "boshEnv sim_cfg = sim_be" "root_elems sim_cfg = [''var'', ''vcap'']" by (simp_all add: example_cfg_def NewBPMConfig_def NewEnv_def)
    with logs_not_container_files [OF sim_cfg_named] sim_cfg_named show "well_named c \<and> (\<forall>q. ?P q \<longrightarrow> \<not> container_file sim_be c q)"
      by (simp add: c)
  qed
  with op_line_invocation [of kind_setting sim_be "StartJob ''web'' ''web''"] have n: "line_names_other ?P kind_setting sim_be ?l"
    unfolding line_names_other_def by (metis res.inject(1))
  have k: "children_spare ?P calm_effects" by (simp add: children_spare_def calm_effects_def)
  have "only_grow ?P (d_files (old_disk web_log ''booted''))
      (d_files (disk_after calm_effects (env kind_world) (calls kind_world) (calls (snd (main kind_setting ?l kind_world))) (old_disk web_log ''booted'')))"
    by (rule files_only_grow [where s = kind_setting and l = ?l, OF _ k _ prefix_order.order_refl]) (simp_all only: be n, simp_all add: kind_world_def)
  from only_growD [OF this, of web_log "''booted''"]
  have "\<exists>more. d_files (disk_after calm_effects (kind_env sim_be) [] (calls (snd (main kind_setting ?l kind_world))) (old_disk web_log ''booted'')) web_log =
      Some (''booted'' @ more)"
    unfolding kind_world_def world.simps by (simp add: old_disk_def)
  moreover have "fst (main kind_setting ?l kind_world) = Abort (Exit 0)"
  proof -
    have "obliging sim_be (s_externals kind_setting) (sim_live sim_be) ?own (kind_env sim_be)" "admissible sim_be ?own (StartJob ''web'' ''web'')"
      using kind_obliging [of sim_be] sim_cfg_named by (simp_all add: kind_setting_def admissible_def example_cfg_def)
    moreover have "timer_fires 0 (kind_env sim_be)" by (simp add: timer_fires_def kind_env_def sim_env_def calm_env_def)
    ultimately show ?thesis
      using main_runs [of sim_be kind_setting "sim_live sim_be" ?own "kind_env sim_be" "StartJob ''web'' ''web''" kind_world 0 "[]"] kind_ready
      by (auto simp: kind_world_def kind_setting_def kind_env_def [of sim_be] sim_env_def sim_missing_def)
  qed
  ultimately show ?thesis by blast
qed

end
