(* ===== verification/Recovery.thy ===== *)
theory Recovery
  imports Files
begin

text \<open>
  Processes of the program that are cut short. A process can be killed between any two of its calls; the calls that it has made up to then have
  had their effect. A command names one process of one job, and no call of it concerns the container of another. So what killed
  commands have left is confined to the containers that they named, and running the commands for these again leads to where
  they would have led without the interruption.
\<close>

section \<open>Processes that are killed\<close>

definition cut_short :: "setting \<Rightarrow> command_line \<Rightarrow> world \<Rightarrow> world \<Rightarrow> bool" where
  "cut_short s l w w' \<longleftrightarrow> env w' = env w \<and> prefix (calls w) (calls w') \<and> prefix (calls w') (calls (snd (main s l w)))"

inductive interrupted :: "setting \<Rightarrow> command_line list \<Rightarrow> world \<Rightarrow> world \<Rightarrow> bool" for s where
  none: "interrupted s [] w w"
| killed: "cut_short s l w w1 \<Longrightarrow> interrupted s ls w1 w2 \<Longrightarrow> interrupted s (l # ls) w w2"

inductive_cases interrupted_ConsE: "interrupted s (l # ls) w w'"
inductive_simps interrupted_Nil: "interrupted s [] w w'"

text \<open>The process that a command line names, when its flags are known to the command.\<close>

definition line_config :: "setting \<Rightarrow> bosh_env \<Rightarrow> command_line \<Rightarrow> bpm_config option" where
  "line_config s be l =
     (case apply_flags (Flags (command_table s be (l_command l)) @ root_flags) (l_flags l) (init_globals s be) of
        Ok g \<Rightarrow> (case validateInput be (i_process (invocation_of l g)) (i_args (invocation_of l g)) of Ok (c, nm) \<Rightarrow> Some c | _ \<Rightarrow> None)
      | _ \<Rightarrow> None)"

definition line_container :: "setting \<Rightarrow> bosh_env \<Rightarrow> command_line \<Rightarrow> string option" where
  "line_container s be l = map_option cfg_ContainerID (line_config s be l)"

definition line_well_named :: "setting \<Rightarrow> bosh_env \<Rightarrow> command_line \<Rightarrow> bool" where
  "line_well_named s be l \<longleftrightarrow> (case line_config s be l of None \<Rightarrow> True | Some c \<Rightarrow> well_named c)"

section \<open>The containers that a command can concern\<close>

lemma looks_spares:
  assumes "looks x"
  shows "spares be x"
proof (cases "\<exists>k. x = RunCmd k")
  case True
  with assms obtain k client args where k: "x = RunCmd k" "cmd_args k = cmd_args (buildCmd client ''exec'' args)"
    by (auto simp: looks_def observes_def)
  have "runc_arguments (cmd_args k) = ''exec'' # args" unfolding k(2) by (rule runc_arguments_buildCmd) simp
  then show ?thesis by (simp add: spares_def concerns_def requests_def k(1))
next
  case False
  with assms spares_calls(3) [of x be] show ?thesis
    by (cases x) (auto simp: looks_def observes_def spares_def concerns_def requests_def)
qed

text \<open>A call that concerns no container but the one of the process that the invocation names.\<close>

definition keeps_to :: "bosh_env \<Rightarrow> invocation \<Rightarrow> call \<Rightarrow> bool" where
  "keeps_to be i x \<longleftrightarrow>
     (\<forall>cid. proper_elem cid \<longrightarrow> concerns be cid x \<longrightarrow>
        (\<exists>c nm. validateInput be (i_process i) (i_args i) = Ok (c, nm) \<and> cid = cfg_ContainerID c))"

lemma spares_keeps_to: "spares be x \<Longrightarrow> keeps_to be i x"
  by (simp add: spares_def keeps_to_def)

lemma emits_locked_keeps_to:
  assumes act: "\<And>c nm. validateInput be (i_process i) (i_args i) = Ok (c, nm) \<Longrightarrow> emits (concerns_only be (cfg_ContainerID c)) (act c nm)"
  shows "emits (keeps_to be i) (bindM (lifecyclePre be locks (i_process i) (i_args i)) (\<lambda>(c, nm, lock). thenM (act c nm) (releaseLifecycleLock lock)))"
proof (rule emits_bindM_result)
  show "emits (keeps_to be i) (lifecyclePre be locks (i_process i) (i_args i))"
    by (rule emits_mono [OF emits_spares(2) spares_keeps_to])
  fix w y w'
  assume y: "lifecyclePre be locks (i_process i) (i_args i) w = (Ok y, w')"
  obtain c nm lock where "y = (c, nm, lock)" by (cases y)
  moreover from y this have v: "validateInput be (i_process i) (i_args i) = Ok (c, nm)" using lifecyclePre_Ok by metis
  have "emits (keeps_to be i) (act c nm)"
    by (rule emits_mono [OF act [OF v]]) (auto simp: keeps_to_def concerns_only_def v)
  moreover have "emits (keeps_to be i) (releaseLifecycleLock lock)" by (rule emits_mono [OF emits_spares(3) spares_keeps_to])
  ultimately show "emits (keeps_to be i) (case y of (c, nm, lock) \<Rightarrow> thenM (act c nm) (releaseLifecycleLock lock))"
    by (simp add: emits_thenM)
qed

lemma emits_run_invocation:
  assumes "\<And>c nm. validateInput be (i_process i) (i_args i) = Ok (c, nm) \<Longrightarrow> well_named c"
  shows "emits (keeps_to be i) (run_invocation s be i)"
proof -
  have named: "well_named c" "boshEnv c = be" if "validateInput be (i_process i) (i_args i) = Ok (c, nm)" for c nm
    using assms [OF that] that by (auto simp: validateInput_def NewBPMConfig_def Let_def split: list.splits)
  have look: "emits (keeps_to be i) m" if "emits looks m" for m :: "unit io"
    by (rule emits_mono [OF that]) (rule spares_keeps_to [OF looks_spares])
  have "emits (keeps_to be i) (command_body s be i locks)" for locks
  proof (cases "i_command i")
    case StartCommand
    show ?thesis unfolding command_body_def Let_def StartCommand subcommand.case startPre_def startPost_def
      by (rule emits_locked_keeps_to) (rule emits_concerns_only(1) [OF named])
  next
    case StopCommand
    show ?thesis unfolding command_body_def Let_def StopCommand subcommand.case stopPre_def stopPost_def
      by (rule emits_locked_keeps_to) (rule emits_concerns_only(2) [OF named])
  next
    case (RunCommand vols es)
    show ?thesis unfolding command_body_def Let_def RunCommand subcommand.case runPre_def runPost_def
      by (rule emits_locked_keeps_to) (rule emits_concerns_only(3) [OF named])
  qed (auto simp: command_body_def root_run_def intro!: emits_throwM look emits_with_config emits_looking)
  moreover have "emits (keeps_to be i) (rootPre be)" by (rule emits_mono [OF emits_spares(1) spares_keeps_to])
  ultimately show ?thesis
    unfolding run_invocation_def persistentPre_def by (intro emits_bindM emits_if emits_thenM emits_abortM look [OF emits_looking(6)])
qed

definition keeps_to_line :: "setting \<Rightarrow> bosh_env \<Rightarrow> command_line \<Rightarrow> call \<Rightarrow> bool" where
  "keeps_to_line s be l x \<longleftrightarrow> (\<forall>cid. proper_elem cid \<longrightarrow> concerns be cid x \<longrightarrow> line_container s be l = Some cid)"

lemma observes_keeps: "observes x \<Longrightarrow> keeps_to_line s be l x"
  by (simp add: keeps_to_line_def observes_not_concerns)

lemma main_keeps_to:
  assumes "line_well_named s be l" and "be = NewEnv (r_out (env w) (calls w) (Getenv ''BPM_BOSH_ROOT''))"
  shows "\<exists>tr. calls (snd (main s l w)) = calls w @ tr \<and>
    list_all (keeps_to_line s be l) tr"
proof -
  let ?w = "record_call (Getenv ''BPM_BOSH_ROOT'') w"
  show ?thesis
  proof (cases "apply_flags (Flags (command_table s be (l_command l)) @ root_flags) (l_flags l) (init_globals s be)")
    case (Ok g)
    let ?i = "invocation_of l g"
    have named: "validateInput be (i_process ?i) (i_args ?i) = Ok (c, nm) \<Longrightarrow> line_config s be l = Some c" for c nm
      by (simp add: line_config_def Ok)
    then have "emits (keeps_to be ?i) (run_invocation s be ?i)"
      using assms(1) by (intro emits_run_invocation) (simp add: line_well_named_def)
    from emits_trace [OF this surjective_pairing] obtain tr where
      tr: "calls (snd (run_invocation s be ?i ?w)) = calls ?w @ tr" "list_all (keeps_to be ?i) tr" by blast
    obtain out where out: "calls (snd (main s l w)) = calls (snd (run_invocation s be ?i ?w)) @ out" "list_all observes out"
      using main_calls [OF assms(2) Ok] by blast
    have "list_all (keeps_to_line s be l) tr"
      using tr(2) named by (fastforce simp: list_all_iff keeps_to_def keeps_to_line_def line_container_def)
    moreover have "list_all (keeps_to_line s be l) out" using out(2) by (auto simp: list_all_iff observes_keeps)
    ultimately show ?thesis using tr(1) out(1) by (simp add: observes_keeps)
  next
    case (Err e)
    then have "calls (snd (main s l w)) = calls w @ [Getenv ''BPM_BOSH_ROOT'', Print StdErr (s_usage s (Use (command_table s be (l_command l))) @ [CHR 0x0A]),
        Fprintf StdErr (''Error: %s'' @ [CHR 0x0A]) [AErr e]]"
      using assms(2) by (simp add: main_def Execute_def sys_str_def sys_do_def bindM_def attemptM_def thenM_def abortM_def)
    then show ?thesis by (simp add: observes_keeps)
  next
    case (Abort a)
    then have "calls (snd (main s l w)) = calls w @ [Getenv ''BPM_BOSH_ROOT'']"
      using assms(2) by (simp add: main_def Execute_def sys_str_def bindM_def attemptM_def)
    then show ?thesis by (simp add: observes_keeps)
  qed
qed

section \<open>What killed commands leave behind\<close>

lemma cut_short_live:
  assumes b: "runc_behaves be json (env w) live own" and l: "line_well_named s be l"
    and be: "be = NewEnv (r_out (env w) (calls w) (Getenv ''BPM_BOSH_ROOT''))" and k: "cut_short s l w w'"
    and cid: "cid \<in> own" "line_container s be l \<noteq> Some cid"
  shows "cid \<in> live (calls w') \<longleftrightarrow> cid \<in> live (calls w)"
proof -
  obtain tr where tr: "calls (snd (main s l w)) = calls w @ tr" "list_all (keeps_to_line s be l) tr"
    using main_keeps_to [OF l be] by blast
  obtain t where t: "calls w' = calls w @ t" "prefix t tr" using k tr(1) by (auto simp: cut_short_def prefix_def)
  have "proper_elem cid" "others_keep be live cid" using b cid(1) by (auto simp: runc_behaves_def)
  moreover from this tr(2) t(2) cid(2) have "list_all (\<lambda>x. \<not> concerns be cid x) t"
    by (auto simp: list_all_iff prefix_def keeps_to_line_def)
  ultimately show ?thesis unfolding t(1) by (intro live_frame)
qed

lemma interrupted_live:
  assumes "interrupted s ls w w'" and "runc_behaves be json (env w) live own" and "list_all (line_well_named s be) ls"
    and "\<forall>h. r_out (env w) h (Getenv ''BPM_BOSH_ROOT'') = rt" and "be = NewEnv rt"
    and "cid \<in> own" and "\<forall>l\<in>set ls. line_container s be l \<noteq> Some cid"
  shows "env w' = env w \<and> (cid \<in> live (calls w') \<longleftrightarrow> cid \<in> live (calls w))"
  using assms
proof (induction rule: interrupted.induct)
  case (killed l w w1 ls w2)
  have "cid \<in> live (calls w1) \<longleftrightarrow> cid \<in> live (calls w)"
    using cut_short_live [OF killed.prems(1) _ _ killed.hyps(1) killed.prems(5)] killed.prems by simp
  moreover have "env w1 = env w" using killed.hyps(1) by (simp add: cut_short_def)
  ultimately show ?case using killed.IH killed.prems by simp
qed simp

lemma interrupted_env: "interrupted s ls w w' \<Longrightarrow> env w' = env w"
  by (induction rule: interrupted.induct) (simp_all add: cut_short_def)

text \<open>Operations on the containers in which two sets differ make up for the difference.\<close>

definition op_containers :: "bosh_env \<Rightarrow> bpm_op list \<Rightarrow> string set" where
  "op_containers be ops = (\<lambda>op. cfg_ContainerID (op_config be op)) ` set ops"

lemma fold_a_step_cong:
  "(\<And>cid. cid \<notin> op_containers be ops \<Longrightarrow> cid \<in> S \<longleftrightarrow> cid \<in> S') \<Longrightarrow>
    fold (\<lambda>op. a_step (abstract_op be op)) ops S = fold (\<lambda>op. a_step (abstract_op be op)) ops S'"
proof (induction ops arbitrary: S S')
  case (Cons op ops)
  have "cid \<in> a_step (abstract_op be op) S \<longleftrightarrow> cid \<in> a_step (abstract_op be op) S'" if "cid \<notin> op_containers be ops" for cid
  proof (cases "cid = cfg_ContainerID (op_config be op)")
    case False
    with Cons.prems [of cid] that have "cid \<in> S \<longleftrightarrow> cid \<in> S'" by (simp add: op_containers_def)
    with False show ?thesis by (cases op) simp_all
  qed (cases op; simp)
  from Cons.IH [OF this] show ?case by simp
qed (auto simp: op_containers_def)

text \<open>C3: the program gets done what it is asked for, also after it has been cut short. Any number of processes of the program, with any command
  lines, are killed at any points; then commands are given for every process that they named, and run to their end. On a host that does its
  part, with runc behaving as documented, each job configured and the timer of \<open>stop\<close> firing within fewer rounds than there is fuel, every one
  of these commands exits with status 0, from its flags and the root check over the lock to the last unlock, stale or unreadable containers
  included; and the containers afterwards are those that the abstract machine computes from the ones before the interruptions, as
  if the killed processes had never run. Only a container that runc has created and not yet started must first be stopped.\<close>

theorem recovers_from_kills:
  assumes "interrupted s ls w w1" and "list_all (line_well_named s be) ls"
    and "\<forall>l\<in>set ls. \<forall>cid\<in>own. line_container s be l = Some cid \<longrightarrow> cid \<in> op_containers be ops"
    and "obliging be (s_externals s) live own (env w)" and "list_all (admissible be own) ops"
    and "all_ready be (s_externals s) (env w) (live (calls w1) \<inter> own) ops" and "timer_fires n (env w)" and "n < s_fuel s"
    and "\<forall>h. r_out (env w) h (Getenv ''BPM_BOSH_ROOT'') = rt" and "be = NewEnv rt"
  shows "\<exists>w'. session s (map op_line ops) w1 = (replicate (length ops) 0, w') \<and>
    live (calls w') \<inter> own = fold (\<lambda>op. a_step (abstract_op be op)) ops (live (calls w) \<inter> own)"
proof -
  have env: "env w1 = env w" by (rule interrupted_env [OF assms(1)])
  have "cid \<in> live (calls w1) \<inter> own \<longleftrightarrow> cid \<in> live (calls w) \<inter> own" if "cid \<notin> op_containers be ops" for cid
    using interrupted_live [OF assms(1) obligingD(3) [OF assms(4)] assms(2,9,10)] assms(3) that by blast
  then have "fold (\<lambda>op. a_step (abstract_op be op)) ops (live (calls w1) \<inter> own) = fold (\<lambda>op. a_step (abstract_op be op)) ops (live (calls w) \<inter> own)"
    by (rule fold_a_step_cong)
  moreover have "\<exists>w'. session s (map op_line ops) w1 = (replicate (length ops) 0, w') \<and>
      live (calls w') \<inter> own = fold (\<lambda>op. a_step (abstract_op be op)) ops (live (calls w1) \<inter> own)"
    by (rule session_runs [where n = n and rt = rt]; (unfold env)?) (fact assms)+
  ultimately show ?thesis by (simp only:)
qed

section \<open>A start that is killed anywhere\<close>

lemma line_config_op:
  assumes "op_process op \<noteq> []"
  shows "line_config s be (op_line op) = Some (op_config be op)"
proof -
  obtain g where "apply_flags (Flags (command_table s be (l_command (op_line op))) @ root_flags) (l_flags (op_line op)) (init_globals s be) = Ok g"
    "invocation_of (op_line op) g = op_invocation op" using op_line_invocation by blast
  moreover have "i_process (op_invocation op) = op_process op" by (cases op) simp_all
  ultimately show ?thesis using validateInput_op [OF assms, of be] by (simp add: line_config_def)
qed

definition killed_start :: "nat \<Rightarrow> world" where
  "killed_start n = kind_world\<lparr>calls := take n (calls (snd (main kind_setting (op_line (StartJob ''web'' ''web'')) kind_world)))\<rparr>"

lemma killed_start_interrupted: "interrupted kind_setting [op_line (StartJob ''web'' ''web'')] kind_world (killed_start n)"
proof (rule interrupted.killed [OF _ interrupted.none])
  show "cut_short kind_setting (op_line (StartJob ''web'' ''web'')) kind_world (killed_start n)"
    by (simp add: cut_short_def killed_start_def kind_world_def take_is_prefix)
qed

theorem recovers_from_kills_witness:
  "\<forall>n. \<exists>w'. session kind_setting (map op_line [StopJob ''web'' ''web'', StartJob ''web'' ''web'']) (killed_start n) = ([0, 0], w') \<and>
     ''bpm-web'' \<in> sim_live sim_be (calls w')"
proof
  fix n
  let ?own = "{cid. proper_elem cid}" and ?ops = "[StopJob ''web'' ''web'', StartJob ''web'' ''web'']" and ?l = "op_line (StartJob ''web'' ''web'')"
  have c: "line_config kind_setting sim_be ?l = Some sim_cfg"
    using line_config_op [of "StartJob ''web'' ''web''" kind_setting sim_be] by (simp add: example_cfg_def del: op_line.simps)
  have l: "list_all (line_well_named kind_setting sim_be) [?l]"
    using sim_cfg_named by (simp add: line_well_named_def c del: op_line.simps)
  have n: "\<forall>l\<in>set [?l]. \<forall>cid\<in>?own. line_container kind_setting sim_be l = Some cid \<longrightarrow> cid \<in> op_containers sim_be ?ops"
    by (auto simp: line_container_def c op_containers_def example_cfg_def simp del: op_line.simps)
  have o: "obliging sim_be (s_externals kind_setting) (sim_live sim_be) ?own (env kind_world)"
    using kind_obliging [of sim_be] by (simp add: kind_setting_def kind_world_def)
  have a: "list_all (admissible sim_be ?own) ?ops" using sim_cfg_named by (simp add: admissible_def example_cfg_def)
  have r: "all_ready sim_be (s_externals kind_setting) (env kind_world) S ?ops" for S by (simp add: kind_setting_def kind_world_def kind_ready)
  have t: "timer_fires 0 (env kind_world)" "0 < s_fuel kind_setting"
    by (simp_all add: timer_fires_def kind_world_def kind_setting_def kind_env_def sim_env_def calm_env_def)
  have g: "\<forall>h. r_out (env kind_world) h (Getenv ''BPM_BOSH_ROOT'') = []" by (simp add: kind_world_def kind_env_def sim_env_def sim_missing_def)
  obtain w' where w': "session kind_setting (map op_line ?ops) (killed_start n) = (replicate (length ?ops) 0, w')"
      "sim_live sim_be (calls w') \<inter> ?own = fold (\<lambda>op. a_step (abstract_op sim_be op)) ?ops (sim_live sim_be (calls kind_world) \<inter> ?own)"
    using recovers_from_kills [OF killed_start_interrupted l n o a r t g refl] by blast
  have "cfg_ContainerID (NewBPMConfig sim_be ''web'' ''web'') = ''bpm-web''" by code_simp
  with w'(2) have "''bpm-web'' \<in> sim_live sim_be (calls w')" by auto
  with w'(1) show "\<exists>w'. session kind_setting (map op_line ?ops) (killed_start n) = ([0, 0], w') \<and> ''bpm-web'' \<in> sim_live sim_be (calls w')"
    by (simp add: numeral_2_eq_2)
qed

end
