(* ===== verification/Errands.thy ===== *)
theory Errands
  imports Progress
begin

text \<open>
  Errands: \<open>bpm run\<close> runs a container in the foreground and passes the exit status of its process on
  (\<open>src/bpm/commands/run.go\<close>, \<open>RunProcess\<close> of the lifecycle, \<open>exitstatus\<close>, \<open>main\<close>), from the command line to the status of the program,
  on a host that does its part as in \<open>Progress\<close>.
\<close>

section \<open>What an errand needs\<close>

text \<open>No container of the process is found running, or half created.\<close>

definition idle :: "bosh_env \<Rightarrow> json_codec \<Rightarrow> environment \<Rightarrow> string \<Rightarrow> bool" where
  "idle be json e cid \<longleftrightarrow>
     (\<forall>h sd st. r_cmd e h (state_request (runc_of be sd) cid) = CmdOk \<longrightarrow>
        decodeState json (r_out e h (state_request (runc_of be sd) cid)) = Inr st \<longrightarrow> St_Status st \<notin> {''creating'', ''created'', ''running''})"

text \<open>How a container ends that runc runs in the foreground.\<close>

definition foreground_ends :: "bosh_env \<Rightarrow> environment \<Rightarrow> string \<Rightarrow> cmd_result \<Rightarrow> bool" where
  "foreground_ends be e cid res \<longleftrightarrow> (\<forall>h k. requests be (RunCmd k) = Some (Foreground cid) \<longrightarrow> r_cmd e h (RunCmd k) = res)"

definition errand_invocation :: "string \<Rightarrow> string \<Rightarrow> string list \<Rightarrow> string list \<Rightarrow> invocation" where
  "errand_invocation job proc vols es = \<lparr>i_command = RunCommand vols es, i_process = proc, i_version = False, i_args = [job]\<rparr>"

lemma idle_not_running:
  assumes "idle be (x_json x) e (cfg_ContainerID c)" and "env w = e"
    and "current_state be c (program_lifecycle x be locks sd f) w = (Ok state, w')"
  shows "state \<noteq> ProcessStateRunning"
proof
  assume r: "state = ProcessStateRunning"
  obtain q where "StatProcess (program_lifecycle x be locks sd f) c w = (Ok q, w')" using current_state_running assms(3) r by blast
  moreover from this assms(3) r have "P_Status q = ProcessStateRunning"
    by (simp add: current_state_def bindM_def attemptM_def returnM_def)
  ultimately show False
    using assms(1,2)
    by (auto simp: StatProcess_def ContainerState_op_def io_simps idle_def newProcessFromContainerState_def
        containerStateToString_def res_sum_def ProcessStateRunning_def ProcessStateFailed_def ProcessStateCreating_def ProcessStateCreated_def
        split: option.splits sum.splits if_splits)
qed

lemma RunProcess_status:
  assumes o: "obliging be x live own e" and c: "well_named c" and p: "provided x e c p"
    and res: "foreground_ends be e (cfg_ContainerID c) res" and w: "env w = e"
  shows "\<exists>w'. RunProcess (program_lifecycle x be locks sd f) c p w =
    (case res of CmdOk \<Rightarrow> Ok (0, None) | CmdFailed st err \<Rightarrow> Ok (case st of Some n \<Rightarrow> n | None \<Rightarrow> 1, Some err)
       | CmdNotStarted err \<Rightarrow> Abort nil_panic, w')"
proof -
  let ?lc = "program_lifecycle x be locks sd f" and ?id = "cfg_ContainerID c"
  obtain out err w1 where s: "setupProcess ?lc c p w = (Ok (out, err), w1)" "env w1 = e"
    using succeedsE [OF succeeds_setupProcess [OF obligingD(1,2) [OF o] p] w] by (metis surj_pair)
  let ?k = "(buildCmd (runc_of be sd) ''run'' [''--bundle'', cfg_BundlePath c, ?id])\<lparr>cmd_stdout := [Fd out, StdOut], cmd_stderr := [Fd err, StdErr]\<rparr>"
  have "cfg_BundlePath c \<noteq> ''--detach''" using c by (auto simp: well_named_def cfg_BundlePath_eq rooted_path_def)
  then have "requests be (RunCmd ?k) = Some (Foreground ?id)" by (simp add: requests_buildCmd)
  then have "r_cmd e (calls w1) (RunCmd ?k) = res" using res by (simp add: foreground_ends_def)
  with s show ?thesis
    by (auto simp: RunProcess_def bindM_def attemptM_def RunContainer_def Let_def deferM_def sys_cmd_def sys_err_def returnM_def abortM_def
        split: cmd_result.split option.split)
qed

lemma run_status:
  assumes o: "obliging be x live own e" and c: "cfg_ContainerID c \<in> own" "well_named c" "boshEnv c = be"
    and idle: "idle be (x_json x) e (cfg_ContainerID c)" and l: "loads x e c nm p0"
    and flags: "AddVolumes vols be (cfg_DefaultVolumes c) p0 = (Ok (), p1)" "AddEnvVars es be (cfg_DefaultVolumes c) p1 = (Ok (), p)"
    and p: "provided x e c p" and res: "foreground_ends be e (cfg_ContainerID c) res" and w: "env w = e"
  shows "\<exists>w'. run x be locks vols es c nm w =
    (case res of CmdOk \<Rightarrow> Ok ()
       | CmdFailed st err \<Rightarrow> Err (ExitError (case st of Some n \<Rightarrow> n | None \<Rightarrow> 1) (Errorf ''failed to run job-process: %s'' [AErr err]))
       | CmdNotStarted err \<Rightarrow> Abort nil_panic, w')"
proof -
  let ?w1 = "record_call (ReadFile (cfg_JobConfig c)) w"
  obtain lc w2 where lc: "newRuncLifecycle x be locks ?w1 = (Ok lc, w2)" "env w2 = e"
    using succeedsE [OF succeeds_newRuncLifecycle [OF obligingD(1) [OF o]], of ?w1] w unfolding record_call_simps by blast
  obtain sd f where lc': "lc = program_lifecycle x be locks sd f" using newRuncLifecycle_Ok [OF lc(1)] by blast
  have half: "never_half_created be (x_json x) e (cfg_ContainerID c) \<or> cfg_ContainerID c \<notin> live (calls w2)"
    using idle by (fastforce simp: idle_def never_half_created_def)
  show ?thesis
    using o c half lc(2)
  proof (cases rule: current_state_clears [where locks = locks and sd = sd and f = f])
    case (Running w')
    with idle_not_running [OF idle lc(2)] show ?thesis by blast
  next
    case (Cleared state w3 w4)
    from RunProcess_status [where locks = locks and sd = sd and f = f, OF o c(2) p res Cleared(4)] obtain w' where
      "RunProcess lc c p w4 = (case res of CmdOk \<Rightarrow> Ok (0, None) | CmdFailed st err \<Rightarrow> Ok (case st of Some n \<Rightarrow> n | None \<Rightarrow> 1, Some err)
         | CmdNotStarted err \<Rightarrow> Abort nil_panic, w')" unfolding lc' by blast
    with load_process_Ok [OF l w] lc Cleared(1-3) flags show ?thesis
      by (cases res) (simp_all add: run_def bindM_Ok thenM_def liftM_def lc' bindM_def [of "RunProcess _ _ _"] returnM_def throwM_def)
  qed
qed

lemma run_invocation_status:
  assumes "obliging be (s_externals s) live own (env w)" and "admissible be own (StartJob job proc)"
    and "idle be (x_json (s_externals s)) (env w) (cfg_ContainerID (NewBPMConfig be job proc))"
    and "loads (s_externals s) (env w) (NewBPMConfig be job proc) proc p0"
    and "AddVolumes vols be (cfg_DefaultVolumes (NewBPMConfig be job proc)) p0 = (Ok (), p1)"
    and "AddEnvVars es be (cfg_DefaultVolumes (NewBPMConfig be job proc)) p1 = (Ok (), p)"
    and "provided (s_externals s) (env w) (NewBPMConfig be job proc) p"
    and "foreground_ends be (env w) (cfg_ContainerID (NewBPMConfig be job proc)) res"
  shows "case (res, fst (run_invocation s be (errand_invocation job proc vols es) w)) of
      (CmdOk, r) \<Rightarrow> r = Ok ()
    | (CmdFailed st _, Err e) \<Rightarrow> FromError (Some e) = (case st of Some n \<Rightarrow> n | None \<Rightarrow> 1)
    | (CmdNotStarted _, Abort x) \<Rightarrow> x = Panic ''nil pointer dereference''
    | _ \<Rightarrow> False"
proof -
  let ?x = "s_externals s" and ?c = "NewBPMConfig be job proc"
  have c: "cfg_ContainerID ?c \<in> own" "well_named ?c" "boshEnv ?c = be" using assms(2) by (simp_all add: admissible_def NewBPMConfig_def)
  then have "proc \<noteq> []" by (auto simp: well_named_def NewBPMConfig_def proper_elem_def)
  then have v: "validateInput be proc [job] = Ok (?c, proc)" by (simp add: validateInput_def Let_def)
  obtain locks w1 where 1: "rootPre be w = (Ok locks, w1)" "env w1 = env w"
    using succeedsE [OF succeeds_rootPre [OF obligingD(1) [OF assms(1)]] refl] by blast
  obtain y w2 where 2: "lifecyclePre be locks proc [job] w1 = (Ok y, w2)" "env w2 = env w"
    using succeedsE [OF succeeds_lifecyclePre [OF obligingD(1) [OF assms(1)] v] 1(2)] by blast
  obtain cfg nm lock where y: "y = (cfg, nm, lock)" by (cases y)
  have lk: "cfg = ?c" "nm = proc" "fl_locked lock" using lifecyclePre_Ok [OF 2(1) [unfolded y]] v by auto
  obtain w3 where 3: "run ?x be locks vols es ?c proc w2 =
    (case res of CmdOk \<Rightarrow> Ok ()
       | CmdFailed st err \<Rightarrow> Err (ExitError (case st of Some n \<Rightarrow> n | None \<Rightarrow> 1) (Errorf ''failed to run job-process: %s'' [AErr err]))
       | CmdNotStarted err \<Rightarrow> Abort nil_panic, w3)"
    using run_status [OF assms(1) c assms(3-8) 2(2)] by blast
  have inv: "run_invocation s be (errand_invocation job proc vols es) w = thenM (run ?x be locks vols es ?c proc) (releaseLifecycleLock lock) w2"
    using 1(1) 2(1) by (simp add: run_invocation_def errand_invocation_def persistentPre_def command_body_def runPre_def runPost_def Let_def bindM_Ok y lk)
  show ?thesis
  proof (cases res)
    case CmdOk
    have "env w3 = env w" using emits_env [OF emits_bodies_anything(3), of ?x be locks vols es ?c proc w2] 3 2(2) by simp
    with lk(3) obligingD(1) [OF assms(1)] have "fst (releaseLifecycleLock lock w3) = Ok ()"
      by (simp add: releaseLifecycleLock_def flock_Unlock_def io_simps serving_def)
    with CmdOk 3 show ?thesis by (simp add: inv thenM_def bindM_def)
  qed (use 3 in \<open>simp_all add: inv thenM_def bindM_def\<close>)
qed

definition errand_line :: "string \<Rightarrow> string \<Rightarrow> string list \<Rightarrow> string list \<Rightarrow> command_line" where
  "errand_line job proc vols es =
     \<lparr>l_command = C_run,
      l_flags = [(''process'', FString proc)] @ map (\<lambda>v. (''volume'', FString v)) vols @ map (\<lambda>v. (''env'', FString v)) es,
      l_args = [job]\<rparr>"

lemma errand_line_invocation:
  "\<exists>g. apply_flags (Flags (command_table s be (l_command (errand_line job proc vols es))) @ root_flags) (l_flags (errand_line job proc vols es))
       (init_globals s be) = Ok g \<and> invocation_of (errand_line job proc vols es) g = errand_invocation job proc vols es"
proof -
  have "apply_flags (run_flags @ root_flags) [(''process'', FString proc)] g = Ok (g\<lparr>g_procName := proc\<rparr>)" for g
    by (simp add: run_flags_def processFlag_def StringVarP_def)
  then have "apply_flags (run_flags @ root_flags)
      ([(''process'', FString proc)] @ map (\<lambda>v. (''volume'', FString v)) vols @ map (\<lambda>v. (''env'', FString v)) es) (init_globals s be) =
      Ok ((init_globals s be)\<lparr>g_procName := proc, g_volumes := g_volumes (init_globals s be) @ vols, g_env := g_env (init_globals s be) @ es\<rparr>)"
    by (simp only: apply_flags_append apply_run_flags bind_res_simps) simp
  then show ?thesis
    by (simp add: errand_line_def errand_invocation_def runCommand_def invocation_of_def init_globals_sel del: apply_flags.simps)
qed

text \<open>C21: the exit status of an errand. On a host that does its part, and with no container of the process running,
  \<open>bpm run\<close> with any volumes and variables that validation accepts gets as far as running the container, whatever was left of
  an earlier one, and the program exits with the status of the process: 0 when it succeeds, its own status when it
  fails, and 1 when it has none. Only a runc that cannot be started at all makes the program panic.\<close>

theorem errand_status:
  assumes "obliging be (s_externals s) live own (env w)" and "admissible be own (StartJob job proc)"
    and "idle be (x_json (s_externals s)) (env w) (cfg_ContainerID (NewBPMConfig be job proc))"
    and "loads (s_externals s) (env w) (NewBPMConfig be job proc) proc p0"
    and "AddVolumes vols be (cfg_DefaultVolumes (NewBPMConfig be job proc)) p0 = (Ok (), p1)"
    and "AddEnvVars es be (cfg_DefaultVolumes (NewBPMConfig be job proc)) p1 = (Ok (), p)"
    and "provided (s_externals s) (env w) (NewBPMConfig be job proc) p"
    and "foreground_ends be (env w) (cfg_ContainerID (NewBPMConfig be job proc)) res"
    and "be = NewEnv (r_out (env w) (calls w) (Getenv ''BPM_BOSH_ROOT''))"
  shows "fst (main s (errand_line job proc vols es) w) =
    Abort (case res of CmdOk \<Rightarrow> Exit 0 | CmdFailed (Some n) _ \<Rightarrow> Exit n | CmdFailed None _ \<Rightarrow> Exit 1
      | CmdNotStarted _ \<Rightarrow> Panic ''nil pointer dereference'')"
proof -
  let ?w = "record_call (Getenv ''BPM_BOSH_ROOT'') w" and ?l = "errand_line job proc vols es"
  obtain g where g: "apply_flags (Flags (command_table s be (l_command ?l)) @ root_flags) (l_flags ?l) (init_globals s be) = Ok g"
      "invocation_of ?l g = errand_invocation job proc vols es" using errand_line_invocation by blast
  from run_invocation_status [of be s live own ?w job proc p0 vols p1 es p res] assms(1-8)
  have r: "case (res, fst (run_invocation s be (errand_invocation job proc vols es) ?w)) of
      (CmdOk, r) \<Rightarrow> r = Ok ()
    | (CmdFailed st _, Err e) \<Rightarrow> FromError (Some e) = (case st of Some n \<Rightarrow> n | None \<Rightarrow> 1)
    | (CmdNotStarted _, Abort x) \<Rightarrow> x = Panic ''nil pointer dereference''
    | _ \<Rightarrow> False" by simp
  from main_outcome [OF assms(9) g(1) refl, unfolded g(2)] r show ?thesis
    by (auto split: cmd_result.splits res.splits option.splits)
qed

section \<open>An errand that fails\<close>

text \<open>The same host with a process that fails with status 3, and a container of it left behind.\<close>

definition errand_env :: "bosh_env \<Rightarrow> environment" where
  "errand_env be = (kind_env be)
     \<lparr>r_cmd := (\<lambda>h x. case requests be x of
        Some (Foreground _) \<Rightarrow> CmdFailed (Some 3) (Errorf ''exit status 3'' []) | _ \<Rightarrow> r_cmd (kind_env be) h x)\<rparr>"

definition errand_externals :: externals where
  "errand_externals = sim_externals\<lparr>x_json := sim_json
     \<lparr>decodeState := (\<lambda>s. Inr \<lparr>St_ID = ''bpm-web'', St_Status = ''stopped'', St_Pid = 0\<rparr>)\<rparr>\<rparr>"

lemma errand_obliging: "obliging be errand_externals (sim_live be) {cid. proper_elem cid} (errand_env be)"
proof -
  have k: "serving (kind_env be)" "runs_programs be (sim_live be) (kind_env be)"
    "runc_behaves be sim_json (kind_env be) (sim_live be) {cid. proper_elem cid}"
    using kind_obliging [of be] by (simp_all add: obliging_def sim_externals_def)
  have "serving (errand_env be)" using k(1) by (simp add: serving_def errand_env_def)
  moreover have "runs_programs be (sim_live be) (errand_env be)"
    using k(2) by (auto simp: runs_programs_def errand_env_def split: option.splits runc_request.splits)
  moreover have "runc_behaves be (x_json errand_externals) (errand_env be) (sim_live be) {cid. proper_elem cid}"
    using k(3)
    by (auto simp: runc_behaves_def run_creates_def run_cleans_up_def delete_removes_def state_tells_def foreign_errors_def
        errand_env_def errand_externals_def requests_def split: option.splits runc_request.splits)
  ultimately show ?thesis by (simp add: obliging_def)
qed

theorem errand_status_witness:
  "fst (main (kind_setting\<lparr>s_externals := errand_externals\<rparr>) (errand_line ''web'' ''web'' [] []) \<lparr>calls = [], env = errand_env sim_be\<rparr>) = Abort (Exit 3)"
proof -
  let ?c = "NewBPMConfig sim_be ''web'' ''web''" and ?s = "kind_setting\<lparr>s_externals := errand_externals\<rparr>" and ?e = "errand_env sim_be"
  let ?p = "plain_process\<lparr>Env := Some []\<rparr>"
  have a: "admissible sim_be {cid. proper_elem cid} (StartJob ''web'' ''web'')"
    using sim_cfg_named by (simp add: admissible_def example_cfg_def)
  have i: "idle sim_be (x_json errand_externals) ?e (cfg_ContainerID ?c)" by (simp add: idle_def errand_externals_def)
  have l: "loads errand_externals ?e ?c ''web'' plain_process" and p: "provided errand_externals ?e ?c ?p"
    by (simp_all add: loads_def provided_def errand_env_def kind_env_def sim_env_def calm_env_def errand_externals_def sim_externals_def
        example_externals_def JobConfig_Validate_def plain_process_def example_process_def ProcessConfig_Validate_def
        processByNameFromJobConfig_def bind_res_def)
  have v: "AddVolumes [] sim_be (cfg_DefaultVolumes ?c) plain_process = (Ok (), plain_process)"
    "AddEnvVars [] sim_be (cfg_DefaultVolumes ?c) plain_process = (Ok (), ?p)"
    by (simp_all add: AddVolumes_def AddEnvVars_def ProcessConfig_Validate_def plain_process_def example_process_def bind_res_def env_map_def)
  have f: "foreground_ends sim_be ?e (cfg_ContainerID ?c) (CmdFailed (Some 3) (Errorf ''exit status 3'' []))"
    by (simp add: foreground_ends_def errand_env_def)
  have o: "obliging sim_be (s_externals ?s) (sim_live sim_be) {cid. proper_elem cid} (env \<lparr>calls = [], env = ?e\<rparr>)"
    using errand_obliging [of sim_be] by simp
  have b: "sim_be = NewEnv (r_out (env \<lparr>calls = [], env = ?e\<rparr>) (calls \<lparr>calls = [], env = ?e\<rparr>) (Getenv ''BPM_BOSH_ROOT''))"
    by (simp add: errand_env_def kind_env_def sim_env_def sim_missing_def)
  show ?thesis using errand_status [OF o a _ _ v _ _ b] i l p f by simp
qed

end
