(* ===== verification/Termination.thy ===== *)
theory Termination
  imports Outcomes
begin

text \<open>
  Every invocation comes to an end. Only three loops of the program have no bound of their own, those of \<open>stop\<close>,
  \<open>trace\<close> and \<open>logs\<close>, and their models take fuel. \<open>finishes\<close> says of an action that it never runs out of fuel,
  in any world; for everything else it is an instance of \<open>outcome_policy\<close>, and for the three commands it holds when the timer
  fires, or the child ends, within fewer events than there is fuel.
\<close>

section \<open>Never out of fuel\<close>

abbreviation in_time :: "'a res \<Rightarrow> bool" where
  "in_time \<equiv> res_in (\<lambda>a. a \<noteq> NoFuel)"

abbreviation finishes :: "'a io \<Rightarrow> bool" where
  "finishes \<equiv> ends (\<lambda>_. True) (\<lambda>a. a \<noteq> NoFuel)"

lemma in_time_iff: "in_time r \<longleftrightarrow> r \<noteq> Abort NoFuel"
  by (cases r) simp_all

lemma finishes_iff: "finishes m \<longleftrightarrow> (\<forall>w. in_time (fst (m w)))"
  by (simp add: ends_def)

lemma Decode_in_time: "in_time (Decode s)"
proof -
  have "in_time (decode_loop full t)" for full t
    by (induction full t rule: decode_loop.induct) (simp_all add: bind_res_in split: list.split)
  then show ?thesis by (simp add: Decode_def)
qed

interpretation terminating: outcome_policy "\<lambda>_. True" "\<lambda>a. a \<noteq> NoFuel" x for x
  by unfold_locales (simp_all add: Decode_in_time)

lemma finishes_release: "finishes (releaseLifecycleLock lock)"
  unfolding releaseLifecycleLock_def flock_Unlock_def by (intro fin_intros) simp

section \<open>The loops\<close>

text \<open>The child of \<open>trace\<close> and \<open>logs\<close>: once \<open>n\<close> more events have been received, the next is its end.\<close>

definition child_ends_within :: "nat \<Rightarrow> world \<Rightarrow> bool" where
  "child_ends_within n w \<longleftrightarrow>
     (\<forall>h. selects (calls w) + n \<le> selects h \<longrightarrow> (\<exists>r. r_event (env w) h Select = ChildDone r))"

lemma child_ends_later:
  "child_ends_within n w \<Longrightarrow> env w' = env w \<Longrightarrow> calls w' = calls w @ tr \<Longrightarrow> child_ends_within n w'"
  by (simp add: child_ends_within_def)

lemma child_ends_round:
  assumes "child_ends_within n w" and "\<And>r. r_event (env w) (calls w) Select \<noteq> ChildDone r" and "n < Suc fuel"
    and "env w' = env w" and "calls w' = calls w @ Select # tr"
  shows "child_ends_within (n - 1) w'" and "n - 1 < fuel"
  using assms by (cases n; fastforce simp: child_ends_within_def selects_def)+

lemma forward_loop_in_time:
  assumes "\<And>r. finishes (fin r)"
  shows "child_ends_within n w \<Longrightarrow> n < fuel \<Longrightarrow> in_time (fst (forward_loop fin fuel w))"
proof (induction fuel arbitrary: n w)
  case (Suc fuel)
  show ?case
  proof (cases "r_event (env w) (calls w) Select")
    case (ChildDone r)
    then show ?thesis using assms by (simp add: sys_event_def bindM_def finishes_iff)
  next
    case (GotSignal sig)
    then have "child_ends_within (n - 1) (record_call (SignalCmd sig) (record_call Select w))" "n - 1 < fuel"
      using child_ends_round [OF Suc.prems(1) _ Suc.prems(2), where w' = "record_call (SignalCmd sig) (record_call Select w)" and tr = "[SignalCmd sig]"] by simp_all
    from Suc.IH [OF this] GotSignal show ?thesis
      by (simp add: sys_event_def bindM_def thenM_def ignoreM_def sys_err_def res_of_def split: option.splits)
  next
    case Tick
    then have "child_ends_within (n - 1) (record_call Select w)" "n - 1 < fuel"
      using child_ends_round [OF Suc.prems(1) _ Suc.prems(2), where w' = "record_call Select w" and tr = "[]"] by simp_all
    from Suc.IH [OF this] Tick show ?thesis by (simp add: sys_event_def bindM_def)
  next
    case TimedOut
    then have "child_ends_within (n - 1) (record_call Select w)" "n - 1 < fuel"
      using child_ends_round [OF Suc.prems(1) _ Suc.prems(2), where w' = "record_call Select w" and tr = "[]"] by simp_all
    from Suc.IH [OF this] TimedOut show ?thesis by (simp add: sys_event_def bindM_def)
  qed
qed simp

lemma in_time_bindM:
  assumes "finishes m" and "emits P m"
    and later: "\<And>w' tr. env w' = env w \<Longrightarrow> calls w' = calls w @ tr \<Longrightarrow> S w'"
    and "\<And>a w'. m w = (Ok a, w') \<Longrightarrow> S w' \<Longrightarrow> in_time (fst (f a w'))"
  shows "in_time (fst (bindM m f w))"
proof -
  obtain r w' where m: "m w = (r, w')" by (cases "m w")
  with assms(1) have "in_time r" unfolding finishes_iff by (metis fst_conv)
  moreover have "S w'"
    using later emits_trace [OF assms(2) m] emits_env [OF assms(2), of w] m by auto
  ultimately show ?thesis using m assms(4) by (cases r) (auto simp: bindM_def)
qed

lemma emits_logsDontExist: "emits observes (logsDontExist fs)"
proof (induction fs)
  case (Cons f fs)
  then show ?case unfolding logsDontExist.simps by (intro emits_intros) simp_all
qed (simp add: emits_intros)

lemma trace_in_time:
  assumes "child_ends_within n w" and "n < fuel"
  shows "in_time (fst (trace fuel x be locks c w))"
  unfolding trace_def
proof (rule in_time_bindM [where S = "child_ends_within n", OF terminating.ends_newRuncLifecycle emits_newRuncLifecycle child_ends_later [OF assms(1)]])
  fix lc w1
  assume lc: "newRuncLifecycle x be locks w = (Ok lc, w1)" and c1: "child_ends_within n w1"
  obtain sd f where lc': "lc = program_lifecycle x be locks sd f" using newRuncLifecycle_Ok [OF lc] by blast
  have em: "emits observes (running_process lc c)" unfolding running_process_def lc' by (intro emits_intros)
  have "in_time (fst (thenM (sys_err (StartCmd k)) (trace_loop fuel) w2))" if "child_ends_within n w2" for k w2
  proof -
    have "child_ends_within n (record_call (StartCmd k) w2)" by (rule child_ends_later [OF that]) simp_all
    from forward_loop_in_time [OF terminating.ends_ended(1) this assms(2)] show ?thesis
      by (simp add: thenM_def bindM_def sys_err_def res_of_def trace_loop_def split: option.splits)
  qed
  then show "in_time (fst (bindM (running_process lc c) (\<lambda>process.
     let straceCmd = (exec_Command ''strace'' [''-s'', ''100'', ''-f'', ''-y'', ''-yy'', ''-p'', strconv_Itoa (Pid process)])
           \<lparr>cmd_stdin := [StdIn], cmd_stdout := [StdOut], cmd_stderr := [StdErr]\<rparr>
     in thenM (sys_err (StartCmd straceCmd)) (trace_loop fuel)) w1))"
    unfolding Let_def
    by (intro in_time_bindM [where S = "child_ends_within n", OF _ em child_ends_later [OF c1]]) (simp_all add: lc' fin_intros)
qed

lemma logs_in_time:
  assumes "child_ends_within n w" and "n < fuel"
  shows "in_time (fst (logsForJob fuel fl c w))"
proof -
  have "in_time (fst (thenM (sys_err (StartCmd k)) (logs_loop fuel) w2))" if "child_ends_within n w2" for k w2
  proof -
    have "child_ends_within n (record_call (StartCmd k) w2)" by (rule child_ends_later [OF that]) simp_all
    from forward_loop_in_time [OF terminating.ends_ended(2) this assms(2)] show ?thesis
      by (simp add: thenM_def bindM_def sys_err_def res_of_def logs_loop_def split: option.splits)
  qed
  then show ?thesis
    unfolding logsForJob_def Let_def
    by (intro in_time_bindM [where S = "child_ends_within n", OF terminating.ends_logsDontExist emits_logsDontExist child_ends_later [OF assms(1)]])
      (simp_all add: throwM_def)
qed

lemma stop_in_time:
  assumes "fires_within n w" and "n < fuel"
  shows "in_time (fst (stop fuel x be locks c nm w))"
  unfolding stop_def
proof (rule in_time_bindM [where S = "fires_within n", OF terminating.ends_newRuncLifecycle emits_newRuncLifecycle fires_within_later [OF assms(1)]])
  fix lc w1
  assume lc: "newRuncLifecycle x be locks w = (Ok lc, w1)" and f1: "fires_within n w1"
  obtain sd f where lc': "lc = program_lifecycle x be locks sd f" using newRuncLifecycle_Ok [OF lc] by blast
  have em: "emits observes (attemptM (StatProcess lc c))" and fin: "finishes (attemptM (StatProcess lc c))"
    unfolding lc' by (intro emits_intros fin_intros)+
  have rest: "in_time (fst (thenM (ignoreM (StopProcess fuel lc c p t)) m w3))" if "fires_within n w3" "finishes m" for p t m w3
  proof -
    have "fst (StopProcess fuel lc c p t w3) \<noteq> Abort NoFuel"
      unfolding lc' by (rule lc.StopProcess_terminates [OF that(1) assms(2), THEN conjunct1])
    then have "in_time (fst (ignoreM (StopProcess fuel lc c p t) w3))"
      by (auto simp: ignoreM_def in_time_iff split: prod.splits res.splits)
    with that(2) show ?thesis
      by (cases "ignoreM (StopProcess fuel lc c p t) w3") (auto simp: thenM_def bindM_def finishes_iff split: res.splits)
  qed
  have rm: "finishes (mapErrM (\<lambda>err. Errorf ''failed to cleanup job-process: %s'' [AErr err]) (RemoveProcess lc c))"
    unfolding lc' by (intro fin_intros)
  have loaded: "in_time (fst (bindM (load_process x c nm) (\<lambda>p.
      thenM (ignoreM (StopProcess fuel lc c p DefaultStopTimeout))
        (mapErrM (\<lambda>err. Errorf ''failed to cleanup job-process: %s'' [AErr err]) (RemoveProcess lc c))) w2))"
    if "fires_within n w2" for w2
    by (rule in_time_bindM [where S = "fires_within n", OF terminating.ends_load_process emits_load_process fires_within_later [OF that]])
      (assumption+, rule rest [OF _ rm])
  show "in_time (fst (bindM (attemptM (StatProcess lc c)) (\<lambda>r.
       case r of
         Inl err \<Rightarrow>
           if lifecycle_IsNotExist err then returnM ()
           else throwM (Errorf ''failed to get job-process status: %s'' [AErr err])
       | Inr _ \<Rightarrow>
           bindM (load_process x c nm) (\<lambda>procCfg.
           thenM (ignoreM (StopProcess fuel lc c procCfg DefaultStopTimeout))
             (mapErrM (\<lambda>err. Errorf ''failed to cleanup job-process: %s'' [AErr err]) (RemoveProcess lc c)))) w1))"
    by (rule in_time_bindM [where S = "fires_within n", OF fin em fires_within_later [OF f1]])
      (auto simp: returnM_def throwM_def loaded split: sum.split)
qed

section \<open>Whole invocations\<close>

text \<open>What the loops of a command wait for happens within \<open>n\<close> events.\<close>

fun settles :: "subcommand \<Rightarrow> nat \<Rightarrow> world \<Rightarrow> bool" where
  "settles StopCommand n w = fires_within n w"
| "settles TraceCommand n w = child_ends_within n w"
| "settles (LogsCommand fl) n w = child_ends_within n w"
| "settles _ n w = True"

lemma settles_later:
  "settles cmd n w \<Longrightarrow> env w' = env w \<Longrightarrow> calls w' = calls w @ tr \<Longrightarrow> settles cmd n w'"
  by (cases cmd) (auto intro: fires_within_later child_ends_later)

lemma emits_pre: "emits anything (persistentPre s be i)" "emits anything (lifecyclePre be locks pf args)"
proof -
  have "emits anything Setup" by (rule emits_mono [OF emits_Setup]) simp
  then show "emits anything (persistentPre s be i)"
    unfolding persistentPre_def rootPre_def version_def Let_def by (intro emits_intros; simp)
  show "emits anything (lifecyclePre be locks pf args)" by (rule emits_mono [OF emits_lifecyclePre]) simp
qed

lemma command_body_in_time:
  assumes "settles (i_command i) n w" and "n < s_fuel s"
  shows "in_time (fst (command_body s be i locks w))"
proof -
  have fin: "finishes m \<Longrightarrow> in_time (fst (m w))" for m :: "unit io" by (simp add: finishes_iff)
  show ?thesis
  proof (cases "i_command i")
    case StopCommand
    with assms(1) have fw: "fires_within n w" by simp
    have act: "in_time (fst (thenM (stop (s_fuel s) (s_externals s) be locks cfg nm) (releaseLifecycleLock lock) w'))"
      if "fires_within n w'" for cfg nm lock w'
    proof -
      have "in_time (fst (stop (s_fuel s) (s_externals s) be locks cfg nm w'))" by (rule stop_in_time [OF that assms(2)])
      moreover note finishes_release [of lock]
      ultimately show ?thesis
        by (cases "stop (s_fuel s) (s_externals s) be locks cfg nm w'") (auto simp: thenM_def bindM_def finishes_iff split: res.splits)
    qed
    have "in_time (fst (bindM (lifecyclePre be locks (i_process i) (i_args i)) (\<lambda>(cfg, nm, lock).
        thenM (stop (s_fuel s) (s_externals s) be locks cfg nm) (releaseLifecycleLock lock)) w))"
      by (rule in_time_bindM [where S = "fires_within n", OF terminating.ends_pre(3) emits_pre(2) fires_within_later [OF fw]])
        (auto simp: act split: prod.splits)
    with StopCommand show ?thesis by (simp add: command_body_def stopPre_def stopPost_def Let_def)
  next
    case TraceCommand
    with assms inputs_in(1) [of "\<lambda>a. a \<noteq> NoFuel" be "i_process i" "i_args i"] show ?thesis
      by (auto simp: command_body_def with_config_def bindM_def liftM_def Let_def trace_in_time in_time_iff [of "validateInput _ _ _"]
          split: res.split prod.splits)
  next
    case (LogsCommand fl)
    with assms inputs_in(1) [of "\<lambda>a. a \<noteq> NoFuel" be "i_process i" "i_args i"] show ?thesis
      by (auto simp: command_body_def with_config_def bindM_def liftM_def Let_def logs_in_time in_time_iff [of "validateInput _ _ _"]
          split: res.split prod.splits)
  qed (auto simp: command_body_def with_config_def Let_def startPre_def startPost_def runPre_def runPost_def intro!: fin fin_intros finishes_release)
qed

text \<open>C9: every invocation ends. When what the loops of its command wait for, the timer of \<open>stop\<close> or the end of the child
  of \<open>trace\<close> and \<open>logs\<close>, happens within fewer events than there is fuel, no command runs out of fuel: it
  succeeds, fails, panics or exits, whatever the host answers. The commands other than these three need no such
  condition.\<close>

theorem invocations_terminate:
  assumes "settles (i_command i) n w" and "n < s_fuel s"
  shows "fst (run_invocation s be i w) \<noteq> Abort NoFuel"
proof -
  have "in_time (fst (run_invocation s be i w))"
    unfolding run_invocation_def
    by (rule in_time_bindM [where S = "settles (i_command i) n", OF terminating.ends_pre(2) emits_pre(1) settles_later [OF assms(1)]])
      (simp_all add: command_body_in_time assms(2))
  then show ?thesis by (simp add: in_time_iff)
qed

theorem invocations_terminate_witness:
  "fst (run_invocation example_setting (NewEnv []) example_invocation calm_world) \<noteq> Abort NoFuel"
  by (rule invocations_terminate [of _ 0])
    (simp_all add: example_invocation_def example_setting_def fires_within_def calm_world_def calm_env_def)

end
