(* ===== verification/Panics.thy ===== *)
theory Panics
  imports Outcomes
begin

text \<open>
  Which invocations panic. \<open>Outcomes\<close> goes through the code once for every policy; here the policy is that nothing
  panics, and its laws become conditions on the decoders and on the host. Each of them is needed: the code
  panics on a null process in a configuration, on a truncated identifier in the list of containers, when runc cannot be
  started, on a line without a colon in \<open>/proc/self/cgroup\<close>, and when a container disappears while it is being stopped.
\<close>

section \<open>Conditions\<close>

text \<open>The YAML decoder gives no null process, and runc lists only containers whose identifiers can be decoded or are rejected.\<close>

definition decoders_ok :: "externals \<Rightarrow> bool" where
  "decoders_ok x \<longleftrightarrow>
     (\<forall>d c. x_yaml x d = Inr c \<longrightarrow> None \<notin> set (Processes c)) \<and>
     (\<forall>out cs st a. decodeList (x_json x) out = Inr cs \<longrightarrow> st \<in> set cs \<longrightarrow> Decode (CS_ID st) \<noteq> Abort a)"

text \<open>Commands can be started, and every line of a scanned file has a colon.\<close>

definition host_ok :: "environment \<Rightarrow> bool" where
  "host_ok e \<longleftrightarrow>
     (\<forall>h k err. r_cmd e h (RunCmd k) \<noteq> CmdNotStarted err) \<and>
     (\<forall>h k l. l \<in> set (fst (r_scan e h k)) \<longrightarrow> 2 \<le> length (strings_Split l CHR '':''))"

text \<open>The policy, with \<open>b\<close> for an invocation that also waits for a container to stop: a panic means that a decoder
  is to blame.\<close>

definition steady :: "bool \<Rightarrow> externals \<Rightarrow> environment \<Rightarrow> bool" where
  "steady b x e \<longleftrightarrow> host_ok e \<and> (b \<longrightarrow> never_gone (x_json x) e)"

definition blameless :: "externals \<Rightarrow> abort \<Rightarrow> bool" where
  "blameless x a \<longleftrightarrow> (\<exists>p. a = Panic p) \<longrightarrow> \<not> decoders_ok x"

interpretation calm: outcome_policy "steady b x" "blameless x" x for b x
proof unfold_locales
  fix n
  show "blameless x (Exit n)" by (simp add: blameless_def)
next
  fix e h cmd err
  assume "steady b x e" and "r_cmd e h (RunCmd cmd) = CmdNotStarted err"
  then show "blameless x nil_panic" by (simp add: steady_def host_ok_def)
next
  fix d c
  assume "x_yaml x d = Inr c" and "None \<in> set (Processes c)"
  then show "blameless x nil_panic" by (auto simp: blameless_def decoders_ok_def)
next
  fix e l h k
  assume "steady b x e" and "l \<in> set (fst (r_scan e h k))" and "length (strings_Split l CHR '':'') < 2"
  then show "blameless x (Panic ''index out of range'')" unfolding steady_def host_ok_def by (meson not_less)
next
  fix out cs st
  assume "decodeList (x_json x) out = Inr cs" and "st \<in> set cs"
  then show "res_in (blameless x) (Decode (CS_ID st))" by (auto simp: res_in_def blameless_def decoders_ok_def)
qed

section \<open>No other panics\<close>

text \<open>C10: every panic of the program is one of the known ones. When the decoders give no null process and no truncated
  identifier, commands can be started and the scanned lines have colons, no invocation of any command panics, whatever else
  the host answers and whatever fails; for \<open>stop\<close> the container must in addition not disappear from runc while
  it is being stopped. In particular the lock is never unlocked when it is not held.\<close>

theorem no_other_panics:
  assumes "decoders_ok (s_externals s)" and "host_ok (env w)"
    and "i_command i = StopCommand \<Longrightarrow> never_gone (x_json (s_externals s)) (env w)"
  shows "fst (run_invocation s be i w) \<noteq> Abort (Panic p)"
proof -
  let ?b = "i_command i = StopCommand" and ?x = "s_externals s"
  have "ends (steady ?b ?x) (blameless ?x) (run_invocation s be i)"
    by (rule calm.ends_command) (simp_all add: blameless_def steady_def)
  moreover have "steady ?b ?x (env w)" using assms(2,3) by (simp add: steady_def)
  ultimately have "res_in (blameless ?x) (fst (run_invocation s be i w))" by (simp add: ends_def)
  then show ?thesis using assms(1) by (auto simp: res_in_def blameless_def)
qed

theorem no_other_panics_witness:
  "decoders_ok (s_externals example_setting) \<and> host_ok (env calm_world) \<and>
   never_gone (x_json (s_externals example_setting)) (env calm_world) \<and>
   fst (run_invocation example_setting (NewEnv []) example_invocation calm_world) \<noteq> Abort (Panic ''nil pointer dereference'')"
proof -
  have d: "decoders_ok (s_externals example_setting)"
    by (auto simp: decoders_ok_def example_setting_def example_externals_def example_json_def)
  have h: "host_ok (env calm_world)" by (simp add: host_ok_def calm_world_def calm_env_def)
  have g: "never_gone (x_json (s_externals example_setting)) (env calm_world)"
    by (auto simp: never_gone_def ContainerState_op_def example_setting_def example_externals_def example_json_def calm_world_def calm_env_def
        io_simps res_sum_def split: sum.split)
  show ?thesis using no_other_panics [OF d h g] d h g by simp
qed

end
