(* ===== verification/Descriptors.thy ===== *)
theory Descriptors
  imports Program
begin

text \<open>
  Which descriptors the commands use. The lifecycle lock belongs to the descriptor that \<open>LockJob\<close> opened; closing or
  unlocking that descriptor would give the lock away early. The logic \<open>uses_own\<close> shows that the bodies of start,
  stop and run touch only descriptors that they opened themselves, so, since the kernel never hands out
  a number that is still open, the lock is held until the command releases it or the program exits.
\<close>

section \<open>Descriptors of calls\<close>

definition fd_of :: "call \<Rightarrow> nat set" where
  "fd_of x = (case x of CloseFd n \<Rightarrow> {n} | Flock n lo \<Rightarrow> {n} | FChown n u g \<Rightarrow> {n} | WriteFd n s \<Rightarrow> {n} | ScanLines n \<Rightarrow> {n} | CopyFd n k \<Rightarrow> {n, k} | _ \<Rightarrow> {})"

text \<open>The descriptor that a call opens, after the calls \<open>h\<close>.\<close>

definition opened_by :: "environment \<Rightarrow> call list \<Rightarrow> call \<Rightarrow> nat set" where
  "opened_by e h x = (case x of OpenFile _ _ _ \<Rightarrow> (case r_fd e h x of Inr fd \<Rightarrow> {fd} | Inl _ \<Rightarrow> {}) | _ \<Rightarrow> {})"

fun opened_in :: "environment \<Rightarrow> call list \<Rightarrow> call list \<Rightarrow> nat set" where
  "opened_in e h [] = {}"
| "opened_in e h (x # tr) = opened_by e h x \<union> opened_in e (h @ [x]) tr"

text \<open>Every call uses a descriptor of \<open>F\<close> or one that was opened on the way.\<close>

fun own_fds :: "environment \<Rightarrow> call list \<Rightarrow> nat set \<Rightarrow> call list \<Rightarrow> bool" where
  "own_fds e h F [] = True"
| "own_fds e h F (x # tr) \<longleftrightarrow> fd_of x \<subseteq> F \<and> own_fds e (h @ [x]) (F \<union> opened_by e h x) tr"

lemma opened_in_append: "opened_in e h (tr @ tr') = opened_in e h tr \<union> opened_in e (h @ tr) tr'"
  by (induction tr arbitrary: h) auto

lemma own_fds_append: "own_fds e h F (tr @ tr') \<longleftrightarrow> own_fds e h F tr \<and> own_fds e (h @ tr) (F \<union> opened_in e h tr) tr'"
  by (induction tr arbitrary: h F) (auto simp: Un_assoc)

lemma own_fds_mono: "own_fds e h F tr \<Longrightarrow> F \<subseteq> G \<Longrightarrow> own_fds e h G tr"
proof (induction tr arbitrary: h F G)
  case (Cons x tr)
  from Cons.prems have "own_fds e (h @ [x]) (F \<union> opened_by e h x) tr" by simp
  from Cons.IH [OF this, of "G \<union> opened_by e h x"] Cons.prems show ?case by auto
qed simp

lemma own_fds_none: "list_all (\<lambda>x. fd_of x = {}) tr \<Longrightarrow> own_fds e h F tr"
  by (induction tr arbitrary: h F) auto

section \<open>Actions that use their own descriptors\<close>

text \<open>\<open>uses_own F m Q\<close>: given the descriptors \<open>F\<close>, the action uses no others than these and those it opens itself, and
  those of its result are among them.\<close>

definition uses_own :: "nat set \<Rightarrow> 'a io \<Rightarrow> ('a \<Rightarrow> nat set) \<Rightarrow> bool" where
  "uses_own F m Q \<longleftrightarrow>
     (\<forall>w. env (snd (m w)) = env w \<and>
        (\<exists>tr. calls (snd (m w)) = calls w @ tr \<and> own_fds (env w) (calls w) F tr \<and>
           (\<forall>a. fst (m w) = Ok a \<longrightarrow> Q a \<subseteq> F \<union> opened_in (env w) (calls w) tr)))"

lemma uses_ownD:
  assumes "uses_own F m Q" and "m w = (r, w')"
  shows "env w' = env w \<and> (\<exists>tr. calls w' = calls w @ tr \<and> own_fds (env w) (calls w) F tr \<and>
      (\<forall>a. r = Ok a \<longrightarrow> Q a \<subseteq> F \<union> opened_in (env w) (calls w) tr))"
  using assms(1) [unfolded uses_own_def, rule_format, of w] assms(2) by simp

lemma uses_ownI:
  assumes "\<And>w r w'. m w = (r, w') \<Longrightarrow> env w' = env w \<and> (\<exists>tr. calls w' = calls w @ tr \<and> own_fds (env w) (calls w) F tr \<and>
      (\<forall>a. r = Ok a \<longrightarrow> Q a \<subseteq> F \<union> opened_in (env w) (calls w) tr))"
  shows "uses_own F m Q"
  unfolding uses_own_def using assms [OF surjective_pairing] by blast

named_theorems own_intros \<open>actions that use their own descriptors\<close>

abbreviation no_fds :: "'a \<Rightarrow> nat set" where
  "no_fds \<equiv> (\<lambda>_. {})"

lemma uses_own_emits: "emits (\<lambda>x. fd_of x = {}) m \<Longrightarrow> uses_own F m no_fds"
  unfolding uses_own_def emits_def using own_fds_none by fastforce

lemma uses_own_weaken:
  assumes "uses_own F m Q" and "F \<subseteq> G" and "\<And>a. R a \<subseteq> G \<union> Q a"
  shows "uses_own G m R"
proof (rule uses_ownI)
  fix w r w'
  assume "m w = (r, w')"
  from uses_ownD [OF assms(1) this] obtain tr where tr: "env w' = env w" "calls w' = calls w @ tr"
    "own_fds (env w) (calls w) F tr" "\<forall>a. r = Ok a \<longrightarrow> Q a \<subseteq> F \<union> opened_in (env w) (calls w) tr" by blast
  have "R a \<subseteq> G \<union> opened_in (env w) (calls w) tr" if "r = Ok a" for a
    using tr(4) that assms(2) assms(3) [of a] by blast
  with tr own_fds_mono [OF tr(3) assms(2)]
  show "env w' = env w \<and> (\<exists>tr. calls w' = calls w @ tr \<and> own_fds (env w) (calls w) G tr \<and>
      (\<forall>a. r = Ok a \<longrightarrow> R a \<subseteq> G \<union> opened_in (env w) (calls w) tr))" by blast
qed

lemma uses_own_bindM_result:
  assumes m: "uses_own F m Q" and f: "\<And>w a w'. m w = (Ok a, w') \<Longrightarrow> uses_own (F \<union> Q a) (f a) R"
  shows "uses_own F (bindM m f) R"
proof (rule uses_ownI)
  fix w r w2
  assume b: "bindM m f w = (r, w2)"
  obtain r1 w1 where 1: "m w = (r1, w1)" by (cases "m w")
  from uses_ownD [OF m 1] obtain tr where tr: "env w1 = env w" "calls w1 = calls w @ tr"
    "own_fds (env w) (calls w) F tr" "\<forall>a. r1 = Ok a \<longrightarrow> Q a \<subseteq> F \<union> opened_in (env w) (calls w) tr" by blast
  let ?G = "F \<union> opened_in (env w) (calls w) tr"
  show "env w2 = env w \<and> (\<exists>tr. calls w2 = calls w @ tr \<and> own_fds (env w) (calls w) F tr \<and>
      (\<forall>a. r = Ok a \<longrightarrow> R a \<subseteq> F \<union> opened_in (env w) (calls w) tr))"
  proof (cases r1)
    case (Ok a)
    have g: "uses_own ?G (f a) R"
      by (rule uses_own_weaken [OF f [OF 1 [unfolded Ok]]]) (use tr(4) Ok in auto)
    have "f a w1 = (r, w2)" using b 1 Ok by (simp add: bindM_def)
    from uses_ownD [OF g this] obtain tr' where "env w2 = env w1" "calls w2 = calls w1 @ tr'" "own_fds (env w1) (calls w1) ?G tr'"
      "\<forall>b. r = Ok b \<longrightarrow> R b \<subseteq> ?G \<union> opened_in (env w1) (calls w1) tr'"
      by blast
    with tr show ?thesis
      by (intro conjI exI [of _ "tr @ tr'"]) (auto simp: own_fds_append opened_in_append)
  qed (use b 1 tr in \<open>auto simp: bindM_def\<close>)
qed

lemma uses_own_bindM: "uses_own F m Q \<Longrightarrow> (\<And>a. uses_own (F \<union> Q a) (f a) R) \<Longrightarrow> uses_own F (bindM m f) R"
  by (rule uses_own_bindM_result)

lemma uses_own_pure [own_intros]:
  "Q a \<subseteq> F \<Longrightarrow> uses_own F (returnM a) Q" "uses_own F (throwM e) Q" "uses_own F (abortM x) Q" "uses_own F (liftM r) no_fds"
  by (auto simp: uses_own_def seq_defs intro!: exI [of _ "[]"])

lemma uses_own_sys [own_intros]:
  "fd_of c \<subseteq> F \<Longrightarrow> uses_own F (sys_err c) no_fds" "fd_of c \<subseteq> F \<Longrightarrow> uses_own F (sys_stat c) no_fds"
  "fd_of c \<subseteq> F \<Longrightarrow> uses_own F (sys_text c) no_fds" "fd_of c \<subseteq> F \<Longrightarrow> uses_own F (sys_texts c) no_fds"
  "fd_of c \<subseteq> F \<Longrightarrow> uses_own F (sys_bool c) no_fds" "fd_of c \<subseteq> F \<Longrightarrow> uses_own F (sys_user c) no_fds"
  "fd_of c \<subseteq> F \<Longrightarrow> uses_own F (sys_cmd c) no_fds" "fd_of c \<subseteq> F \<Longrightarrow> uses_own F (sys_scan c) no_fds"
  "fd_of c \<subseteq> F \<Longrightarrow> uses_own F (sys_do c) no_fds"
  by (auto simp: uses_own_def sys_defs intro!: exI [of _ "[c]"])

lemma uses_own_open: "uses_own F (sys_fd (OpenFile p fs m)) (\<lambda>fd. {fd})"
  by (auto simp: uses_own_def sys_fd_def res_sum_def opened_by_def fd_of_def split: sum.splits intro!: exI [of _ "[OpenFile p fs m]"])

lemma uses_own_bind_plain [own_intros]: "uses_own F m no_fds \<Longrightarrow> (\<And>a. uses_own F (f a) R) \<Longrightarrow> uses_own F (bindM m f) R"
  using uses_own_bindM [of F m no_fds f R] by simp

lemma uses_own_thenM [own_intros]: "uses_own F m no_fds \<Longrightarrow> uses_own F k R \<Longrightarrow> uses_own F (thenM m k) R"
  unfolding thenM_def by (rule uses_own_bind_plain)

lemma uses_own_attemptM: "uses_own F m Q \<Longrightarrow> uses_own F (attemptM m) (case_sum no_fds Q)"
proof (rule uses_ownI)
  fix w r w'
  assume m: "uses_own F m Q" and a: "attemptM m w = (r, w')"
  obtain r1 where 1: "m w = (r1, w')" using a by (auto simp: attemptM_def split: prod.splits res.splits)
  from uses_ownD [OF m 1] a 1
  show "env w' = env w \<and> (\<exists>tr. calls w' = calls w @ tr \<and> own_fds (env w) (calls w) F tr \<and>
      (\<forall>a. r = Ok a \<longrightarrow> case_sum no_fds Q a \<subseteq> F \<union> opened_in (env w) (calls w) tr))"
    by (cases r1) (auto simp: attemptM_def)
qed

lemma uses_own_attemptM_plain [own_intros]: "uses_own F m no_fds \<Longrightarrow> uses_own F (attemptM m) no_fds"
  by (erule uses_own_attemptM [THEN uses_own_weaken]) simp_all

lemma uses_own_mapErrM [own_intros]: "uses_own F m Q \<Longrightarrow> uses_own F (mapErrM f m) Q"
proof (rule uses_ownI)
  fix w r w'
  assume m: "uses_own F m Q" and a: "mapErrM f m w = (r, w')"
  obtain r1 where 1: "m w = (r1, w')" using a by (auto simp: mapErrM_def split: prod.splits res.splits)
  from uses_ownD [OF m 1] a 1
  show "env w' = env w \<and> (\<exists>tr. calls w' = calls w @ tr \<and> own_fds (env w) (calls w) F tr \<and>
      (\<forall>a. r = Ok a \<longrightarrow> Q a \<subseteq> F \<union> opened_in (env w) (calls w) tr))"
    by (cases r1) (auto simp: mapErrM_def)
qed

lemma uses_own_ignoreM [own_intros]: "uses_own F m no_fds \<Longrightarrow> uses_own F (ignoreM m) no_fds"
  unfolding uses_own_def ignoreM_def by (simp add: split_def Let_def)

lemma uses_own_deferM [own_intros]:
  assumes "uses_own F m Q" and "uses_own F d no_fds"
  shows "uses_own F (deferM m d) Q"
proof (rule uses_ownI)
  fix w r w2
  assume b: "deferM m d w = (r, w2)"
  obtain w1 where 1: "m w = (r, w1)" using b by (auto simp: deferM_def split: prod.splits)
  obtain r2 where 2: "d w1 = (r2, w2)" using b 1 by (auto simp: deferM_def split: prod.splits)
  from uses_ownD [OF assms(1) 1] obtain tr where tr: "env w1 = env w" "calls w1 = calls w @ tr"
    "own_fds (env w) (calls w) F tr" "\<forall>a. r = Ok a \<longrightarrow> Q a \<subseteq> F \<union> opened_in (env w) (calls w) tr" by blast
  from uses_ownD [OF assms(2) 2] obtain tr' where tr': "env w2 = env w1" "calls w2 = calls w1 @ tr'"
    "own_fds (env w1) (calls w1) F tr'" by blast
  have "own_fds (env w) (calls w @ tr) (F \<union> opened_in (env w) (calls w) tr) tr'"
    using own_fds_mono [OF tr'(3)] tr by simp
  with tr tr' show "env w2 = env w \<and> (\<exists>tr. calls w2 = calls w @ tr \<and> own_fds (env w) (calls w) F tr \<and>
      (\<forall>a. r = Ok a \<longrightarrow> Q a \<subseteq> F \<union> opened_in (env w) (calls w) tr))"
    by (intro conjI exI [of _ "tr @ tr'"]) (auto simp: own_fds_append opened_in_append)
qed

lemma uses_own_forM [own_intros]: "(\<And>x. x \<in> set xs \<Longrightarrow> uses_own F (f x) no_fds) \<Longrightarrow> uses_own F (forM xs f) no_fds"
  by (induction xs) (simp_all add: own_intros)

lemma uses_own_splits [own_intros]:
  "(b \<Longrightarrow> uses_own F m Q) \<Longrightarrow> (\<not> b \<Longrightarrow> uses_own F n Q) \<Longrightarrow> uses_own F (if b then m else n) Q"
  "(\<And>x y. p = (x, y) \<Longrightarrow> uses_own F (h x y) Q) \<Longrightarrow> uses_own F (case p of (x, y) \<Rightarrow> h x y) Q"
  "uses_own F n Q \<Longrightarrow> (\<And>x. v = Some x \<Longrightarrow> uses_own F (h1 x) Q) \<Longrightarrow> uses_own F (case v of None \<Rightarrow> n | Some x \<Rightarrow> h1 x) Q"
  "(\<And>x. s = Inl x \<Longrightarrow> uses_own F (h2 x) Q) \<Longrightarrow> (\<And>x. s = Inr x \<Longrightarrow> uses_own F (h3 x) Q) \<Longrightarrow> uses_own F (case s of Inl x \<Rightarrow> h2 x | Inr x \<Rightarrow> h3 x) Q"
  by (simp_all split: prod.splits option.splits sum.splits)

lemma fd_of_simps [simp]:
  "fd_of (CloseFd n) = {n}" "fd_of (Flock n lo) = {n}" "fd_of (FChown n u g) = {n}" "fd_of (WriteFd n s) = {n}" "fd_of (ScanLines n) = {n}"
  "fd_of (MkdirAll d m) = {}" "fd_of (Stat d) = {}" "fd_of (Lstat d) = {}" "fd_of (Chmod d m) = {}" "fd_of (Chown d u g) = {}"
  "fd_of (Glob d) = {}" "fd_of (Mounted d) = {}" "fd_of (Mount a d t fs x) = {}" "fd_of (Unmount d) = {}" "fd_of (LookupUser d) = {}"
  "fd_of (RunCmd k) = {}" "fd_of (CombinedOutputCmd k) = {}" "fd_of (RemoveAll d) = {}" "fd_of (OpenFile p fl md) = {}"
  by (simp_all add: fd_of_def)

section \<open>The operations\<close>

lemma own_OpenAppendChown: "uses_own F (OpenAppendChown p uid gid m) (\<lambda>f. {f})"
  unfolding OpenAppendChown_def
  by (rule uses_own_bindM [OF uses_own_mapErrM [OF uses_own_open]]) (intro own_intros; simp)

lemma own_LockVolume: "uses_own F (LockVolume sha h p) (\<lambda>fl. {fl_f fl})"
  unfolding LockVolume_def flock_New_def flock_Lock_def bindM_assoc
  by (rule uses_own_bindM [OF uses_own_open]) (simp, intro own_intros; simp)

lemma own_Unlock: "fl_f fl \<in> F \<Longrightarrow> uses_own F (flock_Unlock fl) no_fds"
  unfolding flock_Unlock_def by (intro own_intros) simp_all

lemma own_plain [own_intros]:
  "uses_own F (Lookup u) no_fds" "uses_own F (MakeShared p) no_fds" "uses_own F (checkDirExists d) no_fds" "uses_own F isRunningSystemd no_fds"
  unfolding Lookup_def MakeShared_def checkDirExists_def isRunningSystemd_def by (intro own_intros; simp)+

lemma own_SelfCgroupPath [own_intros]: "uses_own F SelfCgroupPath no_fds"
  unfolding SelfCgroupPath_def
  by (rule uses_own_bindM [OF uses_own_mapErrM [OF uses_own_open]]) (intro own_intros; simp)

lemma open_log_files_length:
  "open_log_files paths u files w = (Ok fs, w') \<Longrightarrow> length fs = length files + length paths"
proof (induction paths arbitrary: files w)
  case (Cons path paths)
  from Cons.prems obtain r w1 where "(case r of Inl err \<Rightarrow> thenM (forM files (\<lambda>f. ignoreM (sys_err (CloseFd f)))) (throwM err)
       | Inr f \<Rightarrow> open_log_files paths u (files @ [f])) w1 = (Ok fs, w')"
    by (auto simp: bindM_eq_Ok)
  then show ?case by (cases r) (auto simp: thenM_eq_Ok throwM_def dest: Cons.IH)
qed (simp add: returnM_def)

lemma own_open_log_files: "set files \<subseteq> F \<Longrightarrow> uses_own F (open_log_files paths u files) set"
proof (induction paths arbitrary: files F)
  case (Cons path paths)
  show ?case
    unfolding open_log_files.simps
  proof (rule uses_own_bindM [OF uses_own_attemptM [OF own_OpenAppendChown]])
    fix r
    show "uses_own (F \<union> case_sum no_fds (\<lambda>f. {f}) r)
        (case r of Inl err \<Rightarrow> thenM (forM files (\<lambda>f. ignoreM (sys_err (CloseFd f)))) (throwM err)
         | Inr f \<Rightarrow> open_log_files paths u (files @ [f])) set"
      using Cons.prems by (cases r) (auto intro!: own_intros Cons.IH)
  qed
qed (simp add: own_intros)

abbreviation pair_fds :: "nat \<times> nat \<Rightarrow> nat set" where
  "pair_fds \<equiv> (\<lambda>(a, b). {a, b})"

lemma own_createLogFiles: "uses_own F (createLogFiles c u) pair_fds"
  unfolding createLogFiles_def
proof (rule uses_own_bindM_result [OF own_open_log_files])
  fix w fs w'
  assume "open_log_files [Path_External (cfg_Stdout c), Path_External (cfg_Stderr c)] u [] w = (Ok fs, w')"
  from open_log_files_length [OF this] have "length fs = 2" by simp
  then show "uses_own (F \<union> set fs) (returnM (fs ! 0, fs ! 1)) pair_fds" by (intro own_intros) simp
qed simp

lemma own_prepare_volumes [own_intros]: "uses_own F (prepare_volumes (program_adapter sha f h cg) vols ds ps) no_fds"
proof (induction vols arbitrary: ds ps)
  case (Cons v vols)
  have "uses_own F (makeShared (program_adapter sha f h cg) v) no_fds"
    unfolding makeShared_def program_adapter_def NewRuncAdapter_def RuncAdapter.simps
    by (rule uses_own_bindM [OF own_LockVolume]) (intro own_intros own_Unlock; simp)
  then show ?case unfolding prepare_volumes.simps by (intro own_intros Cons.IH) simp_all
qed (simp add: own_intros)

lemma own_prerequisites: "uses_own F (CreateJobPrerequisites (program_adapter sha f h cg) c p u) pair_fds"
  unfolding CreateJobPrerequisites_def createDirs_def createDirFor_def chownPaths_def Let_def
  by (intro own_intros own_createLogFiles) simp_all

lemma own_globExpand [own_intros]: "uses_own F (globExpandVolumes (program_adapter sha f h cg) vols) no_fds"
proof (induction vols)
  case (Cons v vols)
  then show ?case by (auto simp: program_adapter_def NewRuncAdapter_def intro!: own_intros)
qed (simp add: own_intros)

lemma own_BuildSpec [own_intros]:
  "uses_own F (BuildSpec ord toBytes (program_adapter sha f h (Some cgroupsPathForContainer)) c p u) no_fds"
proof -
  have "uses_own F (cgroup_options (program_adapter sha f h (Some cgroupsPathForContainer)) c) no_fds"
    by (auto simp: cgroup_options_def cgroupsPathForContainer_def program_adapter_def NewRuncAdapter_def intro!: own_intros)
  then show ?thesis
    unfolding BuildSpec_def optional_mount_def unrestricted_mounts_def Let_def by (intro own_intros) simp_all
qed

lemma own_CreateBundle [own_intros]: "uses_own F (CreateBundle enc b spec u) no_fds"
  unfolding CreateBundle_def
  by (intro uses_own_thenM uses_own_sys; (rule uses_own_bindM [OF uses_own_open])?; (intro own_intros)?; simp)

lemma own_run_cmd [own_intros]: "uses_own F (run_cmd k) no_fds"
  by (rule uses_own_emits) (simp add: emits_intros)

lemma own_RunContainer [own_intros]: "uses_own F (RunContainer c pf b cid d out err) no_fds"
  by (rule uses_own_emits) (simp add: emits_intros)

lemma own_setupProcess: "uses_own F (setupProcess (program_lifecycle x be locks sd f) c p) pair_fds"
  unfolding setupProcess_def lifecycle_of_sel runc_ops_sel
proof (rule uses_own_bind_plain [OF own_plain(1)])
  fix u
  show "uses_own F
      (bindM (mapErrM (\<lambda>err. Errorf ''failed to create system files: %s'' [AErr err])
         (CreateJobPrerequisites (program_adapter (x_sha256 x) f locks (Some cgroupsPathForContainer)) c p u)) (\<lambda>(stdout, stderr).
       bindM (BuildSpec (x_ord x) (x_toBytes x) (program_adapter (x_sha256 x) f locks (Some cgroupsPathForContainer)) c p u) (\<lambda>spec.
       thenM (mapErrM (\<lambda>err. Errorf ''bundle build failure: %s'' [AErr err])
         (CreateBundle (encodeSpec (x_json x)) (cfg_BundlePath c) spec u))
       (thenM (case PHooks p of
             None \<Rightarrow> returnM ()
           | Some hooks \<Rightarrow>
               mapErrM (\<lambda>err. Errorf ''prestart hook failed: %s'' [AErr err])
                 (run_cmd ((exec_Command (PreStart hooks) [])
                    \<lparr>cmd_env := Some (SpEnv (SProcess spec)), cmd_stdout := [Fd stdout], cmd_stderr := [Fd stderr]\<rparr>)))
       (returnM (stdout, stderr)))))) pair_fds"
    by (rule uses_own_bindM [OF uses_own_mapErrM [OF own_prerequisites]]) (auto intro!: own_intros)
qed

lemma own_lifecycle:
  fixes x be locks sd f
  defines "lc \<equiv> program_lifecycle x be locks sd f"
  shows "uses_own F (StartProcess lc c p) no_fds" and "uses_own F (RunProcess lc c p) no_fds"
    and "uses_own F (StatProcess lc c) no_fds" and "uses_own F (RemoveProcess lc c) no_fds" and "uses_own F (StopProcess fuel lc c p t) no_fds"
proof -
  have close: "uses_own G (deferM (deferM m (sys_err (CloseFd err))) (sys_err (CloseFd out))) no_fds"
    if "uses_own G m no_fds" "out \<in> G" "err \<in> G" for G out err and m :: "'b io"
    using that by (intro own_intros) simp_all
  show "uses_own F (StartProcess lc c p) no_fds"
    unfolding StartProcess_def lc_def lifecycle_of_sel runc_ops_sel
    by (rule uses_own_bindM [OF own_setupProcess]) (auto intro!: close own_intros)
  show "uses_own F (RunProcess lc c p) no_fds"
    unfolding RunProcess_def lc_def lifecycle_of_sel runc_ops_sel
    by (rule uses_own_bindM [OF uses_own_attemptM [OF own_setupProcess]]) (auto intro!: close own_intros split: sum.splits)
  show "uses_own F (StatProcess lc c) no_fds"
    unfolding lc_def by (rule uses_own_emits, rule emits_mono [OF emits_StatProcess]) (auto simp: observes_def fd_of_def split: call.splits)
  show "uses_own F (RemoveProcess lc c) no_fds"
    unfolding RemoveProcess_def lc_def lifecycle_of_sel runc_ops_sel DeleteContainer_def DestroyBundle_def
    by (rule uses_own_emits) (intro emits_intros; simp)
  show "uses_own F (StopProcess fuel lc c p t) no_fds"
    unfolding lc_def
    by (rule uses_own_emits, rule emits_mono [OF lc.emits_StopProcess])
      (auto simp: runc_on_def command_of_def clock_call_def fd_of_def split: call.splits)
qed

lemma observes_no_fds: "observes x \<Longrightarrow> fd_of x = {}"
  by (auto simp: observes_def fd_of_def split: call.splits)

lemma own_observing: "emits observes m \<Longrightarrow> uses_own F m no_fds"
  by (rule uses_own_emits, erule emits_mono) (rule observes_no_fds)

lemma own_with_lifecycle:
  assumes "\<And>sd f. uses_own F (k (program_lifecycle x be locks sd f)) R"
  shows "uses_own F (bindM (newRuncLifecycle x be locks) k) R"
proof (rule uses_own_bindM_result [OF own_observing [OF emits_newRuncLifecycle]])
  fix w lc w'
  assume "newRuncLifecycle x be locks w = (Ok lc, w')"
  from newRuncLifecycle_Ok [OF this] obtain sd f where "lc = program_lifecycle x be locks sd f" by blast
  with assms show "uses_own (F \<union> {}) (k lc) R" by simp
qed

text \<open>The bodies of start, stop and run use no descriptor but their own.\<close>

lemma own_bodies:
  "uses_own F (start x be locks c nm) no_fds" "uses_own F (stop fuel x be locks c nm) no_fds"
  "uses_own F (run x be locks vols es c nm) no_fds"
proof -
  have load: "uses_own F (load_process x c nm) no_fds" by (rule own_observing [OF emits_load_process])
  note ops = own_lifecycle [where x = x and be = be and locks = locks]
  show "uses_own F (start x be locks c nm) no_fds"
    unfolding start_def current_state_def remove_stale_def forceCleanupBrokenRuncState_def Let_def
    by (intro uses_own_bind_plain load own_with_lifecycle; (intro own_intros ops)?; simp?)
  show "uses_own F (stop fuel x be locks c nm) no_fds"
    unfolding stop_def by (intro own_with_lifecycle; (intro own_intros ops load)?; simp?)
  show "uses_own F (run x be locks vols es c nm) no_fds"
    unfolding run_def current_state_def remove_stale_def forceCleanupBrokenRuncState_def Let_def split_def
    by (intro uses_own_bind_plain uses_own_thenM uses_own_pure load own_with_lifecycle; (intro own_intros ops)?; simp?)
qed

section \<open>The lock is held\<close>

text \<open>The descriptors that are open after the calls \<open>h\<close>, and a kernel that hands out none of them again.\<close>

definition open_step :: "environment \<Rightarrow> call list \<Rightarrow> call \<Rightarrow> nat set \<Rightarrow> nat set" where
  "open_step e h x S = (case x of CloseFd n \<Rightarrow> S - {n} | _ \<Rightarrow> S \<union> opened_by e h x)"

fun open_after :: "environment \<Rightarrow> call list \<Rightarrow> nat set \<Rightarrow> call list \<Rightarrow> nat set" where
  "open_after e h S [] = S"
| "open_after e h S (x # tr) = open_after e (h @ [x]) (open_step e h x S) tr"

definition fresh_descriptors :: "environment \<Rightarrow> bool" where
  "fresh_descriptors e \<longleftrightarrow> (\<forall>h x. opened_by e h x \<inter> open_after e [] {} h = {})"

lemma open_after_append: "open_after e h S (tr @ tr') = open_after e (h @ tr) (open_after e h S tr) tr'"
  by (induction tr arbitrary: h S) simp_all

lemma open_after_snoc: "open_after e [] {} (h @ [x]) = open_step e h x (open_after e [] {} h)"
  by (simp add: open_after_append)

section \<open>What the kernel sees\<close>

text \<open>A call and its result, as far as descriptors and locks are concerned: a successful open, lock or unlock, a
  close, or something else.\<close>

datatype kevent = KOpen string nat | KClose nat | KLock nat | KUnlock nat | KOther call

definition kevent_of :: "environment \<Rightarrow> call list \<Rightarrow> call \<Rightarrow> kevent" where
  "kevent_of e h x =
     (case x of
        OpenFile p _ _ \<Rightarrow> (case r_fd e h x of Inr fd \<Rightarrow> KOpen p fd | Inl _ \<Rightarrow> KOther x)
      | CloseFd n \<Rightarrow> KClose n
      | Flock n LOCK_EX \<Rightarrow> (if r_err e h x = None then KLock n else KOther x)
      | Flock n LOCK_UN \<Rightarrow> (if r_err e h x = None then KUnlock n else KOther x)
      | _ \<Rightarrow> KOther x)"

fun kevents :: "environment \<Rightarrow> call list \<Rightarrow> call list \<Rightarrow> kevent list" where
  "kevents e h [] = []"
| "kevents e h (x # tr) = kevent_of e h x # kevents e (h @ [x]) tr"

fun kfds :: "kevent \<Rightarrow> nat set" where
  "kfds (KOpen p n) = {n}"
| "kfds (KClose n) = {n}"
| "kfds (KLock n) = {n}"
| "kfds (KUnlock n) = {n}"
| "kfds (KOther x) = {}"

lemma kevents_append: "kevents e h (tr @ tr') = kevents e h tr @ kevents e (h @ tr) tr'"
  by (induction tr arbitrary: h) simp_all

lemma kfds_kevent_of: "kfds (kevent_of e h x) \<subseteq> fd_of x \<union> opened_by e h x"
  by (auto simp: kevent_of_def fd_of_def opened_by_def split: call.splits lock_op.splits sum.splits if_splits)

text \<open>Calls on own descriptors leave alone a descriptor that was open before.\<close>

lemma own_calls_spare:
  assumes "fresh_descriptors e"
  shows "own_fds e h F tr \<Longrightarrow> fd \<in> open_after e [] {} h \<Longrightarrow> fd \<notin> F \<Longrightarrow> list_all (\<lambda>ev. fd \<notin> kfds ev) (kevents e h tr)"
proof (induction tr arbitrary: h F)
  case (Cons x tr)
  have x: "fd_of x \<subseteq> F" and tr: "own_fds e (h @ [x]) (F \<union> opened_by e h x) tr" using Cons.prems(1) by simp_all
  have o: "fd \<notin> opened_by e h x" using assms Cons.prems(2) by (auto simp: fresh_descriptors_def)
  moreover have "fd \<in> open_after e [] {} (h @ [x])"
    using Cons.prems(2,3) x unfolding open_after_snoc by (auto simp: open_step_def split: call.splits)
  ultimately show ?case using Cons.IH [OF tr] Cons.prems(3) x kfds_kevent_of [of e h x] by auto
qed simp

section \<open>The shape of a command's run\<close>

text \<open>Before it holds the lock a command acquires none and calls nothing that concerns a container.\<close>

fun harmless :: "kevent \<Rightarrow> bool" where
  "harmless (KLock fd) = False"
| "harmless (KOther x) = prepares x"
| "harmless _ = True"

text \<open>The run of a command on the lock file \<open>p\<close>: it never gets the lock; or it opens the file, locks it, works without
  touching that descriptor, and perhaps unlocks it at the end.\<close>

definition locked_run :: "string \<Rightarrow> kevent list \<Rightarrow> bool" where
  "locked_run p tr \<longleftrightarrow>
     list_all harmless tr \<or>
     (\<exists>pre fd work post. tr = pre @ KOpen p fd # KLock fd # work @ post \<and> list_all harmless pre \<and>
        list_all (\<lambda>ev. fd \<notin> kfds ev) work \<and> post \<in> {[], [KUnlock fd]})"

lemma locked_runI:
  assumes "list_all harmless pre" and "list_all (\<lambda>ev. fd \<notin> kfds ev) work" and "post \<in> {[], [KUnlock fd], [KOther x]}"
  shows "locked_run p (pre @ KOpen p fd # KLock fd # work @ post)"
proof -
  define work' post' where w: "work' = (if post = [KOther x] then work @ post else work)" "post' = (if post = [KOther x] then [] else post)"
  have "work @ post = work' @ post'" "list_all (\<lambda>ev. fd \<notin> kfds ev) work'" "post' \<in> {[], [KUnlock fd]}"
    using assms(2,3) by (auto simp: w)
  with assms(1) show ?thesis unfolding locked_run_def by metis
qed

lemma emits_setupBpmLogs_harmless:
  "emits (\<lambda>x. prepares x \<and> (\<forall>n lo. x \<noteq> Flock n lo)) (setupBpmLogs cfg)"
  unfolding setupBpmLogs_def by (intro emits_intros) simp_all

lemma kevents_harmless:
  "list_all (\<lambda>x. prepares x \<and> (\<forall>n lo. x \<noteq> Flock n lo)) tr \<Longrightarrow> list_all harmless (kevents e h tr)"
proof (induction tr arbitrary: h)
  case (Cons x tr)
  then have "harmless (kevent_of e h x)"
    by (cases x) (auto simp: kevent_of_def split: sum.splits)
  with Cons show ?case by simp
qed simp

lemma LockJob_events:
  assumes "LockJob h job proc w = (r, w')"
  shows "\<exists>tr. calls w' = calls w @ tr \<and> env w' = env w \<and>
    (case r of
       Ok fl \<Rightarrow> kevents (env w) (calls w) tr = [KOpen (job_lock_path h job proc) (fl_f fl), KLock (fl_f fl)] \<and> fl_locked fl \<and>
         fl_f fl \<in> open_after (env w) [] {} (calls w')
     | _ \<Rightarrow> list_all harmless (kevents (env w) (calls w) tr))"
proof -
  let ?o = "OpenFile (job_lock_path h job proc) [O_CREATE, O_RDWR] perm_0600"
  note defs = LockJob_def flock_New_def flock_Lock_def io_simps kevent_of_def
  show ?thesis
  proof (cases "r_fd (env w) (calls w) ?o")
    case (Inl e)
    with assms show ?thesis by (auto simp: defs intro!: exI [of _ "[?o]"])
  next
    case (Inr fd)
    show ?thesis
    proof (cases "r_err (env w) (calls w @ [?o]) (Flock fd LOCK_EX)")
      case None
      have "fd \<in> open_after (env w) [] {} (calls w @ [?o, Flock fd LOCK_EX])"
        using Inr open_after_append [of "env w" "[]" "{}" "calls w" "[?o, Flock fd LOCK_EX]"]
        by (simp add: open_step_def opened_by_def)
      with assms Inr None show ?thesis by (auto simp: defs res_of_def intro!: exI [of _ "[?o, Flock fd LOCK_EX]"])
    next
      case (Some e)
      with assms Inr show ?thesis by (auto simp: defs res_of_def intro!: exI [of _ "[?o, Flock fd LOCK_EX]"])
    qed
  qed
qed

lemma lifecyclePre_events:
  assumes "lifecyclePre be locks pf args w = (r, w')"
  shows "\<exists>tr. calls w' = calls w @ tr \<and> env w' = env w \<and>
    (case r of
       Ok (cfg, nm, lock) \<Rightarrow> validateInput be pf args = Ok (cfg, nm) \<and> fl_locked lock \<and> fl_f lock \<in> open_after (env w) [] {} (calls w') \<and>
         (\<exists>pre. list_all harmless pre \<and> kevents (env w) (calls w) tr =
            pre @ [KOpen (job_lock_path locks (cfg_JobName cfg) (cfg_ProcName cfg)) (fl_f lock), KLock (fl_f lock)])
     | _ \<Rightarrow> list_all harmless (kevents (env w) (calls w) tr))"
proof (cases "validateInput be pf args")
  case (Ok c)
  obtain cfg nm where c: "c = (cfg, nm)" by (cases c)
  obtain r1 w1 where s: "setupBpmLogs cfg w = (r1, w1)" by (cases "setupBpmLogs cfg w")
  obtain t1 where t1: "calls w1 = calls w @ t1" "env w1 = env w" "list_all harmless (kevents (env w) (calls w) t1)"
    using emits_trace [OF emits_setupBpmLogs_harmless s] emits_env [OF emits_setupBpmLogs_harmless, of cfg w] s kevents_harmless by auto
  show ?thesis
  proof (cases r1)
    case r1: (Ok u)
    obtain r2 w2 where l: "LockJob locks (cfg_JobName cfg) (cfg_ProcName cfg) w1 = (r2, w2)"
      by (cases "LockJob locks (cfg_JobName cfg) (cfg_ProcName cfg) w1")
    from LockJob_events [OF l] obtain t2 where t2: "calls w2 = calls w1 @ t2" "env w2 = env w1"
      "case r2 of
       Ok fl \<Rightarrow> kevents (env w1) (calls w1) t2 = [KOpen (job_lock_path locks (cfg_JobName cfg) (cfg_ProcName cfg)) (fl_f fl), KLock (fl_f fl)] \<and>
         fl_locked fl \<and> fl_f fl \<in> open_after (env w1) [] {} (calls w2)
     | _ \<Rightarrow> list_all harmless (kevents (env w1) (calls w1) t2)" by blast
    have res: "r = (case r2 of Ok lock \<Rightarrow> Ok (cfg, nm, lock) | Err e \<Rightarrow> Err e | Abort x \<Rightarrow> Abort x)" "w' = w2"
      using assms Ok c s r1 l
      by (auto simp: lifecyclePre_def acquireLifecycleLock_def bindM_def thenM_def liftM_def returnM_def split: res.splits)
    show ?thesis
      using t1 t2 res Ok c
      by (cases r2) (auto simp: kevents_append intro!: exI [of _ "t1 @ t2"])
  qed (use assms Ok c s t1 in \<open>auto simp: lifecyclePre_def bindM_def thenM_def liftM_def intro!: exI [of _ t1]\<close>)
qed (use assms in \<open>auto simp: lifecyclePre_def bindM_def liftM_def\<close>)

text \<open>An action of a command, run under the lock, on descriptors of its own.\<close>

lemma locked_action_run:
  assumes act: "\<And>cfg nm. uses_own {} (act cfg nm) no_fds" and fresh: "fresh_descriptors (env w)"
    and v: "validateInput be pf args = Ok (cfg0, nm0)"
    and run: "bindM (lifecyclePre be locks pf args) (\<lambda>(cfg, nm, lock). thenM (act cfg nm) (releaseLifecycleLock lock)) w = (r, w')"
  shows "\<exists>tr. calls w' = calls w @ tr \<and>
    locked_run (job_lock_path locks (cfg_JobName cfg0) (cfg_ProcName cfg0)) (kevents (env w) (calls w) tr)"
proof -
  obtain r1 w1 where p: "lifecyclePre be locks pf args w = (r1, w1)" by (cases "lifecyclePre be locks pf args w")
  from lifecyclePre_events [OF p] obtain t1 where t1: "calls w1 = calls w @ t1" "env w1 = env w"
    "case r1 of
       Ok (cfg, nm, lock) \<Rightarrow> validateInput be pf args = Ok (cfg, nm) \<and> fl_locked lock \<and> fl_f lock \<in> open_after (env w) [] {} (calls w1) \<and>
         (\<exists>pre. list_all harmless pre \<and> kevents (env w) (calls w) t1 =
            pre @ [KOpen (job_lock_path locks (cfg_JobName cfg) (cfg_ProcName cfg)) (fl_f lock), KLock (fl_f lock)])
     | _ \<Rightarrow> list_all harmless (kevents (env w) (calls w) t1)" by blast
  show ?thesis
  proof (cases r1)
    case (Ok c)
    obtain cfg nm lock where c: "c = (cfg, nm, lock)" by (metis surj_pair)
    with t1(3) Ok v have cfg: "cfg = cfg0" "nm = nm0" "fl_locked lock" "fl_f lock \<in> open_after (env w) [] {} (calls w1)" by auto
    from t1(3) Ok c cfg obtain pre where pre: "list_all harmless pre"
      "kevents (env w) (calls w) t1 = pre @ [KOpen (job_lock_path locks (cfg_JobName cfg0) (cfg_ProcName cfg0)) (fl_f lock), KLock (fl_f lock)]"
      by auto
    obtain r2 w2 where a: "act cfg nm w1 = (r2, w2)" by (cases "act cfg nm w1")
    from uses_ownD [OF act a] obtain t2 where t2: "calls w2 = calls w1 @ t2" "env w2 = env w1" "own_fds (env w1) (calls w1) {} t2" by blast
    have spare: "list_all (\<lambda>ev. fl_f lock \<notin> kfds ev) (kevents (env w) (calls w1) t2)"
      using own_calls_spare [OF fresh] t2(3) t1(2) cfg(4) by simp
    have k: "thenM (act cfg nm) (releaseLifecycleLock lock) w1 = (r, w')" using run p Ok c by (simp add: bindM_def)
    let ?u = "[Flock (fl_f lock) LOCK_UN]"
    have "\<exists>t3. calls w' = calls w2 @ t3 \<and> t3 \<in> {[], ?u}"
      using k a release_Ok [OF cfg(3)] by (cases r2) (auto simp: thenM_def bindM_def)
    then obtain t3 where t3: "calls w' = calls w2 @ t3" "t3 \<in> {[], ?u}" by blast
    let ?e3 = "kevents (env w) (calls w2) t3"
    have "?e3 \<in> {[], [KUnlock (fl_f lock)], [KOther (Flock (fl_f lock) LOCK_UN)]}"
      using t3(2) by (auto simp: kevent_of_def split: if_splits)
    moreover have "kevents (env w) (calls w) (t1 @ t2 @ t3) = pre @ KOpen (job_lock_path locks (cfg_JobName cfg0) (cfg_ProcName cfg0)) (fl_f lock) #
        KLock (fl_f lock) # kevents (env w) (calls w1) t2 @ ?e3"
      using pre(2) t1(1) t2(1) by (simp add: kevents_append)
    ultimately have "locked_run (job_lock_path locks (cfg_JobName cfg0) (cfg_ProcName cfg0)) (kevents (env w) (calls w) (t1 @ t2 @ t3))"
      using locked_runI [OF pre(1) spare] by simp
    with t1(1) t2(1) t3(1) show ?thesis by (intro exI [of _ "t1 @ t2 @ t3"]) simp
  qed (use run p t1 in \<open>auto simp: bindM_def locked_run_def\<close>)
qed

lemma command_locked_run:
  assumes "changes_process (i_command i)" and "fresh_descriptors (env w)"
    and "validateInput be (i_process i) (i_args i) = Ok (cfg, nm)" and "command_body s be i locks w = (r, w')"
  shows "\<exists>tr. calls w' = calls w @ tr \<and>
    locked_run (job_lock_path locks (cfg_JobName cfg) (cfg_ProcName cfg)) (kevents (env w) (calls w) tr)"
proof (cases "i_command i")
  case StartCommand
  with assms show ?thesis
    by (intro locked_action_run [of "start (s_externals s) be locks"] own_bodies)
      (simp_all add: command_body_def startPre_def startPost_def Let_def)
next
  case StopCommand
  with assms show ?thesis
    by (intro locked_action_run [of "stop (s_fuel s) (s_externals s) be locks"] own_bodies)
      (simp_all add: command_body_def stopPre_def stopPost_def Let_def)
next
  case (RunCommand vols es)
  with assms show ?thesis
    by (intro locked_action_run [of "run (s_externals s) be locks vols es"] own_bodies)
      (simp_all add: command_body_def runPre_def runPost_def Let_def)
qed (use assms(1) in \<open>simp_all add: changes_process_def\<close>)

end
