(* ===== verification/Interleaving.thy ===== *)
theory Interleaving
  imports Descriptors
begin

text \<open>
  Several invocations of bpm on one host. Each process runs one start, stop or run command; the kernel keeps the
  descriptors of every process and the lock table of \<open>flock(2)\<close>, blocks a process that asks for a lock that
  another descriptor holds, and drops descriptors and locks of a process that exits, which can happen at any
  point. The theorems: this system refines the lock protocol of \<open>HostLock\<close>, and every interleaving carries out the commands for
  the same process of a job one after the other.
\<close>

section \<open>The host\<close>

text \<open>A lock belongs to the open file: a process and its descriptor.\<close>

record kernel =
  k_fds :: "nat \<Rightarrow> nat \<Rightarrow> string option"
  k_holder :: "string \<Rightarrow> (nat \<times> nat) option"

record host =
  kern :: kernel
  todo :: "nat \<Rightarrow> kevent list"

definition drop_locks :: "(nat \<times> nat \<Rightarrow> bool) \<Rightarrow> (string \<Rightarrow> (nat \<times> nat) option) \<Rightarrow> string \<Rightarrow> (nat \<times> nat) option" where
  "drop_locks P h f = (case h f of None \<Rightarrow> None | Some l \<Rightarrow> if P l then None else Some l)"

fun kernel_ok :: "kernel \<Rightarrow> nat \<Rightarrow> kevent \<Rightarrow> bool" where
  "kernel_ok k i (KLock fd) = (case k_fds k i fd of None \<Rightarrow> True | Some p \<Rightarrow> k_holder k p \<in> {None, Some (i, fd)})"
| "kernel_ok k i _ = True"

fun kernel_do :: "kernel \<Rightarrow> nat \<Rightarrow> kevent \<Rightarrow> kernel" where
  "kernel_do k i (KOpen p fd) = k\<lparr>k_fds := (k_fds k)(i := (k_fds k i)(fd := Some p))\<rparr>"
| "kernel_do k i (KClose fd) =
     k\<lparr>k_fds := (k_fds k)(i := (k_fds k i)(fd := None)), k_holder := drop_locks (\<lambda>l. l = (i, fd)) (k_holder k)\<rparr>"
| "kernel_do k i (KLock fd) =
     (case k_fds k i fd of None \<Rightarrow> k | Some p \<Rightarrow> k\<lparr>k_holder := (k_holder k)(p := Some (i, fd))\<rparr>)"
| "kernel_do k i (KUnlock fd) = k\<lparr>k_holder := drop_locks (\<lambda>l. l = (i, fd)) (k_holder k)\<rparr>"
| "kernel_do k i (KOther x) = k"

definition kernel_exit :: "kernel \<Rightarrow> nat \<Rightarrow> kernel" where
  "kernel_exit k i = k\<lparr>k_fds := (k_fds k)(i := (\<lambda>_. None)), k_holder := drop_locks (\<lambda>l. fst l = i) (k_holder k)\<rparr>"

inductive host_step :: "host \<Rightarrow> host \<Rightarrow> bool" where
  call: "todo s i = ev # rest \<Longrightarrow> kernel_ok (kern s) i ev \<Longrightarrow>
    host_step s (s\<lparr>kern := kernel_do (kern s) i ev, todo := (todo s)(i := rest)\<rparr>)"
| exit: "host_step s (s\<lparr>kern := kernel_exit (kern s) i, todo := (todo s)(i := [])\<rparr>)"

definition init_host :: "(nat \<Rightarrow> kevent list) \<Rightarrow> host" where
  "init_host runs = \<lparr>kern = \<lparr>k_fds = (\<lambda>_ _. None), k_holder = (\<lambda>_. None)\<rparr>, todo = runs\<rparr>"

inductive host_reachable :: "(nat \<Rightarrow> kevent list) \<Rightarrow> host \<Rightarrow> bool" for runs where
  start: "host_reachable runs (init_host runs)"
| step: "host_reachable runs s \<Longrightarrow> host_step s t \<Longrightarrow> host_reachable runs t"

section \<open>The phases of a process\<close>

text \<open>Where a process with the lock file \<open>p\<close> is: before it opens the file, about to lock it, inside, or past its lock.\<close>

fun inside_run :: "nat \<Rightarrow> kevent list \<Rightarrow> bool" where
  "inside_run fd [] = True"
| "inside_run fd (ev # tr) \<longleftrightarrow> fd \<notin> kfds ev \<and> inside_run fd tr \<or> ev = KUnlock fd \<and> tr = []"

definition holds :: "kernel \<Rightarrow> string \<Rightarrow> nat \<Rightarrow> bool" where
  "holds k p i \<longleftrightarrow> (\<exists>fd. k_holder k p = Some (i, fd))"

inductive phase :: "string \<Rightarrow> kernel \<Rightarrow> nat \<Rightarrow> kevent list \<Rightarrow> bool" for p k i where
  before: "list_all harmless pre \<Longrightarrow> inside_run fd rest \<Longrightarrow> \<not> holds k p i \<Longrightarrow> phase p k i (pre @ KOpen p fd # KLock fd # rest)"
| waits: "k_fds k i fd = Some p \<Longrightarrow> inside_run fd rest \<Longrightarrow> \<not> holds k p i \<Longrightarrow> phase p k i (KLock fd # rest)"
| inside: "k_fds k i fd = Some p \<Longrightarrow> k_holder k p = Some (i, fd) \<Longrightarrow> inside_run fd tr \<Longrightarrow> phase p k i tr"
| past: "list_all harmless tr \<Longrightarrow> \<not> holds k p i \<Longrightarrow> phase p k i tr"

lemma inside_runI: "list_all (\<lambda>ev. fd \<notin> kfds ev) work \<Longrightarrow> post \<in> {[], [KUnlock fd]} \<Longrightarrow> inside_run fd (work @ post)"
  by (induction work) auto

lemma phase_init:
  assumes "locked_run p tr"
  shows "phase p \<lparr>k_fds = (\<lambda>_ _. None), k_holder = (\<lambda>_. None)\<rparr> i tr"
  using assms [unfolded locked_run_def]
proof (elim disjE exE conjE)
  assume "list_all harmless tr"
  then show ?thesis by (rule phase.past) (simp add: holds_def)
next
  fix pre fd work post
  assume "tr = pre @ KOpen p fd # KLock fd # work @ post" "list_all harmless pre"
    and "list_all (\<lambda>ev. fd \<notin> kfds ev) work" "post \<in> {[], [KUnlock fd]}"
  then show ?thesis using phase.before [OF _ inside_runI] by (simp add: holds_def)
qed

text \<open>What another process, or a harmless event of its own, leaves of a process's lock.\<close>

lemma holder_kept_other:
  "kernel_ok k j ev \<Longrightarrow> j \<noteq> i \<Longrightarrow> k_holder k p = Some (i, fd) \<Longrightarrow> k_holder (kernel_do k j ev) p = Some (i, fd)"
  by (cases ev) (auto simp: drop_locks_def split: option.splits)

lemma holder_gained:
  "k_holder (kernel_do k j ev) p = Some (i, fd) \<Longrightarrow> k_holder k p = Some (i, fd) \<or> i = j \<and> ev = KLock fd \<and> k_fds k i fd = Some p"
  by (cases ev) (auto simp: drop_locks_def split: option.splits if_splits)

lemma fds_other: "j \<noteq> i \<Longrightarrow> k_fds (kernel_do k j ev) i = k_fds k i"
  by (cases ev) (auto split: option.splits)

lemma phase_other:
  assumes "phase p k i tr" and "kernel_ok k j ev" and "j \<noteq> i"
  shows "phase p (kernel_do k j ev) i tr"
proof -
  have "\<not> holds k p i \<Longrightarrow> \<not> holds (kernel_do k j ev) p i"
    using holder_gained [of k j ev p i] assms(3) by (auto simp: holds_def)
  with assms(1) show ?thesis
    by (cases rule: phase.cases)
      (auto intro: phase.intros holder_kept_other [OF assms(2,3)] simp: fds_other [OF assms(3)])
qed

lemma phase_own:
  assumes "phase p k i (ev # tr)" and "kernel_ok k i ev"
  shows "phase p (kernel_do k i ev) i tr"
  using assms(1)
proof (cases rule: phase.cases)
  case (before pre fd rest)
  have kept: "\<not> holds (kernel_do k i ev) p i" if "harmless ev \<or> (\<exists>q n. ev = KOpen q n)"
    using holder_gained [of k i ev p i] before(4) that by (auto simp: holds_def)
  show ?thesis
  proof (cases pre)
    case Nil
    with before kept show ?thesis by (auto intro!: phase.waits)
  next
    case (Cons e pre')
    with before kept have "tr = pre' @ KOpen p fd # KLock fd # rest" "list_all harmless pre'" "\<not> holds (kernel_do k i ev) p i" by auto
    with before(3) show ?thesis by (auto intro!: phase.before)
  qed
next
  case (waits fd)
  then show ?thesis by (auto intro!: phase.inside)
next
  case (inside fd)
  from inside(3) [unfolded inside_run.simps] show ?thesis
  proof (elim disjE conjE)
    assume ev: "fd \<notin> kfds ev" and tr: "inside_run fd tr"
    have "k_fds (kernel_do k i ev) i fd = Some p" using inside(1) ev by (cases ev) (auto split: option.splits)
    moreover have "k_holder (kernel_do k i ev) p = Some (i, fd)"
      using inside(2) ev assms(2) by (cases ev) (auto simp: drop_locks_def split: option.splits)
    ultimately show ?thesis using tr by (rule phase.inside)
  next
    assume "ev = KUnlock fd" and "tr = []"
    with inside(2) show ?thesis by (auto simp: holds_def drop_locks_def intro!: phase.past)
  qed
next
  case past
  then have "\<not> holds (kernel_do k i ev) p i"
    using holder_gained [of k i ev p i] by (auto simp: holds_def)
  with past show ?thesis by (auto intro!: phase.past)
qed

lemma phase_exit:
  "phase p k i tr \<Longrightarrow> phase p (kernel_exit k j) i (if j = i then [] else tr)"
proof -
  assume ph: "phase p k i tr"
  have none: "\<not> holds k p i \<Longrightarrow> \<not> holds (kernel_exit k j) p i"
    by (auto simp: holds_def kernel_exit_def drop_locks_def split: option.splits if_splits)
  show ?thesis
  proof (cases "j = i")
    case True
    then show ?thesis
      by (auto simp: holds_def kernel_exit_def drop_locks_def intro!: phase.past split: option.splits if_splits)
  next
    case False
    from ph show ?thesis
      by (cases rule: phase.cases)
        (use False none in \<open>auto intro: phase.intros simp: kernel_exit_def drop_locks_def split: option.splits\<close>)
  qed
qed

lemma host_phases:
  assumes "\<And>i. locked_run (p i) (runs i)" and "host_reachable runs s"
  shows "phase (p i) (kern s) i (todo s i)"
  using assms(2)
proof (induction arbitrary: i rule: host_reachable.induct)
  case start
  show ?case using phase_init [OF assms(1)] by (simp add: init_host_def)
next
  case (step s t)
  from step.hyps(2) show ?case
  proof (cases rule: host_step.cases)
    case (call j ev rest)
    show ?thesis
    proof (cases "j = i")
      case True
      with call phase_own step.IH [of i] show ?thesis by simp
    next
      case False
      with call phase_other [OF step.IH] show ?thesis by simp
    qed
  next
    case (exit j)
    with phase_exit [OF step.IH, of i j] show ?thesis by (auto split: if_splits)
  qed
qed

section \<open>Commands on the host\<close>

text \<open>What the kernel sees of a start, stop or run command for the process \<open>proc\<close> of \<open>job\<close>, in any world whose
  kernel does not hand out descriptors that are open; or of no command at all.\<close>

definition command_run :: "Handle \<Rightarrow> string \<Rightarrow> string \<Rightarrow> kevent list \<Rightarrow> bool" where
  "command_run locks job proc tr \<longleftrightarrow>
     tr = [] \<or>
     (\<exists>s be i w. changes_process (i_command i) \<and> fresh_descriptors (env w) \<and>
        validateInput be (i_process i) (i_args i) = Ok (NewBPMConfig be job proc, proc) \<and>
        tr = kevents (env w) (calls w) (new_calls (command_body s be i locks) w))"

lemma command_run_locked:
  assumes "command_run locks job proc tr"
  shows "locked_run (job_lock_path locks job proc) tr"
  using assms [unfolded command_run_def]
proof (elim disjE exE conjE)
  assume "tr = []"
  then show ?thesis by (simp add: locked_run_def)
next
  fix s be i w
  assume c: "changes_process (i_command i)" "fresh_descriptors (env w)"
      "validateInput be (i_process i) (i_args i) = Ok (NewBPMConfig be job proc, proc)"
    and tr: "tr = kevents (env w) (calls w) (new_calls (command_body s be i locks) w)"
  obtain t where "calls (snd (command_body s be i locks w)) = calls w @ t"
    and "locked_run (job_lock_path locks job proc) (kevents (env w) (calls w) t)"
    using command_locked_run [OF c, of s locks] by (metis NewBPMConfig_def bpm_config.select_convs(1,2) cfg_JobName_def cfg_ProcName_def surjective_pairing)
  with tr show ?thesis by (simp add: new_calls_def)
qed

text \<open>A command acts when its next call is one that it may only make under its lock.\<close>

definition acting :: "host \<Rightarrow> nat \<Rightarrow> bool" where
  "acting s i \<longleftrightarrow> (case todo s i of KOther x # _ \<Rightarrow> \<not> prepares x | _ \<Rightarrow> False)"

lemma phase_acting: "phase p k i (KOther x # rest) \<Longrightarrow> \<not> prepares x \<Longrightarrow> holds k p i"
  by (cases rule: phase.cases, assumption) (auto simp: holds_def Cons_eq_append_conv)

lemma acting_holds:
  assumes "phase p (kern s) i (todo s i)" and "acting s i"
  shows "holds (kern s) p i"
proof -
  from assms(2) obtain x rest where "todo s i = KOther x # rest" "\<not> prepares x"
    by (auto simp: acting_def split: list.split_asm kevent.split_asm)
  with assms(1) phase_acting show ?thesis by metis
qed

text \<open>A history of the host: the calls that its processes have made, in order, and where they have led.\<close>

inductive host_run :: "(nat \<Rightarrow> kevent list) \<Rightarrow> (nat \<times> kevent) list \<Rightarrow> host \<Rightarrow> bool" for runs where
  start: "host_run runs [] (init_host runs)"
| call: "host_run runs tr s \<Longrightarrow> todo s i = ev # rest \<Longrightarrow> kernel_ok (kern s) i ev \<Longrightarrow>
    host_run runs (tr @ [(i, ev)]) (s\<lparr>kern := kernel_do (kern s) i ev, todo := (todo s)(i := rest)\<rparr>)"
| exit: "host_run runs tr s \<Longrightarrow> host_run runs tr (s\<lparr>kern := kernel_exit (kern s) i, todo := (todo s)(i := [])\<rparr>)"

lemma host_run_reachable: "host_run runs tr s \<Longrightarrow> host_reachable runs s"
  by (induction rule: host_run.induct) (auto intro: host_reachable.intros host_step.intros)

lemma reachable_host_run: "host_reachable runs s \<Longrightarrow> \<exists>tr. host_run runs tr s"
proof (induction rule: host_reachable.induct)
  case (step s t)
  from step.hyps(2) step.IH show ?case by (cases rule: host_step.cases) (blast intro: host_run.intros)+
qed (blast intro: host_run.start)

text \<open>The commands that have acted on the process \<open>p\<close> of the job \<open>jb\<close>, one entry for each of their calls.\<close>

fun acts :: "kevent \<Rightarrow> bool" where
  "acts (KOther x) \<longleftrightarrow> \<not> prepares x"
| "acts _ \<longleftrightarrow> False"

definition actors :: "(nat \<Rightarrow> string) \<Rightarrow> (nat \<Rightarrow> string) \<Rightarrow> string \<Rightarrow> string \<Rightarrow> (nat \<times> kevent) list \<Rightarrow> nat list" where
  "actors job proc jb p tr = map fst (filter (\<lambda>(i, ev). job i = jb \<and> proc i = p \<and> acts ev) tr)"

lemma acting_iff: "acting s i \<longleftrightarrow> (\<exists>ev rest. todo s i = ev # rest \<and> acts ev)"
  by (auto simp: acting_def split: list.split kevent.split)

text \<open>Once a command has acted it holds its lock until it has nothing left to do.\<close>

definition bound :: "string \<Rightarrow> host \<Rightarrow> nat \<Rightarrow> bool" where
  "bound p s i \<longleftrightarrow> todo s i = [] \<or> (\<exists>fd. k_holder (kern s) p = Some (i, fd) \<and> inside_run fd (todo s i))"

lemma bound_acting:
  assumes "phase p (kern s) i (todo s i)" and "acting s i"
  shows "bound p s i"
proof -
  have "holds (kern s) p i" by (rule acting_holds [OF assms])
  with assms(1) show ?thesis by (cases rule: phase.cases) (auto simp: bound_def)
qed

lemma bound_call:
  assumes "bound p s i" and "todo s j = ev # rest" and "kernel_ok (kern s) j ev"
  shows "bound p (s\<lparr>kern := kernel_do (kern s) j ev, todo := (todo s)(j := rest)\<rparr>) i"
proof (cases "j = i")
  case True
  with assms(1,2) obtain fd where h: "k_holder (kern s) p = Some (i, fd)" and r: "inside_run fd (ev # rest)" by (auto simp: bound_def)
  from r [unfolded inside_run.simps] show ?thesis
  proof (elim disjE conjE)
    assume "fd \<notin> kfds ev" and "inside_run fd rest"
    moreover from this have "k_holder (kernel_do (kern s) i ev) p = Some (i, fd)"
      using h assms(3) True by (cases ev) (auto simp: drop_locks_def split: option.splits)
    ultimately show ?thesis using True by (auto simp: bound_def)
  qed (use True in \<open>simp add: bound_def\<close>)
next
  case False
  with assms(1) holder_kept_other [OF assms(3) False] show ?thesis by (auto simp: bound_def)
qed

lemma bound_exit: "bound p s i \<Longrightarrow> bound p (s\<lparr>kern := kernel_exit (kern s) j, todo := (todo s)(j := [])\<rparr>) i"
  by (auto simp: bound_def kernel_exit_def drop_locks_def)

lemma bound_loses: "bound p s k \<Longrightarrow> holds (kern s) p i \<Longrightarrow> k \<noteq> i \<Longrightarrow> todo s k = []"
  by (auto simp: bound_def holds_def)

text \<open>All that have acted are bound to the lock, and all but the last of them are done, so each has its calls in one piece.\<close>

definition in_turn :: "string \<Rightarrow> nat list \<Rightarrow> host \<Rightarrow> bool" where
  "in_turn p as s \<longleftrightarrow>
     distinct (remdups_adj as) \<and> (\<forall>k\<in>set as. bound p s k \<and> (k \<noteq> last as \<longrightarrow> todo s k = []))"

lemma in_turn_next:
  assumes "in_turn p as s" and "acting s i" and "phase p (kern s) i (todo s i)"
  shows "in_turn p (as @ [i]) s"
proof -
  have h: "holds (kern s) p i" by (rule acting_holds [OF assms(3,2)])
  have rest: "bound p s k \<and> (k \<noteq> i \<longrightarrow> todo s k = [])" if "k \<in> set (as @ [i])" for k
    using that assms(1) bound_acting [OF assms(3,2)] bound_loses [OF _ h] by (auto simp: in_turn_def)
  have "todo s i \<noteq> []" using assms(2) by (auto simp: acting_iff)
  then have new: "i \<in> set as \<Longrightarrow> i = last as" using assms(1) by (auto simp: in_turn_def)
  have "distinct (remdups_adj (as @ [i]))"
  proof (cases as rule: rev_cases)
    case (snoc bs b)
    with new assms(1) show ?thesis by (auto simp: remdups_adj_append_two in_turn_def)
  qed simp
  with rest show ?thesis by (simp add: in_turn_def)
qed

lemma in_turn_call:
  assumes "in_turn p as s" and "todo s j = ev # rest" and "kernel_ok (kern s) j ev"
  shows "in_turn p as (s\<lparr>kern := kernel_do (kern s) j ev, todo := (todo s)(j := rest)\<rparr>)"
  using assms(1) bound_call [OF _ assms(2,3)] assms(2) by (fastforce simp: in_turn_def)

lemma in_turn_exit: "in_turn p as s \<Longrightarrow> in_turn p as (s\<lparr>kern := kernel_exit (kern s) j, todo := (todo s)(j := [])\<rparr>)"
  using bound_exit by (auto simp: in_turn_def)

lemma host_run_in_turn:
  assumes "\<And>i. command_run locks (job i) (proc i) (runs i)" and "host_run runs tr s"
  shows "in_turn (job_lock_path locks jb p) (actors job proc jb p tr) s"
  using assms(2)
proof (induction rule: host_run.induct)
  case (call tr s i ev rest)
  show ?case
  proof (cases "job i = jb \<and> proc i = p \<and> acts ev")
    case True
    have "phase (job_lock_path locks (job i) (proc i)) (kern s) i (todo s i)"
      using host_phases [of "\<lambda>i. job_lock_path locks (job i) (proc i)" runs s i] command_run_locked [OF assms(1)] host_run_reachable [OF call.hyps(1)]
      by blast
    with in_turn_next [OF call.IH] True call.hyps(2) have "in_turn (job_lock_path locks jb p) (actors job proc jb p tr @ [i]) s"
      by (auto simp: acting_iff)
    from in_turn_call [OF this call.hyps(2,3)] True show ?thesis by (simp add: actors_def)
  next
    case False
    with in_turn_call [OF call.IH call.hyps(2,3)] show ?thesis by (auto simp: actors_def)
  qed
next
  case (exit tr s i)
  from in_turn_exit [OF exit.IH] show ?case .
qed (simp add: in_turn_def actors_def)

text \<open>C6: commands for the same process are carried out one after the other. On a host where any number of start, stop and run commands run
  interleaved, whatever each of them is answered and wherever each of them dies, the calls that the commands for a given process of a
  job make, other than those that prepare a lock, form one unbroken block for each command; and at most one of the commands is about to
  make such a call.\<close>

theorem commands_serialized:
  assumes "\<And>i. command_run locks (job i) (proc i) (runs i)" and "host_run runs tr s"
  shows "distinct (remdups_adj (actors job proc jb p tr)) \<and>
    (\<forall>i j. acting s i \<and> acting s j \<and> job i = jb \<and> job j = jb \<and> proc i = p \<and> proc j = p \<longrightarrow> i = j)"
proof (intro conjI allI impI)
  show "distinct (remdups_adj (actors job proc jb p tr))"
    using host_run_in_turn [OF assms, of jb p] by (simp add: in_turn_def)
  fix i j
  assume a: "acting s i \<and> acting s j \<and> job i = jb \<and> job j = jb \<and> proc i = p \<and> proc j = p"
  have phases: "phase (job_lock_path locks (job n) (proc n)) (kern s) n (todo s n)" for n
    using host_phases [of "\<lambda>i. job_lock_path locks (job i) (proc i)" runs s n] command_run_locked [OF assms(1)] host_run_reachable [OF assms(2)] by blast
  from a have "holds (kern s) (job_lock_path locks jb p) i" "holds (kern s) (job_lock_path locks jb p) j"
    using acting_holds [OF phases [of i]] acting_holds [OF phases [of j]] by simp_all
  then show "i = j" by (auto simp: holds_def)
qed

section \<open>Two commands for one process\<close>

text \<open>Process \<open>i\<close> makes its next \<open>n\<close> calls.\<close>

fun advance :: "nat \<Rightarrow> nat \<Rightarrow> host \<Rightarrow> host" where
  "advance 0 i s = s"
| "advance (Suc n) i s =
     (case todo s i of
        [] \<Rightarrow> s
      | ev # rest \<Rightarrow>
          if kernel_ok (kern s) i ev then advance n i (s\<lparr>kern := kernel_do (kern s) i ev, todo := (todo s)(i := rest)\<rparr>) else s)"

lemma advance_reachable: "host_reachable runs s \<Longrightarrow> host_reachable runs (advance n i s)"
proof (induction n i s rule: advance.induct)
  case (2 n i s)
  show ?case
  proof (cases "todo s i")
    case (Cons ev rest)
    with 2 host_reachable.step [OF 2(2) host_step.call [OF Cons]] show ?thesis by simp
  qed (use 2 in simp)
qed simp

definition start_events :: "kevent list" where
  "start_events = kevents unreadable_env [] (new_calls
     (command_body example_setting (NewEnv []) (example_invocation\<lparr>i_command := StartCommand\<rparr>) (NewHandle ''/locks'')) \<lparr>calls = [], env = unreadable_env\<rparr>)"

lemma open_after_below: "r_fd e = (\<lambda>h c. Inr (length h)) \<Longrightarrow> open_after e [] {} h \<subseteq> {..<length h}"
proof (induction h rule: rev_induct)
  case (snoc x h)
  then show ?case unfolding open_after_snoc
    by (auto simp: open_step_def opened_by_def split: call.splits)
qed simp

lemma unreadable_fresh: "fresh_descriptors unreadable_env"
  using open_after_below [of unreadable_env]
  by (auto simp: fresh_descriptors_def opened_by_def unreadable_env_def calm_env_def split: call.splits)

lemma start_events_run: "command_run (NewHandle ''/locks'') ''web'' ''web'' start_events"
  unfolding command_run_def
  by (intro disjI2 exI [of _ example_setting] exI [of _ "NewEnv []"] exI [of _ "example_invocation\<lparr>i_command := StartCommand\<rparr>"] exI [of _ "\<lparr>calls = [], env = unreadable_env\<rparr>"])
    (simp add: start_events_def unreadable_fresh changes_process_def example_invocation_def validateInput_def Let_def)

lemma start_events_eq:
  "\<exists>d m u log x y cfg. start_events = [KOther (MkdirAll d m), KOther (LookupUser u), KOpen log 2, KOther (FChown 2 x y),
     KOpen (job_lock_path (NewHandle ''/locks'') ''web'' ''web'') 4, KLock 4, KOther (ReadFile cfg)]"
proof -
  have "strconv_Atoi ''1000'' = Inr 1000" by code_simp
  then show ?thesis
    by (simp add: start_events_def unreadable_env_def calm_env_def command_body_def example_invocation_def example_setting_def
      startPre_def lifecyclePre_def validateInput_def Let_def setupBpmLogs_def acquireLifecycleLock_def Lookup_def OpenAppendChown_def
      user_of_def bind_res_def LockJob_def flock_New_def flock_Lock_def start_def load_process_def cfg_ParseJobConfig_def ParseJobConfig_def io_simps
      res_of_def res_sum_def new_calls_def kevent_of_def cfg_JobName_def cfg_ProcName_def NewBPMConfig_def)
qed

text \<open>Two such commands: the first has its lock and is about to read the configuration, the second has opened the lock file.\<close>

definition two_starts :: host where
  "two_starts = advance 5 1 (advance 6 0 (init_host (\<lambda>_. start_events)))"

lemma two_starts_reachable: "host_reachable (\<lambda>_. start_events) two_starts"
  unfolding two_starts_def by (intro advance_reachable host_reachable.start)

lemma two_starts_acting: "acting two_starts 0"
proof -
  obtain d m u log x y cfg where e: "start_events = [KOther (MkdirAll d m), KOther (LookupUser u), KOpen log 2, KOther (FChown 2 x y),
     KOpen (job_lock_path (NewHandle ''/locks'') ''web'' ''web'') 4, KLock 4, KOther (ReadFile cfg)]"
    using start_events_eq by blast
  show ?thesis unfolding two_starts_def e by (simp add: init_host_def acting_def prepares_def numeral_eq_Suc)
qed

theorem commands_serialized_witness:
  "\<exists>tr. host_run (\<lambda>_. start_events) tr two_starts \<and> distinct (remdups_adj (actors (\<lambda>_. ''web'') (\<lambda>_. ''web'') ''web'' ''web'' tr)) \<and>
     acting two_starts 0 \<and> \<not> acting two_starts 1"
proof -
  obtain tr where tr: "host_run (\<lambda>_. start_events) tr two_starts" using reachable_host_run [OF two_starts_reachable] by blast
  from commands_serialized [of "NewHandle ''/locks''" "\<lambda>_. ''web''" "\<lambda>_. ''web''" "\<lambda>_. start_events", OF start_events_run tr, of "''web''" "''web''"]
    two_starts_acting tr show ?thesis by (metis zero_neq_one)
qed

section \<open>Refinement of the lock protocol\<close>

text \<open>The protocol's state, read off the host: a process is inside when the kernel has its lock file locked by it, and
  waits when its next call locks that file.\<close>

definition waiting :: "host \<Rightarrow> string \<Rightarrow> nat \<Rightarrow> bool" where
  "waiting s p i \<longleftrightarrow> (case todo s i of KLock fd # _ \<Rightarrow> k_fds (kern s) i fd = Some p | _ \<Rightarrow> False)"

definition abs_pst :: "Handle \<Rightarrow> (nat \<Rightarrow> string) \<Rightarrow> (nat \<Rightarrow> string) \<Rightarrow> host \<Rightarrow> nat \<Rightarrow> pstate" where
  "abs_pst locks job proc s i =
     (if holds (kern s) (job_lock_path locks (job i) (proc i)) i then Critical (job i) (proc i)
      else if waiting s (job_lock_path locks (job i) (proc i)) i then Waiting (job i) (proc i) else Idle)"

definition abs_holder :: "Handle \<Rightarrow> (nat \<Rightarrow> string) \<Rightarrow> (nat \<Rightarrow> string) \<Rightarrow> host \<Rightarrow> string \<Rightarrow> nat option" where
  "abs_holder locks job proc s f =
     (case k_holder (kern s) f of
        None \<Rightarrow> None | Some (i, fd) \<Rightarrow> if f = job_lock_path locks (job i) (proc i) then Some i else None)"

definition abs_host :: "Handle \<Rightarrow> (nat \<Rightarrow> string) \<Rightarrow> (nat \<Rightarrow> string) \<Rightarrow> host \<Rightarrow> lock_sys" where
  "abs_host locks job proc s = \<lparr>pst = abs_pst locks job proc s, holder = abs_holder locks job proc s\<rparr>"

lemma abs_holder_holds:
  "abs_holder locks job proc s f = Some i \<longleftrightarrow> f = job_lock_path locks (job i) (proc i) \<and> holds (kern s) f i"
  by (cases "k_holder (kern s) f") (auto simp: abs_holder_def holds_def split: if_splits)

lemma option_eqI: "(\<And>i. a = Some i \<longleftrightarrow> b = Some i) \<Longrightarrow> a = b"
  by (cases a; cases b) auto

text \<open>A step of another process changes neither; a step of the process itself changes its own entries only.\<close>

lemma holds_other: "kernel_ok k j ev \<Longrightarrow> j \<noteq> i \<Longrightarrow> holds (kernel_do k j ev) p i \<longleftrightarrow> holds k p i"
  unfolding holds_def using holder_kept_other [of k j ev i p] holder_gained [of k j ev p i] by blast

lemma holds_exit: "holds (kernel_exit k j) p i \<longleftrightarrow> i \<noteq> j \<and> holds k p i"
  by (auto simp: holds_def kernel_exit_def drop_locks_def split: option.splits if_splits)

lemma abs_host_eqI:
  assumes "\<And>i. holds (kern t) (job_lock_path locks (job i) (proc i)) i \<longleftrightarrow> (if i = j then h else holds (kern s) (job_lock_path locks (job i) (proc i)) i)"
    and "\<And>i. i \<noteq> j \<Longrightarrow> waiting t (job_lock_path locks (job i) (proc i)) i \<longleftrightarrow> waiting s (job_lock_path locks (job i) (proc i)) i"
    and "v = (if h then Critical (job j) (proc j) else if waiting t (job_lock_path locks (job j) (proc j)) j then Waiting (job j) (proc j) else Idle)"
  shows "abs_host locks job proc t =
    \<lparr>pst = (abs_pst locks job proc s)(j := v),
     holder = (\<lambda>f. if f = job_lock_path locks (job j) (proc j) \<and> h then Some j
       else if abs_holder locks job proc s f = Some j then None else abs_holder locks job proc s f)\<rparr>"
proof -
  let ?p = "\<lambda>i. job_lock_path locks (job i) (proc i)"
  have "abs_holder locks job proc t f = (if f = ?p j \<and> h then Some j
       else if abs_holder locks job proc s f = Some j then None else abs_holder locks job proc s f)" for f
  proof (rule option_eqI)
    fix i
    have "abs_holder locks job proc t f = Some i \<longleftrightarrow> f = ?p i \<and> (if i = j then h else holds (kern s) f i)"
      using assms(1) [of i] by (auto simp: abs_holder_holds)
    moreover have "i = j" if "f = ?p j" "h" "f = ?p i" "holds (kern s) f i"
      using assms(1) [of i] assms(1) [of j] that by (auto simp: holds_def split: if_splits)
    moreover have "abs_holder locks job proc s f = Some i \<longleftrightarrow> f = ?p i \<and> holds (kern s) f i" by (rule abs_holder_holds)
    ultimately show "abs_holder locks job proc t f = Some i \<longleftrightarrow> (if f = ?p j \<and> h then Some j
       else if abs_holder locks job proc s f = Some j then None else abs_holder locks job proc s f) = Some i"
      by (cases "i = j"; cases "f = ?p j \<and> h"; cases "abs_holder locks job proc s f = Some j"; (simp only: if_True if_False option.inject option.simps simp_thms; blast)?)
  qed
  moreover have "abs_pst locks job proc t i = ((abs_pst locks job proc s)(j := v)) i" for i
  proof (cases "i = j")
    case True
    have "holds (kern t) (?p j) j \<longleftrightarrow> h" using assms(1) [of j] by (simp only: if_True simp_thms)
    then show ?thesis unfolding True abs_pst_def fun_upd_same assms(3) by (simp only:)
  next
    case False
    have "holds (kern t) (?p i) i \<longleftrightarrow> holds (kern s) (?p i) i" using assms(1) [of i] False by (simp only: if_False)
    then show ?thesis unfolding fun_upd_other [OF False] abs_pst_def by (simp only: assms(2) [OF False])
  qed
  ultimately have "abs_pst locks job proc t = (abs_pst locks job proc s)(j := v)"
    and "abs_holder locks job proc t = (\<lambda>f. if f = ?p j \<and> h then Some j
       else if abs_holder locks job proc s f = Some j then None else abs_holder locks job proc s f)" by blast+
  then show ?thesis unfolding abs_host_def by (simp only:)
qed

lemma pst_abs_host [simp]: "pst (abs_host locks job proc s) = abs_pst locks job proc s" "holder (abs_host locks job proc s) = abs_holder locks job proc s"
  by (simp_all add: abs_host_def)

lemma waiting_other:
  "j \<noteq> i \<Longrightarrow> waiting (s\<lparr>kern := kernel_do (kern s) j ev, todo := (todo s)(j := rest)\<rparr>) p i \<longleftrightarrow> waiting s p i"
  "j \<noteq> i \<Longrightarrow> waiting (s\<lparr>kern := kernel_exit (kern s) j, todo := (todo s)(j := [])\<rparr>) p i \<longleftrightarrow> waiting s p i"
  by (auto simp: waiting_def fds_other kernel_exit_def split: list.splits kevent.splits)

text \<open>A call of process \<open>j\<close> that leaves it holding its lock or not (\<open>h\<close>), and waiting or not.\<close>

lemma abs_call:
  assumes "kernel_ok (kern s) j ev"
    and "t = s\<lparr>kern := kernel_do (kern s) j ev, todo := (todo s)(j := rest)\<rparr>"
    and "holds (kern t) (job_lock_path locks (job j) (proc j)) j \<longleftrightarrow> h"
    and "v = (if h then Critical (job j) (proc j) else if waiting t (job_lock_path locks (job j) (proc j)) j then Waiting (job j) (proc j) else Idle)"
  shows "abs_host locks job proc t =
    \<lparr>pst = (abs_pst locks job proc s)(j := v),
     holder = (\<lambda>f. if f = job_lock_path locks (job j) (proc j) \<and> h then Some j
       else if abs_holder locks job proc s f = Some j then None else abs_holder locks job proc s f)\<rparr>"
proof (rule abs_host_eqI)
  fix i
  let ?p = "job_lock_path locks (job i) (proc i)"
  show "holds (kern t) ?p i \<longleftrightarrow> (if i = j then h else holds (kern s) ?p i)"
  proof (cases "i = j")
    case False
    then show ?thesis using holds_other [OF assms(1), of i ?p] by (simp add: assms(2))
  qed (simp add: assms(3))
  assume "i \<noteq> j"
  then show "waiting t ?p i \<longleftrightarrow> waiting s ?p i" unfolding assms(2) by (intro waiting_other(1)) simp
qed (rule assms(4))

text \<open>A call after which the process holds its lock, and waits, as before is invisible to the protocol.\<close>

lemma abs_stutter:
  assumes "kernel_ok (kern s) j ev"
    and "t = s\<lparr>kern := kernel_do (kern s) j ev, todo := (todo s)(j := rest)\<rparr>"
    and "holds (kern t) (job_lock_path locks (job j) (proc j)) j \<longleftrightarrow> holds (kern s) (job_lock_path locks (job j) (proc j)) j"
    and "\<not> holds (kern s) (job_lock_path locks (job j) (proc j)) j \<Longrightarrow>
      waiting t (job_lock_path locks (job j) (proc j)) j \<longleftrightarrow> waiting s (job_lock_path locks (job j) (proc j)) j"
  shows "abs_host locks job proc t = abs_host locks job proc s"
proof -
  let ?p = "\<lambda>i. job_lock_path locks (job i) (proc i)"
  let ?h = "holds (kern s) (?p j) j"
  have "abs_pst locks job proc s j = (if ?h then Critical (job j) (proc j) else if waiting t (?p j) j then Waiting (job j) (proc j) else Idle)"
    using assms(4) by (simp add: abs_pst_def)
  note eq = abs_call [where locks = locks and job = job and proc = proc, OF assms(1,2,3) this]
  have "(if f = ?p j \<and> ?h then Some j else if abs_holder locks job proc s f = Some j then None else abs_holder locks job proc s f) =
      abs_holder locks job proc s f" for f
  proof (cases "f = ?p j \<and> ?h")
    case True
    then have "abs_holder locks job proc s f = Some j" unfolding abs_holder_holds by blast
    with True show ?thesis by (simp only: if_True simp_thms)
  next
    case False
    then have "abs_holder locks job proc s f \<noteq> Some j" unfolding abs_holder_holds by blast
    with False show ?thesis by (simp only: if_False)
  qed
  with eq show ?thesis by (simp add: abs_host_def)
qed

text \<open>A step of the protocol, or none.\<close>

definition lock_stutter :: "Handle \<Rightarrow> lock_sys \<Rightarrow> lock_sys \<Rightarrow> bool" where
  "lock_stutter h a b \<longleftrightarrow> b = a \<or> lock_step h a b"

lemma abs_request:
  assumes "kernel_ok (kern s) j ev"
    and "t = s\<lparr>kern := kernel_do (kern s) j ev, todo := (todo s)(j := rest)\<rparr>"
    and "\<not> holds (kern s) (job_lock_path locks (job j) (proc j)) j" "\<not> waiting s (job_lock_path locks (job j) (proc j)) j"
    and "\<not> holds (kern t) (job_lock_path locks (job j) (proc j)) j" "waiting t (job_lock_path locks (job j) (proc j)) j"
  shows "lock_step locks (abs_host locks job proc s) (abs_host locks job proc t)"
proof -
  have "abs_pst locks job proc s j = Idle" using assms(3,4) by (simp add: abs_pst_def)
  then have "lock_step locks (abs_host locks job proc s)
      (abs_host locks job proc s\<lparr>pst := (abs_pst locks job proc s)(j := Waiting (job j) (proc j))\<rparr>)"
    using lock_step.request [of "abs_host locks job proc s" j] by simp
  moreover have "abs_holder locks job proc s f \<noteq> Some j" for f
    using abs_holder_holds [of locks job proc s f j] assms(3) by blast
  then have "abs_host locks job proc t = abs_host locks job proc s\<lparr>pst := (abs_pst locks job proc s)(j := Waiting (job j) (proc j))\<rparr>"
    using abs_call [OF assms(1,2), of locks job proc False] assms(5,6) by (simp add: abs_host_def)
  ultimately show ?thesis by simp
qed

lemma abs_grant:
  assumes "kernel_ok (kern s) j ev"
    and "t = s\<lparr>kern := kernel_do (kern s) j ev, todo := (todo s)(j := rest)\<rparr>"
    and "k_holder (kern s) (job_lock_path locks (job j) (proc j)) = None" "waiting s (job_lock_path locks (job j) (proc j)) j"
    and "holds (kern t) (job_lock_path locks (job j) (proc j)) j"
  shows "lock_step locks (abs_host locks job proc s) (abs_host locks job proc t)"
proof -
  let ?p = "job_lock_path locks (job j) (proc j)"
  have no: "\<not> holds (kern s) ?p j" and free: "abs_holder locks job proc s ?p = None"
    using assms(3) by (simp_all add: holds_def abs_holder_def)
  have "abs_pst locks job proc s j = Waiting (job j) (proc j)" using no assms(4) by (simp add: abs_pst_def)
  then have "lock_step locks (abs_host locks job proc s)
      (abs_host locks job proc s\<lparr>pst := (abs_pst locks job proc s)(j := Critical (job j) (proc j)),
         holder := (abs_holder locks job proc s)(?p := Some j)\<rparr>)"
    using lock_step.grant [of "abs_host locks job proc s" j] free by simp
  moreover have "abs_holder locks job proc s f \<noteq> Some j" for f
    using abs_holder_holds [of locks job proc s f j] no by blast
  then have "abs_host locks job proc t = abs_host locks job proc s\<lparr>pst := (abs_pst locks job proc s)(j := Critical (job j) (proc j)),
         holder := (abs_holder locks job proc s)(?p := Some j)\<rparr>"
    using abs_call [OF assms(1,2), of locks job proc True] assms(5) by (simp add: abs_host_def fun_upd_def cong: if_cong)
  ultimately show ?thesis by simp
qed

lemma abs_unlock:
  assumes "kernel_ok (kern s) j ev"
    and "t = s\<lparr>kern := kernel_do (kern s) j ev, todo := (todo s)(j := rest)\<rparr>"
    and "holds (kern s) (job_lock_path locks (job j) (proc j)) j"
    and "\<not> holds (kern t) (job_lock_path locks (job j) (proc j)) j" "\<not> waiting t (job_lock_path locks (job j) (proc j)) j"
  shows "lock_step locks (abs_host locks job proc s) (abs_host locks job proc t)"
proof -
  let ?p = "job_lock_path locks (job j) (proc j)"
  have "abs_pst locks job proc s j = Critical (job j) (proc j)" using assms(3) by (simp add: abs_pst_def)
  then have "lock_step locks (abs_host locks job proc s)
      (abs_host locks job proc s\<lparr>pst := (abs_pst locks job proc s)(j := Idle), holder := (abs_holder locks job proc s)(?p := None)\<rparr>)"
    using lock_step.unlock [of "abs_host locks job proc s" j] by simp
  moreover have "abs_holder locks job proc s f = Some j \<longleftrightarrow> f = ?p" for f
    using abs_holder_holds [of locks job proc s f j] assms(3) by blast
  then have "abs_host locks job proc t =
      abs_host locks job proc s\<lparr>pst := (abs_pst locks job proc s)(j := Idle), holder := (abs_holder locks job proc s)(?p := None)\<rparr>"
    using abs_call [OF assms(1,2), of locks job proc False] assms(4,5) by (simp add: abs_host_def fun_upd_def cong: if_cong)
  ultimately show ?thesis by simp
qed

lemma abs_exit:
  "lock_step locks (abs_host locks job proc s)
     (abs_host locks job proc (s\<lparr>kern := kernel_exit (kern s) j, todo := (todo s)(j := [])\<rparr>))"
proof -
  let ?t = "s\<lparr>kern := kernel_exit (kern s) j, todo := (todo s)(j := [])\<rparr>"
  have "abs_host locks job proc ?t =
    \<lparr>pst = (abs_pst locks job proc s)(j := Idle),
     holder = (\<lambda>f. if f = job_lock_path locks (job j) (proc j) \<and> False then Some j
       else if abs_holder locks job proc s f = Some j then None else abs_holder locks job proc s f)\<rparr>"
  proof (rule abs_host_eqI)
    fix i
    let ?p = "job_lock_path locks (job i) (proc i)"
    show "holds (kern ?t) ?p i \<longleftrightarrow> (if i = j then False else holds (kern s) ?p i)" by (simp add: holds_exit)
    assume "i \<noteq> j"
    then show "waiting ?t ?p i \<longleftrightarrow> waiting s ?p i" by (intro waiting_other(2)) simp
  qed (simp add: waiting_def)
  then show ?thesis using lock_step.exit [of locks "abs_host locks job proc s" j] by (simp add: abs_host_def cong: if_cong)
qed

text \<open>Each call of a command is one step of the protocol, or none: before it asks for its lock, when it gets it, while it
  holds it, and after it.\<close>

lemma call_gained:
  assumes "t = s\<lparr>kern := kernel_do (kern s) j ev, todo := (todo s)(j := rest)\<rparr>" and "holds (kern t) p j"
  shows "holds (kern s) p j \<or> (\<exists>fd. ev = KLock fd)"
  using holder_gained [of "kern s" j ev p j] assms by (auto simp: holds_def)

lemma request_simulates:
  assumes "\<not> holds (kern s) (job_lock_path locks (job j) (proc j)) j" and "list_all harmless pre"
    and "todo s j = ev # rest" and "todo s j = pre @ KOpen (job_lock_path locks (job j) (proc j)) fd # KLock fd # after"
    and ok: "kernel_ok (kern s) j ev" and t: "t = s\<lparr>kern := kernel_do (kern s) j ev, todo := (todo s)(j := rest)\<rparr>"
  shows "lock_stutter locks (abs_host locks job proc s) (abs_host locks job proc t)"
proof (cases pre)
  case Nil
  with assms(3,4) have ev: "ev = KOpen (job_lock_path locks (job j) (proc j)) fd" "rest = KLock fd # after" by simp_all
  have "\<not> waiting s (job_lock_path locks (job j) (proc j)) j" "waiting t (job_lock_path locks (job j) (proc j)) j"
    "\<not> holds (kern t) (job_lock_path locks (job j) (proc j)) j"
    using ev call_gained [OF t, of "job_lock_path locks (job j) (proc j)"] assms(1) by (auto simp: waiting_def assms(3) t)
  then show ?thesis using abs_request [where locks = locks and job = job and proc = proc, OF ok t assms(1)] by (simp add: lock_stutter_def)
next
  case (Cons e pre')
  with assms(2-4) have ev: "harmless ev" "rest = pre' @ KOpen (job_lock_path locks (job j) (proc j)) fd # KLock fd # after" "list_all harmless pre'"
    by auto
  then have "\<not> waiting s (job_lock_path locks (job j) (proc j)) j" "\<not> waiting t (job_lock_path locks (job j) (proc j)) j"
    "\<not> holds (kern t) (job_lock_path locks (job j) (proc j)) j"
    using call_gained [OF t, of "job_lock_path locks (job j) (proc j)"] assms(1) by (auto simp: waiting_def assms(3) t split: list.split kevent.split) (cases pre'; auto)+
  then show ?thesis
    using abs_stutter [where locks = locks and job = job and proc = proc, OF ok t] assms(1) by (simp add: lock_stutter_def)
qed

lemma inside_simulates:
  assumes "k_holder (kern s) (job_lock_path locks (job j) (proc j)) = Some (j, fd)" and "inside_run fd (ev # rest)"
    and ok: "kernel_ok (kern s) j ev" and t: "t = s\<lparr>kern := kernel_do (kern s) j ev, todo := (todo s)(j := rest)\<rparr>"
  shows "lock_stutter locks (abs_host locks job proc s) (abs_host locks job proc t)"
  using assms(2) [unfolded inside_run.simps]
proof (elim disjE conjE)
  let ?p = "job_lock_path locks (job j) (proc j)"
  assume spare: "fd \<notin> kfds ev"
  have "k_holder (kernel_do (kern s) j ev) ?p = Some (j, fd)"
    using assms(1) spare ok by (cases ev) (auto simp: drop_locks_def split: option.splits)
  then have "holds (kern s) ?p j" "holds (kern t) ?p j" using assms(1) by (simp_all add: holds_def t)
  then show ?thesis
    using abs_stutter [where locks = locks and job = job and proc = proc, OF ok t] by (simp add: lock_stutter_def)
next
  let ?p = "job_lock_path locks (job j) (proc j)"
  assume ev: "ev = KUnlock fd" "rest = []"
  have "holds (kern s) ?p j" "\<not> holds (kern t) ?p j" "\<not> waiting t ?p j"
    using assms(1) by (simp_all add: holds_def t ev drop_locks_def waiting_def)
  then show ?thesis using abs_unlock [OF ok t] by (simp add: lock_stutter_def)
qed

lemma phase_call_simulates:
  assumes "phase (job_lock_path locks (job j) (proc j)) (kern s) j (todo s j)"
    and "todo s j = ev # rest" and ok: "kernel_ok (kern s) j ev"
    and t: "t = s\<lparr>kern := kernel_do (kern s) j ev, todo := (todo s)(j := rest)\<rparr>"
  shows "lock_stutter locks (abs_host locks job proc s) (abs_host locks job proc t)"
proof -
  let ?p = "job_lock_path locks (job j) (proc j)"
  from assms(1) show ?thesis
  proof (cases rule: phase.cases)
    case (before pre fd tl)
    with request_simulates [OF _ _ assms(2) _ ok t] show ?thesis by blast
  next
    case (waits fd tl)
    with assms(2) have ev: "ev = KLock fd" by simp
    have "k_holder (kern s) ?p = None" using ok waits(2,4) by (auto simp: ev holds_def split: option.splits)
    moreover have "waiting s ?p j" using waits(2) by (simp add: waiting_def assms(2) ev)
    moreover have "holds (kern t) ?p j" using waits(2) by (simp add: holds_def t ev)
    ultimately show ?thesis using abs_grant [OF ok t] by (simp add: lock_stutter_def)
  next
    case (inside fd)
    with inside_simulates [OF _ _ ok t] show ?thesis unfolding assms(2) by blast
  next
    case past
    then have "harmless ev" "list_all harmless rest" "\<not> holds (kern s) ?p j" by (simp_all add: assms(2))
    moreover from this have "\<not> waiting s ?p j" "\<not> waiting t ?p j" "\<not> holds (kern t) ?p j"
      using call_gained [OF t, of "job_lock_path locks (job j) (proc j)"] by (auto simp: waiting_def assms(2) t split: list.split kevent.split)
    ultimately show ?thesis
      using abs_stutter [where locks = locks and job = job and proc = proc, OF ok t] by (simp add: lock_stutter_def)
  qed
qed

lemma host_step_simulates:
  assumes "\<And>i. phase (job_lock_path locks (job i) (proc i)) (kern s) i (todo s i)" and "host_step s t"
  shows "lock_stutter locks (abs_host locks job proc s) (abs_host locks job proc t)"
  using assms(2)
proof (cases rule: host_step.cases)
  case (call j ev rest)
  from phase_call_simulates [where job = job and proc = proc, OF assms(1) call(2,3,1)] show ?thesis .
next
  case (exit j)
  then show ?thesis using abs_exit by (simp add: lock_stutter_def)
qed

text \<open>C5: on a host where any number of start, stop and run commands run interleaved, each on a process of a job,
  the kernel's locks and descriptors implement the lock protocol: opening the lock file is its request, a granted
  \<open>flock\<close> its grant, the release after a command its unlock and the end of a program its exit, and
  everything else the commands do, closing their own descriptors and locking volumes included, leaves the protocol's
  state as it is.\<close>

theorem host_refines_lock_protocol:
  assumes "\<And>i. command_run locks (job i) (proc i) (runs i)" and "host_reachable runs s"
  shows "lock_reachable locks (abs_host locks job proc s) \<and>
    (\<forall>t. host_step s t \<longrightarrow> lock_stutter locks (abs_host locks job proc s) (abs_host locks job proc t))"
proof -
  have phases: "phase (job_lock_path locks (job n) (proc n)) (kern s) n (todo s n)" if "host_reachable runs s" for n s
    using host_phases [of "\<lambda>i. job_lock_path locks (job i) (proc i)" runs s n] command_run_locked [OF assms(1)] that by blast
  have sim: "lock_stutter locks (abs_host locks job proc s) (abs_host locks job proc t)" if "host_reachable runs s" "host_step s t" for s t
    by (rule host_step_simulates [OF phases [OF that(1)] that(2)])
  from assms(2) have "lock_reachable locks (abs_host locks job proc s)"
  proof (induction rule: host_reachable.induct)
    case start
    have "abs_host locks job proc (init_host runs) = init_lock_sys"
      by (auto simp: abs_host_def abs_pst_def abs_holder_def init_host_def init_lock_sys_def holds_def waiting_def fun_eq_iff split: list.split kevent.split)
    then show ?case by (simp add: lock_reachable.start)
  next
    case (step s t)
    from sim [OF step.hyps] step.IH show ?case by (auto simp: lock_stutter_def intro: lock_reachable.step)
  qed
  with sim assms(2) show ?thesis by blast
qed

theorem host_refines_lock_protocol_witness:
  "host_reachable (\<lambda>_. start_events) two_starts \<and>
   lock_reachable (NewHandle ''/locks'') (abs_host (NewHandle ''/locks'') (\<lambda>_. ''web'') (\<lambda>_. ''web'') two_starts)"
  using host_refines_lock_protocol [of "NewHandle ''/locks''" "\<lambda>_. ''web''" "\<lambda>_. ''web''" "\<lambda>_. start_events" two_starts]
    start_events_run two_starts_reachable by auto

end
