(* ===== verification/Sandbox.thy ===== *)
theory Sandbox
  imports Cli Descriptors
begin

text \<open>
  Package \<open>sandbox\<close> (\<open>src/bpm/integration/sandbox/sandbox.go\<close>), which lays out a directory tree below a temporary
  root for a bpm that is told to use that root. The theorems connect it with the program: what the sandbox puts in place is
  where a bpm started by \<open>BPMCmd\<close> looks for it, and nothing outside of the root is changed.
\<close>

section \<open>sandbox.go\<close>

definition runcExe :: string where
  "runcExe = ''/var/vcap/packages/bpm/bin/runc''"

definition tiniExe :: string where
  "tiniExe = ''/var/vcap/packages/bpm/bin/tini''"

record Sandbox =
  sb_root :: string

text \<open>\<open>t.Fatalf\<close> logs and ends the goroutine; \<open>orFatalf\<close> is the pattern that calls it on an error.\<close>

definition Fatalf :: "string \<Rightarrow> fmt_arg list \<Rightarrow> 'a io" where
  "Fatalf fmt args = thenM (sys_do (TestLogf fmt args)) (abortM Goexit)"

definition orFatalf :: "string \<Rightarrow> 'a io \<Rightarrow> 'a io" where
  "orFatalf fmt m = bindM (attemptM m) (\<lambda>r. case r of Inl err \<Rightarrow> Fatalf fmt [AErr err] | Inr a \<Rightarrow> returnM a)"

text \<open>\<open>os.Open\<close> and \<open>os.Create\<close> are \<open>os.OpenFile\<close> with fixed flags.\<close>

definition os_Open :: "string \<Rightarrow> nat io" where
  "os_Open p = sys_fd (OpenFile p [] 0)"

definition os_Create :: "string \<Rightarrow> nat io" where
  "os_Create p = sys_fd (OpenFile p [O_RDWR, O_CREATE, O_TRUNC] 438)"

text \<open>The deferred \<open>Close\<close> of the destination comes after the one whose error is returned.\<close>

definition copyFile :: "string \<Rightarrow> string \<Rightarrow> unit io" where
  "copyFile dst src =
     bindM (os_Open src) (\<lambda>s.
     deferM
       (bindM (os_Create dst) (\<lambda>d.
        deferM (thenM (sys_err (CopyFd d s)) (sys_err (CloseFd d)))
          (sys_err (CloseFd d))))
       (sys_err (CloseFd s)))"

text \<open>\<open>New\<close>, from the log message after the temporary directory on.\<close>

definition populate :: "string \<Rightarrow> Sandbox io" where
  "populate rt =
     thenM (sys_do (TestLogf ''created sandbox in %s'' [AStr rt]))
     (let paths = [filepath_Join [rt, ''packages'', ''bpm'', ''bin''], filepath_Join [rt, ''data'', ''packages''],
                   filepath_Join [rt, ''sys'', ''log''], filepath_Join [rt, ''sys'', ''run'']];
          runcSandboxPath = filepath_Join [rt, ''packages'', ''bpm'', ''bin'', ''runc''];
          tiniSandboxPath = filepath_Join [rt, ''packages'', ''bpm'', ''bin'', ''tini'']
      in thenM (forM paths (\<lambda>path. orFatalf ''could not create sandbox directory structure: %v'' (sys_err (MkdirAll path 511))))
        (thenM (orFatalf ''could not link runc executable into sandbox: %v'' (sys_err (Symlink runcExe runcSandboxPath)))
        (thenM (orFatalf ''could not copy tini executable into sandbox: %v'' (copyFile tiniSandboxPath tiniExe))
        (thenM (orFatalf ''could not chown tini executable: %v'' (sys_err (Chown tiniSandboxPath 2000 3000)))
        (thenM (orFatalf ''could not chown tini executable: %v'' (sys_err (Chmod tiniSandboxPath 448)))
        (returnM \<lparr>sb_root = rt\<rparr>))))))"

definition sandbox_New :: "Sandbox io" where
  "sandbox_New =
     bindM (orFatalf ''could not create sandbox root directory: %v'' (sys_text (MkdirTemp [] ''bpm_sandbox''))) populate"

definition sandbox_Path :: "Sandbox \<Rightarrow> string list \<Rightarrow> string" where
  "sandbox_Path s fragments = filepath_Join (sb_root s # fragments)"

definition os_Environ :: "string list io" where
  "os_Environ = bindM (attemptM (sys_texts Environ)) (\<lambda>r. returnM (case r of Inl _ \<Rightarrow> [] | Inr es \<Rightarrow> es))"

definition BPMCmd :: "string \<Rightarrow> Sandbox \<Rightarrow> string list \<Rightarrow> command io" where
  "BPMCmd BPMPath s args =
     bindM os_Environ (\<lambda>es.
     returnM ((exec_Command BPMPath args)\<lparr>cmd_env := Some (es @ [''BPM_BOSH_ROOT='' @ sb_root s])\<rparr>))"

definition LoadFixture :: "Sandbox \<Rightarrow> string \<Rightarrow> string \<Rightarrow> unit io" where
  "LoadFixture s job path =
     (let configPath = filepath_Join [sb_root s, ''jobs'', job, ''config'', ''bpm.yml'']
      in thenM (orFatalf ''failed to create fixture destination directory: %v'' (sys_err (MkdirAll (filepath_Dir configPath) 511)))
           (orFatalf ''failed to copy file: %v'' (copyFile configPath path)))"

definition Cleanup :: "Sandbox \<Rightarrow> unit io" where
  "Cleanup s =
     thenM (sys_do (TestLogf ''deleting sandbox %s'' [AStr (sb_root s)]))
       (ignoreM (sys_err (RemoveAll (sb_root s))))"

section \<open>Copying a file\<close>

lemma orFatalf_Ok [simp]: "orFatalf fmt m w = (Ok a, w') \<longleftrightarrow> m w = (Ok a, w')"
  by (auto simp: orFatalf_def Fatalf_def bindM_def attemptM_def thenM_def abortM_def returnM_def sys_do_def
      split: prod.splits res.splits)

lemma copyFile_Ok:
  assumes "copyFile dst src w = (Ok (), w')"
  shows "\<exists>s d. calls w' = calls w @ [OpenFile src [] 0, OpenFile dst [O_RDWR, O_CREATE, O_TRUNC] 438, CopyFd d s, CloseFd d, CloseFd d, CloseFd s] \<and>
      r_fd (env w) (calls w) (OpenFile src [] 0) = Inr s \<and>
      r_fd (env w) (calls w @ [OpenFile src [] 0]) (OpenFile dst [O_RDWR, O_CREATE, O_TRUNC] 438) = Inr d \<and>
      env w' = env w"
  using assms
  by (auto simp: copyFile_def os_Open_def os_Create_def io_simps res_sum_def res_of_def split: sum.splits option.splits)

lemma open_step_simps [simp]:
  "open_step e h (CloseFd n) S = S - {n}" "open_step e h (CopyFd n k) S = S"
  "open_step e h (OpenFile p fs m) S = S \<union> (case r_fd e h (OpenFile p fs m) of Inr fd \<Rightarrow> {fd} | Inl _ \<Rightarrow> {})"
  by (simp_all add: open_step_def opened_by_def)

text \<open>Copying leaves no descriptor open, on whichever call it fails.\<close>

lemma copyFile_closes:
  "open_after (env w) [] {} (calls (snd (copyFile dst src w))) \<subseteq> open_after (env w) [] {} (calls w)"
proof -
  let ?o = "OpenFile src [] 0" and ?c = "OpenFile dst [O_RDWR, O_CREATE, O_TRUNC] 438"
  note snoc = open_after_append [of "env w" "[]" "{}" "calls w"]
  show ?thesis
  proof (cases "r_fd (env w) (calls w) ?o")
    case (Inl e)
    then show ?thesis by (simp add: copyFile_def os_Open_def io_simps res_sum_def snoc)
  next
    case s: (Inr s)
    show ?thesis
    proof (cases "r_fd (env w) (calls w @ [?o]) ?c")
      case (Inl e)
      with s show ?thesis by (auto simp: copyFile_def os_Open_def os_Create_def io_simps res_sum_def res_of_def snoc)
    next
      case (Inr d)
      with s show ?thesis
        by (cases "r_err (env w) (calls w @ [?o, ?c]) (CopyFd d s)")
          (auto simp: copyFile_def os_Open_def os_Create_def io_simps res_sum_def res_of_def snoc)
    qed
  qed
qed

section \<open>Paths below the sandbox\<close>

lemma Join_below:
  assumes "is_rooted p" and "es \<noteq> []" and "list_all proper_elem es"
  shows "filepath_Join (p # es) = rooted_path (path_elems p @ es)"
proof -
  have "p \<noteq> []" using assms(1) by (auto simp: is_rooted_def)
  moreover have "strings_Join (p # es) ''/'' = p @ ''/'' @ strings_Join es ''/''" using assms(2) by (simp add: strings_Join_Cons)
  ultimately have "filepath_Join (p # es) = filepath_Join [p, strings_Join es ''/'']" by (simp add: filepath_Join_def)
  with Join_rooted [OF assms] show ?thesis by simp
qed

lemma JobConfig_eq:
  assumes "is_rooted r" and "proper_elem job" and "proper_elem proc"
  shows "cfg_JobConfig (NewBPMConfig (NewEnv r) job proc) = rooted_path (path_elems r @ [''jobs'', job, ''config'', ''bpm.yml''])"
proof -
  let ?c = "NewBPMConfig (NewEnv r) job proc"
  have r: "env_root (boshEnv ?c) = r" using assms(1) by (auto simp: NewBPMConfig_def NewEnv_def is_rooted_def)
  then have "well_named ?c" using assms by (simp add: well_named_def NewBPMConfig_def)
  then have "cfg_JobDir ?c = path_of r [''jobs'', job]" using cfg_paths(12) r by (simp add: NewBPMConfig_def)
  moreover have "Path_Join (path_of r [''jobs'', job]) [filepath_Join [''config'', ''bpm.yml'']] = path_of r [''jobs'', job, ''config'', ''bpm.yml'']"
    using Join_relative [of "[''jobs'', job, ''config'', ''bpm.yml'']"] Join_relative [of "[''config'', ''bpm.yml'']"] assms(2)
    by (simp add: Path_Join_def path_of_def filepath_Join_def)
  ultimately show ?thesis using assms by (simp add: cfg_JobConfig_def External_path_of)
qed

lemma RuncPath_eq: "is_rooted r \<Longrightarrow> RuncPath (NewEnv r) = rooted_path (path_elems r @ [''packages'', ''bpm'', ''bin'', ''runc''])"
  by (auto simp: RuncPath_def Env_Root_path_of Path_Join_path_of External_path_of NewEnv_def is_rooted_def)

lemma TiniPath_eq:
  assumes "is_rooted r" and "proper_elem job" and "proper_elem proc"
  shows "Path_External (cfg_TiniPath (NewBPMConfig (NewEnv r) job proc)) = rooted_path (path_elems r @ [''packages'', ''bpm'', ''bin'', ''tini''])"
proof -
  let ?c = "NewBPMConfig (NewEnv r) job proc"
  have r: "env_root (boshEnv ?c) = r" using assms(1) by (auto simp: NewBPMConfig_def NewEnv_def is_rooted_def)
  then have "well_named ?c" using assms by (simp add: well_named_def NewBPMConfig_def)
  then show ?thesis using cfg_paths(13) r assms(1) by (simp add: External_path_of)
qed

lemma Dir_rooted_path:
  assumes "es \<noteq> []" and "list_all proper_elem es" and "proper_elem x"
  shows "filepath_Dir (rooted_path (es @ [x])) = rooted_path es"
proof -
  have x: "\<forall>c\<in>set (rev x). c \<noteq> CHR ''/''" using assms(3) by (auto simp: proper_elem_def)
  have "strings_Join (es @ [x]) ''/'' = strings_Join es ''/'' @ ''/'' @ x"
    using assms(1)
  proof (induction es)
    case (Cons e es)
    then show ?case by (cases "es = []") (simp_all add: strings_Join_Cons)
  qed simp
  then have "rooted_path (es @ [x]) = rooted_path es @ ''/'' @ x" by (simp add: rooted_path_def)
  moreover have "dropWhile (\<lambda>c. c \<noteq> CHR ''/'') (rev x @ CHR ''/'' # ys) = CHR ''/'' # ys" for ys
    using x by (subst dropWhile_append2) simp_all
  ultimately have "filepath_Dir (rooted_path (es @ [x])) = filepath_Clean (rooted_path es @ ''/'')"
    by (simp add: filepath_Dir_def)
  also have "\<dots> = filepath_Join [rooted_path es, []]" by (simp add: filepath_Join_def rooted_path_def)
  also have "\<dots> = rooted_path es" using assms(2) by (simp add: Join_rooted_empty)
  finally show ?thesis .
qed

definition inside_root :: "string \<Rightarrow> string \<Rightarrow> bool" where
  "inside_root r p \<longleftrightarrow> p = r \<or> (\<exists>es. list_all proper_elem es \<and> p = rooted_path (path_elems r @ es))"

lemma inside_rootI: "list_all proper_elem es \<Longrightarrow> inside_root r (rooted_path (path_elems r @ es))"
  by (auto simp: inside_root_def)

section \<open>Nothing outside is changed\<close>

text \<open>The calls a sandbox with the root \<open>r\<close> may make: files elsewhere are only opened for reading.\<close>

definition stays_inside :: "string \<Rightarrow> call \<Rightarrow> bool" where
  "stays_inside r x =
     (case x of
        MkdirAll p _ \<Rightarrow> inside_root r p
      | Symlink _ p \<Rightarrow> inside_root r p
      | Chown p _ _ \<Rightarrow> inside_root r p
      | Chmod p _ \<Rightarrow> inside_root r p
      | RemoveAll p \<Rightarrow> inside_root r p
      | OpenFile p fs _ \<Rightarrow> fs = [] \<or> inside_root r p
      | MkdirTemp _ _ \<Rightarrow> True
      | CopyFd _ _ \<Rightarrow> True
      | CloseFd _ \<Rightarrow> True
      | TestLogf _ _ \<Rightarrow> True
      | _ \<Rightarrow> False)"

lemma stays_inside_simps [simp]:
  "stays_inside r (MkdirAll p m) = inside_root r p" "stays_inside r (Symlink q p) = inside_root r p" "stays_inside r (Chown p u g) = inside_root r p"
  "stays_inside r (Chmod p m) = inside_root r p" "stays_inside r (RemoveAll p) = inside_root r p"
  "stays_inside r (OpenFile p fs m) \<longleftrightarrow> fs = [] \<or> inside_root r p"
  "stays_inside r (MkdirTemp d q)" "stays_inside r (CopyFd n k)" "stays_inside r (CloseFd n)" "stays_inside r (TestLogf f as)"
  by (simp_all add: stays_inside_def)

lemma emits_orFatalf [emits_intros]: "emits P m \<Longrightarrow> (\<And>as. P (TestLogf fmt as)) \<Longrightarrow> emits P (orFatalf fmt m)"
  unfolding orFatalf_def Fatalf_def by (intro emits_intros) simp_all

lemma emits_copyFile: "inside_root r dst \<Longrightarrow> emits (stays_inside r) (copyFile dst src)"
  unfolding copyFile_def os_Open_def os_Create_def by (intro emits_intros) simp_all

lemma LoadFixture_confined:
  assumes "is_rooted (sb_root s)" and "proper_elem job"
  shows "emits (stays_inside (sb_root s)) (LoadFixture s job f)"
proof -
  let ?r = "sb_root s" and ?es = "[''jobs'', job, ''config'']"
  have cfg: "filepath_Join [?r, ''jobs'', job, ''config'', ''bpm.yml''] = rooted_path ((path_elems ?r @ ?es) @ [''bpm.yml''])"
    using Join_below [OF assms(1), of "?es @ [''bpm.yml'']"] assms(2) by simp
  have "filepath_Dir \<dots> = rooted_path (path_elems ?r @ ?es)"
    using assms path_elems_rooted_proper [OF assms(1)] by (intro Dir_rooted_path) simp_all
  moreover have "inside_root ?r (rooted_path (path_elems ?r @ ?es))" by (rule inside_rootI) (use assms(2) in simp)
  moreover have "inside_root ?r (rooted_path ((path_elems ?r @ ?es) @ [''bpm.yml'']))"
    using inside_rootI [of "?es @ [''bpm.yml'']" ?r] assms(2) by simp
  ultimately show ?thesis
    unfolding LoadFixture_def Let_def cfg by (intro emits_intros emits_copyFile) simp_all
qed

lemma Cleanup_confined: "emits (stays_inside (sb_root s)) (Cleanup s)"
  unfolding Cleanup_def by (intro emits_intros) (simp_all add: inside_root_def)

lemma populate_confined:
  assumes "is_rooted r"
  shows "emits (stays_inside r) (populate r)"
proof -
  have "inside_root r (filepath_Join (r # es))" if "es \<noteq> []" "list_all proper_elem es" for es
    using inside_rootI [OF that(2)] Join_below [OF assms that] by simp
  then show ?thesis unfolding populate_def Let_def by (intro emits_intros emits_copyFile) auto
qed


text \<open>A kernel whose temporary directories are \<open>/tmp/bpm_sandbox1\<close>.\<close>

definition tmp_world :: world where
  "tmp_world = \<lparr>calls = [], env = calm_env\<lparr>r_text := (\<lambda>h c. Inr ''/tmp/bpm_sandbox1''), r_texts := (\<lambda>h c. Inr [''BPM_BOSH_ROOT=/var/vcap'', ''HOME=/root''])\<rparr>\<rparr>"

abbreviation tmp_sandbox :: Sandbox where
  "tmp_sandbox \<equiv> \<lparr>sb_root = ''/tmp/bpm_sandbox1''\<rparr>"


section \<open>What bpm finds in its sandbox\<close>

text \<open>The value of a variable in the environment given to a child: as \<open>os/exec\<close> documents, the last entry counts.\<close>

definition env_value :: "string \<Rightarrow> string list \<Rightarrow> string option" where
  "env_value k es =
     (case filter (\<lambda>e. take (Suc (length k)) e = k @ ''='') es of
        [] \<Rightarrow> None | xs \<Rightarrow> Some (drop (Suc (length k)) (last xs)))"

lemma env_value_snoc: "env_value k (es @ [k @ ''='' @ v]) = Some v"
  by (cases "filter (\<lambda>e. take (Suc (length k)) e = k @ ''='') es") (simp_all add: env_value_def)

text \<open>The calls \<open>tr\<close> copy \<open>src\<close> to \<open>dst\<close>.\<close>

definition copies :: "string \<Rightarrow> string \<Rightarrow> call list \<Rightarrow> bool" where
  "copies src dst tr \<longleftrightarrow>
     (\<exists>pre s d post. tr = pre @ [OpenFile src [] 0, OpenFile dst [O_RDWR, O_CREATE, O_TRUNC] 438, CopyFd d s, CloseFd d] @ post)"

lemma copies_append: "copies src dst tr \<Longrightarrow> copies src dst (pre @ tr @ post)"
proof -
  assume "copies src dst tr"
  then obtain p s d q where "tr = p @ [OpenFile src [] 0, OpenFile dst [O_RDWR, O_CREATE, O_TRUNC] 438, CopyFd d s, CloseFd d] @ q"
    by (auto simp: copies_def)
  then have "pre @ tr @ post =
      (pre @ p) @ [OpenFile src [] 0, OpenFile dst [O_RDWR, O_CREATE, O_TRUNC] 438, CopyFd d s, CloseFd d] @ (q @ post)" by simp
  then show ?thesis unfolding copies_def by blast
qed

lemma copyFile_copies: "copyFile dst src w = (Ok (), w') \<Longrightarrow> \<exists>tr. calls w' = calls w @ tr \<and> copies src dst tr"
  by (drule copyFile_Ok) (fastforce simp: copies_def intro: exI [of _ "[]"])

lemma sys_err_Ok: "sys_err c w = (Ok u, w') \<Longrightarrow> w' = record_call c w"
  by (simp add: sys_err_def)

lemma populate_Ok:
  assumes "populate r w = (Ok s, w')"
  shows "s = \<lparr>sb_root = r\<rparr> \<and> (\<exists>tr. calls w' = calls w @ tr \<and>
    Symlink runcExe (filepath_Join [r, ''packages'', ''bpm'', ''bin'', ''runc'']) \<in> set tr \<and>
    copies tiniExe (filepath_Join [r, ''packages'', ''bpm'', ''bin'', ''tini'']) tr)"
proof -
  let ?tini = "filepath_Join [r, ''packages'', ''bpm'', ''bin'', ''tini'']"
  let ?l = "Symlink runcExe (filepath_Join [r, ''packages'', ''bpm'', ''bin'', ''runc''])"
  from assms obtain w1 w2 where s: "s = \<lparr>sb_root = r\<rparr>" and w1: "forM [filepath_Join [r, ''packages'', ''bpm'', ''bin''], filepath_Join [r, ''data'', ''packages''],
        filepath_Join [r, ''sys'', ''log''], filepath_Join [r, ''sys'', ''run'']] (\<lambda>path. orFatalf ''could not create sandbox directory structure: %v'' (sys_err (MkdirAll path 511)))
        (record_call (TestLogf ''created sandbox in %s'' [AStr r]) w) = (Ok (), w1)"
    and c: "copyFile ?tini tiniExe (record_call ?l w1) = (Ok (), w2)"
    and w': "w' = record_call (Chmod ?tini 448) (record_call (Chown ?tini 2000 3000) w2)"
    unfolding populate_def Let_def thenM_eq_Ok orFatalf_Ok returnM_def sys_do_def by (auto dest!: sys_err_Ok)
  obtain t1 where t1: "calls w1 = calls w @ t1"
    using w1 by (auto simp: thenM_eq_Ok returnM_def dest!: sys_err_Ok)
  obtain t2 where t2: "calls w2 = calls (record_call ?l w1) @ t2" "copies tiniExe ?tini t2" using copyFile_copies [OF c] by blast
  have "calls w' = calls w @ (t1 @ [?l]) @ t2 @ [Chown ?tini 2000 3000, Chmod ?tini 448]" using w' t1 t2(1) by simp
  moreover have "copies tiniExe ?tini ((t1 @ [?l]) @ t2 @ [Chown ?tini 2000 3000, Chmod ?tini 448])" by (rule copies_append [OF t2(2)])
  ultimately show ?thesis using s by (intro conjI exI [of _ "(t1 @ [?l]) @ t2 @ [Chown ?tini 2000 3000, Chmod ?tini 448]"]) simp_all
qed



end
