(* ===== verification/Spec2Isabelle.thy ===== *)
theory Spec2Isabelle
  imports Recovery Errands Termination Panics Interleaving Sandbox
begin

text \<open>
  bpm, the BOSH process manager (\<open>src/src/bpm\<close>, written in Go), runs the processes of a BOSH job in
  containers: it validates a job's configuration, prepares directories and files, builds a container
  specification and drives runc. This library models the program's own code and proves what makes it
  correct. File names below are relative to \<open>src/src/bpm\<close>.

  \<^bold>\<open>Parts and how they interact.\<close> A command (\<open>commands\<close>) turns its arguments into the paths and the container
  identifier of one process (\<open>bosh\<close>, \<open>config\<close>, \<open>jobid\<close>), takes that process's lock (\<open>hostlock\<close>, \<open>flock\<close>), reads and
  validates the job configuration (\<open>config\<close>), and calls the lifecycle (\<open>runc/lifecycle\<close>). The lifecycle has the adapter
  (\<open>runc/adapter\<close>, over \<open>runc/specbuilder\<close>, \<open>safeio\<close>, \<open>sharedvolume\<close>) make the prerequisites and the specification, and
  the client (\<open>runc/client\<close>) write the bundle and run runc. \<open>cgroups\<close> and \<open>sysfeat\<close> look at the host. The result becomes the
  exit status of the program (\<open>exitstatus\<close>, \<open>cmd/bpm/main.go\<close>).

  \<^bold>\<open>Modelling.\<close> Go strings are byte lists. An operation that can fail or panic has a \<open>res\<close>: a value, an error, or an
  abort (panic, exit, out of fuel). Errors keep their format and arguments unrendered. Code that leaves the program is
  an \<open>io\<close> action on a \<open>world\<close>: the calls made so far and an environment that answers every call as an arbitrary function
  of that history, so a theorem about all worlds covers every content of the file system, every error at every point,
  and every interference between two calls. Go maps are association lists; where the iteration order shows, it is an
  arbitrary permutation. 32- and 64-bit values are words. The YAML and JSON decoders, the byte-size parser and SHA-256 are
  parameters. Logging is left out.

  \<^bold>\<open>Theories.\<close>
  \<^item> \<open>Prelude\<close>, \<open>GoPath\<close>, \<open>World\<close>: errors and results, the functions of \<open>strings\<close>, \<open>strconv\<close>, \<open>utf8\<close> and \<open>path/filepath\<close> that the
    program uses, calls, sequencing, and the logic \<open>emits\<close> of which calls an action can make.
  \<^item> \<open>JobId\<close> (\<open>jobid/encoding.go\<close>): encoding is a round trip into names that runc accepts, by runc's own expression.
  \<^item> \<open>Bosh\<close> (\<open>bosh/*.go\<close>, \<open>config/bpm_config.go\<close>): paths and identifiers; which processes share resources.
  \<^item> \<open>JobConfig\<close> (\<open>config/job_config.go\<close>): what validation accepts, the flags of \<open>bpm run\<close>.
  \<^item> \<open>HostLock\<close> (\<open>flock\<close>, \<open>hostlock\<close>): the lock operations, and the lock protocol of any number of bpm processes as a step
    relation with mutual exclusion and progress, the specification that \<open>Interleaving\<close> shows the commands to implement.
  \<^item> \<open>Host\<close> (\<open>safeio\<close>, \<open>sharedvolume\<close>, \<open>sysfeat\<close>, \<open>usertools\<close>), \<open>Cgroups\<close> (\<open>cgroups/cgroup.go\<close>): the host-side helpers.
  \<^item> \<open>Seccomp\<close>, \<open>SpecBuilder\<close> (\<open>runc/specbuilder\<close>): the system call filter with the kernel's reading of it and exactly
    what it allows; the specification and its options.
  \<^item> \<open>Mounts\<close>, \<open>Adapter\<close> (\<open>runc/adapter\<close>): the mount set as an interface (\<open>mount_set\<close>) with its implementation and its order; the
    prerequisites, call by call as the environment answers (\<open>volume_walk\<close>); the specification: confinement, which mounts are
    read-only and without execution, limits, environment.
  \<^item> \<open>Client\<close> (\<open>runc/client\<close>), \<open>Lifecycle\<close> (\<open>runc/lifecycle\<close>, \<open>models\<close>): runc's command lines; what the lifecycle relies on (\<open>runc_api\<close>,
    \<open>lifecycle_api\<close>), interpreted on the client, and what it asks of the adapter (\<open>adapter_api\<close>) and gives the commands
    (\<open>process_api\<close>), interpreted on the program; starting, stopping (\<open>heeds_states\<close>: every answer about the container counts) and
    removing.
  \<^item> \<open>Commands\<close> (\<open>root.go\<close>, \<open>start.go\<close>, \<open>stop.go\<close>, \<open>run.go\<close>), \<open>Inspect\<close> (the other commands), \<open>Program\<close> (\<open>exitstatus\<close>, what errors say,
    and the commands as one program that passes values): what stop and start come to, that start, stop and run act only once their lock was
    granted, and what the commands that only look may start.
  \<^item> \<open>Table\<close> (\<open>presenters\<close>, with \<open>text/tabwriter\<close> as it is used there): the table of \<open>bpm list\<close> is a layout by columns.
  \<^item> \<open>Cli\<close> (the global variables, \<open>init\<close> functions and cobra commands of \<open>commands\<close>, \<open>cmd/bpm/main.go\<close>): the program as it is
    written, with variables that its functions share, is equivalent to the one of \<open>Program\<close>.
  \<^item> \<open>Outcomes\<close>: how the code can abort, for every policy about aborts that meets one law per panicking place in the sources
    (\<open>outcome_policy\<close>). \<open>Termination\<close>: no invocation runs forever, except by waiting for a timer or a child that never ends.
    \<open>Panics\<close>: every panic of the program has one of five causes.
  \<^item> \<open>Runtime\<close>: runc's documented behaviour (\<open>runc_behaves\<close>) as hypotheses on the environment, with a simulated runc that has it;
    start and stop refine the abstract set of containers, and no command acts on another process's container.
  \<^item> \<open>Progress\<close>: a logic of actions that succeed, and what a host has to provide (\<open>obliging\<close>, \<open>all_ready\<close>) for the program to exit with
    status 0 from any sequence of \<open>bpm start\<close> and \<open>bpm stop\<close>, with the right containers afterwards. \<open>Errands\<close>: the exit status of
    \<open>bpm run\<close> is that of its process.
  \<^item> \<open>Files\<close>: the calls with the meaning that POSIX gives them on a disk of files and descriptors (\<open>disk_step\<close>), with partial writes, failed
    removals and child processes as parameters; no file outside those of one container loses anything, up to any point at which the
    program is killed. \<open>Recovery\<close>: processes of the program that are killed between any two calls, and that the commands given
    afterwards bring the containers to where they would be without the interruption.
  \<^item> \<open>Descriptors\<close>, \<open>Interleaving\<close>: the commands use only descriptors that they opened, so a lock is held until it is released;
    interleaved commands on a kernel with descriptors and file locks refine the protocol of \<open>HostLock\<close>, and those for one
    process are carried out one after the other.
  \<^item> \<open>Sandbox\<close> (\<open>integration/sandbox/sandbox.go\<close>): the directory tree in which the integration tests run bpm.
  \<^item> This theory: properties across components, from the configuration to the container that is started.

  \<^bold>\<open>Bounds and fuel.\<close> \<open>StopProcess\<close>, \<open>trace\<close> and \<open>logs\<close> wait in loops without a bound of their own. Their models take fuel, one unit
  per received event. Any fuel above the number of events before the timer fires, or the child ends, is enough
  (\<open>invocations_terminate\<close>), and more gives the same result; with the one-second ticker and the 15 second timeout of \<open>bpm stop\<close>
  that is about 15.

  \<^bold>\<open>Not modelled.\<close> Log output; the splitting of a command line into command, flags and arguments, and usage texts (cobra, whose
  order of calling a command's functions is modelled); what a tab writer does after a write of its own has failed; the
  test server of the acceptance tests, whose parts are HTTP handlers that report on their container; \<open>tools\<close>, which only pins
  build tools; vendored code, the byte-size parser included, which computes in floating point and stays a parameter. A disk of
  \<open>Files\<close> has no links, permissions or mounts: paths are compared by their elements. A process is killed between two calls, not
  within one; a runc that is killed halfway shows as a container that is created and not started, or as one whose state cannot be read.
\<close>

section \<open>From the configuration to the container\<close>

text \<open>C1: what \<open>bpm start\<close> hands to runc. When starting a process that does not ask for privileges succeeds, the last calls were, in this
  order: the bundle; the pre-start hook, if there is one; the one \<open>runc run\<close> for this bundle and container; and closing the two log files.
  At the moment of \<open>runc run\<close>, whatever an earlier start that was cut short has left, the file \<open>config.json\<close> of the bundle begins with the
  complete encoding of a confined specification for the job's user, and holds nothing else when the file was not there before. The file is not
  truncated, so what it held beyond that length stays behind it; runc reads only the first JSON value.\<close>

theorem started_container_confined:
  assumes "StartProcess (lifecycle_of json ord toBytes client (program_adapter sha f locks (Some cgroupsPathForContainer))) c p w = (Ok (), w')"
    and "unprivileged p" and "q = path_elems (filepath_Join [cfg_BundlePath c, ''config.json''])" and "\<And>h x F. he_child he h x F q = F q"
  shows "\<exists>u spec fd out err pre. fst (Lookup VcapUser w) = Ok u \<and> confined f p u spec \<and>
    calls w' = calls w @ (pre @ bundle_calls json c spec fd @ hook_calls p spec out err) @ [run_command client c out err, CloseFd err, CloseFd out] \<and>
    d_files (disk_after he (env w) (calls w) (pre @ bundle_calls json c spec fd @ hook_calls p spec out err) d) q =
      Some (encodeSpec json spec @ drop (length (encodeSpec json spec)) (content d q))"
proof -
  let ?a = "program_adapter sha f locks (Some cgroupsPathForContainer)"
  from StartProcess_Ok [OF assms(1)] obtain out err w1 where
    s: "setupProcess (lifecycle_of json ord toBytes client ?a) c p w = (Ok (out, err), w1)"
    and w': "calls w' = calls w1 @ [run_command client c out err, CloseFd err, CloseFd out]" .
  from setupProcess_writes [OF s assms(3,4), where d = d] obtain u w2 spec w3 pre fd where
    1: "fst (Lookup VcapUser w) = Ok u" "BuildSpec ord toBytes ?a c p u w2 = (Ok spec, w3)"
      "calls w1 = calls w @ pre @ bundle_calls json c spec fd @ hook_calls p spec out err"
      "d_files (disk_after he (env w) (calls w) (pre @ bundle_calls json c spec fd @ hook_calls p spec out err) d) q =
        Some (encodeSpec json spec @ drop (length (encodeSpec json spec)) (content d q))" .
  have "confined f p u spec" using BuildSpec_confined [OF 1(2) assms(2)] by (simp add: program_adapter_def NewRuncAdapter_def)
  with 1 w' show ?thesis by (auto simp del: append_assoc simp: append_assoc [symmetric])
qed

text \<open>A bundle that an earlier start left behind: the new specification is complete, with the end of the old one behind it.\<close>

abbreviation web_config :: path where
  "web_config \<equiv> path_elems (filepath_Join [cfg_BundlePath sim_cfg, ''config.json''])"

theorem started_container_confined_witness:
  "case StartProcess (program_lifecycle sim_externals sim_be (NewHandle ''/l'') False \<lparr>SwapLimitSupported = False, SeccompSupported = True\<rparr>)
      sim_cfg plain_process kind_world of
     (Ok _, w') \<Rightarrow> (\<exists>tr rest. calls w' = tr @ rest \<and> length rest = 3 \<and>
        d_files (disk_after calm_effects (kind_env sim_be) [] tr (old_disk web_config ''{old}'')) web_config = Some ''{}ld}'')
   | _ \<Rightarrow> False"
proof -
  let ?f = "\<lparr>SwapLimitSupported = False, SeccompSupported = True\<rparr>"
  have "provided sim_externals (kind_env sim_be) sim_cfg plain_process"
    by (simp add: provided_def plain_process_def example_process_def)
  then have "\<exists>w'. StartProcess (program_lifecycle sim_externals sim_be (NewHandle ''/l'') False ?f) sim_cfg plain_process kind_world = (Ok (), w')"
    by (intro StartProcess_runs [OF kind_obliging]) (simp_all add: kind_world_def sim_live_def)
  then obtain w' where s: "StartProcess (program_lifecycle sim_externals sim_be (NewHandle ''/l'') False ?f) sim_cfg plain_process kind_world = (Ok (), w')" ..
  have u: "unprivileged plain_process" by (simp add: unprivileged_def plain_process_def example_process_def)
  have k: "he_child calm_effects h x F web_config = F web_config" for h x F by (simp add: calm_effects_def)
  have enc: "encodeSpec (x_json sim_externals) spec = ''{}''" for spec by (simp add: sim_externals_def sim_json_def example_json_def)
  have old: "content (old_disk web_config ''{old}'') web_config = ''{old}''" by (simp add: content_def old_disk_def)
  obtain tr out err where "calls w' = calls kind_world @ tr @ [run_command (runc_of sim_be False) sim_cfg out err, CloseFd err, CloseFd out]"
    "d_files (disk_after calm_effects (env kind_world) (calls kind_world) tr (old_disk web_config ''{old}'')) web_config = Some (''{}'' @ drop (length ''{}'') ''{old}'')"
    using started_container_confined [OF s u refl k, of "old_disk web_config ''{old}''"] unfolding enc old by blast
  then have "calls w' = tr @ [run_command (runc_of sim_be False) sim_cfg out err, CloseFd err, CloseFd out]"
    "d_files (disk_after calm_effects (kind_env sim_be) [] tr (old_disk web_config ''{old}'')) web_config = Some ''{}ld}''"
    by (simp_all add: kind_world_def)
  then have "\<exists>tr rest. calls w' = tr @ rest \<and> length rest = 3 \<and>
      d_files (disk_after calm_effects (kind_env sim_be) [] tr (old_disk web_config ''{old}'')) web_config = Some ''{}ld}''"
    by (intro exI conjI) (assumption, simp, assumption)
  with s show ?thesis by auto
qed

section \<open>Containers and locks\<close>

text \<open>C40: a dot in a job name breaks the exclusion between two processes: the process \<open>a.b\<close> of a job \<open>a.b\<close> and the
  process \<open>b\<close> of a job \<open>a\<close> have the same container, but are guarded by different lock files.\<close>

theorem dotted_jobs_share_container_not_lock:
  assumes "a \<noteq> b" and "is_rooted (h_path locks)"
  shows "cfg_ContainerID (NewBPMConfig be (a @ ''.'' @ b) (a @ ''.'' @ b)) = cfg_ContainerID (NewBPMConfig be a b) \<and>
    job_lock_path locks (a @ ''.'' @ b) (a @ ''.'' @ b) \<noteq> job_lock_path locks a b"
  using assms by (auto simp: cfg_ContainerID_def NewBPMConfig_def job_lock_path_inject)

theorem dotted_jobs_share_container_not_lock_witness:
  "cfg_ContainerID (NewBPMConfig (NewEnv []) ''a.b'' ''a.b'') = cfg_ContainerID (NewBPMConfig (NewEnv []) ''a'' ''b'') \<and>
   job_lock_path (NewHandle ''/l'') ''a.b'' ''a.b'' \<noteq> job_lock_path (NewHandle ''/l'') ''a'' ''b''"
  using dotted_jobs_share_container_not_lock [of "''a''" "''b''" "NewHandle ''/l''" "NewEnv []"]
  by (simp add: NewHandle_def is_rooted_def)

end
